(* ===== verification/Go_Base.thy ===== *)
theory Go_Base
  imports
    Complex_Main
    "HOL-Library.Word"
    "HOL-Library.Signed_Division"
    "HOL-Library.AList"
    "HOL-Library.Sublist"
    "HOL-Library.Multiset"
begin

text \<open>
  What every theory of the development shares: the integers, times and outcomes of the Go
  language, the association lists that stand for Go maps, and the lemma collections.

  A Go \<open>int\<close> is an \<open>int\<close> that the 64-bit targets keep in \<open>[-2^63, 2^63)\<close>; every place
  where the code's arithmetic can leave that range writes the wrap-around out with \<open>wrap64\<close>.
  A \<open>time.Time\<close> is the number of nanoseconds since the zero time, a \<open>time.Duration\<close> a
  number of nanoseconds.
\<close>

named_theorems frame_simps
  \<open>which fields an operation leaves alone\<close>
named_theorems spec_simps
  \<open>characteristic equations of the operations of a component\<close>

section \<open>Machine integers\<close>

definition wrap64 :: "int \<Rightarrow> int" where
  "wrap64 x = signed_take_bit 63 x"

lemma wrap64_range: "- (2 ^ 63) \<le> wrap64 x \<and> wrap64 x < 2 ^ 63"
  using signed_take_bit_int_greater_eq_minus_exp [of 63 x] signed_take_bit_int_less_exp [of 63 x]
  by (simp add: wrap64_def)

lemma wrap64_id [simp]: "- (2 ^ 63) \<le> x \<Longrightarrow> x < 2 ^ 63 \<Longrightarrow> wrap64 x = x"
  by (simp add: wrap64_def signed_take_bit_int_eq_self)

definition uint32 :: "int \<Rightarrow> 32 word" where
  "uint32 x = word_of_int x"

lemma uint32_small: "0 \<le> x \<Longrightarrow> x < 2 ^ 32 \<Longrightarrow> uint (uint32 x) = x"
  by (simp add: uint32_def uint_word_of_int)

text \<open>Go's \<open>%\<close> keeps the sign of the dividend; the code folds it back with \<open>(h % n + n) % n\<close>.\<close>

lemma smod_fold_range:
  assumes "0 < (n::int)"
  shows "0 \<le> (h smod n + n) smod n \<and> (h smod n + n) smod n < n"
proof -
  have "\<bar>h smod n\<bar> < n"
    using assms by (simp add: signed_modulo_int_def abs_mult sgn_if)
  then have "0 < h smod n + n" by linarith
  then show ?thesis
    using assms by (simp add: signed_modulo_int_def sgn_if)
qed

section \<open>Times and durations\<close>

type_synonym gotime = int
type_synonym duration = int

definition IsZero :: "gotime \<Rightarrow> bool" where
  "IsZero t \<longleftrightarrow> t = 0"

definition millisecond :: duration where "millisecond = 1000000"
definition second :: duration where "second = 1000 * millisecond"
definition hour :: duration where "hour = 3600 * second"

lemmas unit_defs = millisecond_def second_def hour_def

text \<open>\<open>t.Sub(u)\<close> saturates at the ends of the 64-bit range.\<close>

definition time_sub :: "gotime \<Rightarrow> gotime \<Rightarrow> duration" where
  "time_sub t u = max (- (2 ^ 63)) (min (2 ^ 63 - 1) (t - u))"

lemma time_sub_less: "d \<le> 2 ^ 63 - 1 \<Longrightarrow> - (2 ^ 63) < d \<Longrightarrow> time_sub t u < d \<longleftrightarrow> t - u < d"
  by (auto simp: time_sub_def)

definition Milliseconds :: "duration \<Rightarrow> int" where
  "Milliseconds d = d sdiv 1000000"

section \<open>Outcomes\<close>

text \<open>A Go \<open>error\<close> result is \<open>Inl\<close> of its text; a function that can panic returns an outcome.\<close>

type_synonym 'a res = "string + 'a"

datatype 'a outcome = Panic string | Return 'a

fun obind :: "'a outcome \<Rightarrow> ('a \<Rightarrow> 'b outcome) \<Rightarrow> 'b outcome" where
  "obind (Panic e) f = Panic e"
| "obind (Return x) f = f x"

text \<open>A file of JSON as its reader sees it: absent, not decodable, or holding a value.\<close>

datatype 'a json_file = NoFile | Garbage | JSON 'a

section \<open>Maps\<close>

text \<open>
  A Go map is an association list with distinct keys, whose order is the iteration order of
  one run. Go leaves that order open, so a theorem that quantifies over the list covers
  every order. \<open>kv_store\<close> is the contract of lookup and insertion the components rely on.
\<close>

locale kv_store =
  fixes get :: "'m \<Rightarrow> 'k \<Rightarrow> 'v option"
    and put :: "'k \<Rightarrow> 'v \<Rightarrow> 'm \<Rightarrow> 'm"
    and ok :: "'m \<Rightarrow> bool"
  assumes get_put: "get (put k v m) k' = (if k' = k then Some v else get m k')"
    and put_ok: "ok m \<Longrightarrow> ok (put k v m)"
begin

lemma get_put_same [simp]: "get (put k v m) k = Some v"
  by (simp add: get_put)

lemma get_put_other: "k' \<noteq> k \<Longrightarrow> get (put k v m) k' = get m k'"
  by (simp add: get_put)

lemma put_all:
  assumes "\<And>k' w. get m k' = Some w \<Longrightarrow> P k' w" and "P k v"
    and "get (put k v m) k' = Some w"
  shows "P k' w"
  using assms by (auto simp: get_put split: if_splits)

lemma get_put_twice: "get (put k v (put k w m)) = get (put k v m)"
  by (rule ext) (simp add: get_put)

lemma get_put_commute: "k \<noteq> l \<Longrightarrow> get (put k v (put l w m)) = get (put l w (put k v m))"
  by (rule ext) (auto simp: get_put)

end

definition keys_distinct :: "('k \<times> 'v) list \<Rightarrow> bool" where
  "keys_distinct al \<longleftrightarrow> distinct (map fst al)"

lemma keys_distinct_Nil [simp]: "keys_distinct []"
  by (simp add: keys_distinct_def)

interpretation gomap: kv_store map_of AList.update keys_distinct
  by unfold_locales (auto simp: update_conv' keys_distinct_def distinct_update)

text \<open>A map filled from a list, each value under the key it spells.\<close>

definition index_by :: "('v \<Rightarrow> 'k) \<Rightarrow> ('k \<times> 'v) list \<Rightarrow> 'v list \<Rightarrow> ('k \<times> 'v) list" where
  "index_by key m es = foldl (\<lambda>m e. AList.update (key e) e m) m es"

lemma index_by_simps [simp]:
  "index_by key m [] = m"
  "index_by key m (e # es) = index_by key (AList.update (key e) e m) es"
  by (simp_all add: index_by_def)

lemma index_by_distinct: "keys_distinct m \<Longrightarrow> keys_distinct (index_by key m es)"
  by (induction es arbitrary: m) (simp_all add: gomap.put_ok)

lemma index_by_get:
  "map_of (index_by key m es) k = Some e \<Longrightarrow> map_of m k = Some e \<or> e \<in> set es \<and> key e = k"
  by (induction es arbitrary: m) (fastforce simp: gomap.get_put split: if_splits)+

lemma index_by_map: "map_of (index_by key m es) = map_of m ++ map_of (rev (map (\<lambda>e. (key e, e)) es))"
  by (induction es arbitrary: m) (auto simp: update_conv' map_add_def fun_eq_iff split: option.split)

lemma map_of_rev_distinct: "distinct (map fst al) \<Longrightarrow> map_of (rev al) = map_of al"
proof -
  assume d: "distinct (map fst al)"
  then have "distinct (map fst (rev al))" by (simp add: rev_map [symmetric])
  with d show ?thesis by (intro map_of_eqI) auto
qed

lemma index_by_values:
  assumes "keys_distinct al" and "\<And>k e. (k, e) \<in> set al \<Longrightarrow> k = key e"
  shows "map_of (index_by key [] (map snd al)) = map_of al"
proof -
  have "map (\<lambda>e. (key e, e)) (map snd al) = al"
    using assms(2) by (induction al) fastforce+
  then show ?thesis
    using assms(1) by (simp only: index_by_map keys_distinct_def map_of_rev_distinct) simp
qed

section \<open>Components with a file\<close>

text \<open>
  The contract of a component that keeps its state in a file: \<open>reopen\<close> is what a restart makes of
  its file, \<open>view\<close> is what is to survive. Operations keep what makes a restart lossless, so a
  restart after any sequence of them is.
\<close>

locale durable =
  fixes step :: "'e \<Rightarrow> 's \<Rightarrow> 's"
    and good :: "'e \<Rightarrow> bool"
    and sound :: "'s \<Rightarrow> bool"
    and reopen :: "'s \<Rightarrow> 's"
    and view :: "'s \<Rightarrow> 'v"
  assumes step_sound: "sound s \<Longrightarrow> good e \<Longrightarrow> sound (step e s)"
    and step_lossless: "sound s \<Longrightarrow> good e \<Longrightarrow> view (reopen s) = view s
      \<Longrightarrow> view (reopen (step e s)) = view (step e s)"
begin

lemma steps_sound: "sound s \<Longrightarrow> list_all good es \<Longrightarrow> sound (fold step es s)"
  by (induction es arbitrary: s) (simp_all add: step_sound)

lemma restart_lossless:
  "sound s \<Longrightarrow> view (reopen s) = view s \<Longrightarrow> list_all good es
     \<Longrightarrow> view (reopen (fold step es s)) = view (fold step es s)"
  by (induction es arbitrary: s) (simp_all add: step_sound step_lossless)

lemma restart_between:
  assumes "sound s" and "view (reopen s) = view s" and "list_all good es"
    and congruent: "\<And>t u. view t = view u \<Longrightarrow> f t = f u"
  shows "f (reopen (fold step es s)) = f (fold step es s)"
  using restart_lossless [OF assms(1-3)] by (rule congruent)

end

section \<open>Lists\<close>

lemma sublist_filter_take: "set (take n (filter P xs)) \<subseteq> set xs"
  by (auto dest: in_set_takeD)

lemma length_take_le: "length (take n xs) \<le> n"
  by simp

lemma distinct_map_take: "distinct (map f xs) \<Longrightarrow> distinct (map f (take n xs))"
  by (simp flip: take_map)

end
