(* ===== verification/Go_Strings.thy ===== *)
theory Go_Strings
  imports Go_Base "HOL-Library.Char_ord"
begin

text \<open>
  The Go string library as the source uses it. A Go string is a byte sequence: a \<open>string\<close>
  (a list of 8-bit characters). \<open>range s\<close> decodes UTF-8 and yields U+FFFD for an ill-formed
  byte, as \<open>runes\<close> does here; \<open>TrimSpace\<close>, \<open>Itoa\<close>, \<open>Atoi\<close>, \<open>SplitHostPort\<close> and
  \<open>JoinHostPort\<close> follow the standard library's own code, errors included.
\<close>

section \<open>UTF-8\<close>

definition cont_byte :: "nat \<Rightarrow> bool" where
  "cont_byte b \<longleftrightarrow> 128 \<le> b \<and> b < 192"

text \<open>The first rune of a byte sequence and the number of bytes after the first it takes.\<close>

fun decode_rune :: "nat \<Rightarrow> nat list \<Rightarrow> nat \<times> nat" where
  "decode_rune b0 bs =
     (if b0 < 128 then (b0, 0) else
      let bad = (65533, 0);
          b1 = (if 0 < length bs then bs ! 0 else 0);
          b2 = (if 1 < length bs then bs ! 1 else 0);
          b3 = (if 2 < length bs then bs ! 2 else 0)
      in if 194 \<le> b0 \<and> b0 < 224 then
           (if cont_byte b1 then ((b0 - 192) * 64 + (b1 - 128), 1) else bad)
         else if 224 \<le> b0 \<and> b0 < 240 then
           (if cont_byte b1 \<and> cont_byte b2 \<and> (b0 = 224 \<longrightarrow> 160 \<le> b1) \<and> (b0 = 237 \<longrightarrow> b1 < 160)
            then ((b0 - 224) * 4096 + (b1 - 128) * 64 + (b2 - 128), 2) else bad)
         else if 240 \<le> b0 \<and> b0 < 245 then
           (if cont_byte b1 \<and> cont_byte b2 \<and> cont_byte b3
              \<and> (b0 = 240 \<longrightarrow> 144 \<le> b1) \<and> (b0 = 244 \<longrightarrow> b1 < 144)
            then ((b0 - 240) * 262144 + (b1 - 128) * 4096 + (b2 - 128) * 64 + (b3 - 128), 3)
            else bad)
         else bad)"

declare decode_rune.simps [simp del]

function runes_bytes :: "string \<Rightarrow> (nat \<times> string) list" where
  "runes_bytes [] = []"
| "runes_bytes (c # cs) =
     (let (r, n) = decode_rune (of_char c) (map of_char (take 3 cs))
      in (r, c # take n cs) # runes_bytes (drop n cs))"
  by pat_completeness auto
termination
  by (relation "measure length") auto

definition runes :: "string \<Rightarrow> nat list" where
  "runes s = map fst (runes_bytes s)"

definition is_ascii :: "char \<Rightarrow> bool" where
  "is_ascii c \<longleftrightarrow> (of_char c :: nat) < 128"

lemma runes_bytes_concat: "concat (map snd (runes_bytes s)) = s"
  by (induction s rule: runes_bytes.induct) (auto split: prod.splits)

lemma decode_rune_ascii: "b < 128 \<Longrightarrow> decode_rune b bs = (b, 0)"
  by (simp add: decode_rune.simps)

lemma runes_bytes_ascii:
  "list_all is_ascii s \<Longrightarrow> runes_bytes s = map (\<lambda>c. (of_char c, [c])) s"
  by (induction s) (auto simp: is_ascii_def decode_rune_ascii)

section \<open>Prefixes, searching and splitting\<close>

definition HasPrefix :: "string \<Rightarrow> string \<Rightarrow> bool" where
  "HasPrefix s p \<longleftrightarrow> take (length p) s = p"

definition HasSuffix :: "string \<Rightarrow> string \<Rightarrow> bool" where
  "HasSuffix s p \<longleftrightarrow> length p \<le> length s \<and> drop (length s - length p) s = p"

definition TrimPrefix :: "string \<Rightarrow> string \<Rightarrow> string" where
  "TrimPrefix s p = (if HasPrefix s p then drop (length p) s else s)"

definition TrimSuffix :: "string \<Rightarrow> string \<Rightarrow> string" where
  "TrimSuffix s p = (if HasSuffix s p then take (length s - length p) s else s)"

fun Contains :: "string \<Rightarrow> string \<Rightarrow> bool" where
  "Contains [] sub = (sub = [])"
| "Contains (c # cs) sub = (HasPrefix (c # cs) sub \<or> Contains cs sub)"

fun IndexByte :: "string \<Rightarrow> char \<Rightarrow> int" where
  "IndexByte [] c = -1"
| "IndexByte (d # ds) c =
     (if d = c then 0 else let i = IndexByte ds c in if i < 0 then -1 else i + 1)"

definition LastIndexByte :: "string \<Rightarrow> char \<Rightarrow> int" where
  "LastIndexByte s c = (let i = IndexByte (rev s) c in if i < 0 then -1 else int (length s) - 1 - i)"

text \<open>\<open>s[i:]\<close> and \<open>s[:i]\<close> at an index the code has found with one of the searches above.\<close>

abbreviation from_index :: "int \<Rightarrow> string \<Rightarrow> string" where
  "from_index i s \<equiv> drop (nat i) s"

abbreviation upto_index :: "int \<Rightarrow> string \<Rightarrow> string" where
  "upto_index i s \<equiv> take (nat i) s"

text \<open>\<open>strings.SplitN(s, sep, 2)\<close> for a one-byte separator.\<close>

definition SplitN2 :: "string \<Rightarrow> char \<Rightarrow> string list" where
  "SplitN2 s sep =
     (let i = IndexByte s sep
      in if i < 0 then [s] else [upto_index i s, from_index (i + 1) s])"

fun Split :: "string \<Rightarrow> char \<Rightarrow> string list" where
  "Split [] sep = [[]]"
| "Split (c # cs) sep =
     (if c = sep then [] # Split cs sep
      else case Split cs sep of [] \<Rightarrow> [[c]] | p # ps \<Rightarrow> (c # p) # ps)"

fun Join :: "string list \<Rightarrow> string \<Rightarrow> string" where
  "Join [] sep = []"
| "Join [x] sep = x"
| "Join (x # y # ys) sep = x @ sep @ Join (y # ys) sep"

definition ReplaceAllByte :: "string \<Rightarrow> char \<Rightarrow> char \<Rightarrow> string" where
  "ReplaceAllByte s old new = map (\<lambda>c. if c = old then new else c) s"

definition TrimCut :: "string \<Rightarrow> string \<Rightarrow> string" where
  "TrimCut s cutset =
     rev (dropWhile (\<lambda>c. c \<in> set cutset) (rev (dropWhile (\<lambda>c. c \<in> set cutset) s)))"

definition unicode_space :: "nat \<Rightarrow> bool" where
  "unicode_space r \<longleftrightarrow> r \<in> {9, 10, 11, 12, 13, 32, 133, 160, 5760, 8232, 8233, 8239, 8287, 12288}
     \<or> 8192 \<le> r \<and> r \<le> 8202"

definition TrimSpace :: "string \<Rightarrow> string" where
  "TrimSpace s =
     concat (map snd (rev (dropWhile (\<lambda>(r, _). unicode_space r)
       (rev (dropWhile (\<lambda>(r, _). unicode_space r) (runes_bytes s))))))"

definition ToLower :: "string \<Rightarrow> string" where
  "ToLower s = map (\<lambda>c. let n = (of_char c :: nat) in if 65 \<le> n \<and> n \<le> 90 then char_of (n + 32) else c) s"

lemma HasPrefix_append [simp]: "HasPrefix (p @ s) p"
  by (simp add: HasPrefix_def)

lemma HasPrefix_iff: "HasPrefix s p \<longleftrightarrow> (\<exists>r. s = p @ r)"
  unfolding HasPrefix_def by (metis append_eq_conv_conj append_take_drop_id)

lemma HasPrefix_Nil [simp]: "HasPrefix s []"
  by (simp add: HasPrefix_def)

lemma Contains_iff: "Contains s sub \<longleftrightarrow> (\<exists>a b. s = a @ sub @ b)"
proof (induction s)
  case Nil
  then show ?case by auto
next
  case (Cons c cs)
  have "(\<exists>a b. c # cs = a @ sub @ b) \<longleftrightarrow> (\<exists>b. c # cs = sub @ b) \<or> (\<exists>a b. cs = a @ sub @ b)"
    by (metis append_Cons append_Nil neq_Nil_conv list.inject)
  with Cons show ?case by (simp add: HasPrefix_iff)
qed

lemma Contains_append: "Contains t sub \<Longrightarrow> Contains (s @ t) sub"
  by (metis Contains_iff append.assoc)

lemma Contains_infix: "Contains (a @ sub @ b) sub"
  by (auto simp: Contains_iff)

lemma IndexByte_ge: "-1 \<le> IndexByte s c"
  by (induction s) (auto simp: Let_def)

lemma IndexByte_neg: "IndexByte s c < 0 \<longleftrightarrow> c \<notin> set s"
  by (induction s) (auto simp: Let_def)

lemma IndexByte_append_notin:
  "c \<notin> set a \<Longrightarrow> IndexByte (a @ c # b) c = int (length a)"
  by (induction a) (auto simp: Let_def)

lemma IndexByte_absent: "c \<notin> set s \<Longrightarrow> IndexByte s c = -1"
  by (induction s) (auto simp: Let_def)

lemma IndexByte_at: "\<not> IndexByte s c < 0 \<Longrightarrow> nat (IndexByte s c) < length s \<and> s ! nat (IndexByte s c) = c"
proof (induction s)
  case (Cons d s)
  then show ?case by (auto simp: Let_def nat_add_distrib split: if_splits)
qed simp

lemma LastIndexByte_at:
  assumes "\<not> LastIndexByte s c < 0"
  shows "nat (LastIndexByte s c) < length s \<and> s ! nat (LastIndexByte s c) = c"
proof -
  let ?i = "IndexByte (rev s) c"
  have i: "\<not> ?i < 0" using assms by (auto simp: LastIndexByte_def Let_def)
  from IndexByte_at [OF this] have "nat ?i < length s" "rev s ! nat ?i = c" by simp_all
  moreover have "nat (int (length s) - 1 - ?i) = length s - Suc (nat ?i)" using i by simp
  ultimately show ?thesis using i by (simp add: LastIndexByte_def Let_def rev_nth)
qed

lemma LastIndexByte_split:
  assumes "c \<notin> set b"
  shows "LastIndexByte (a @ c # b) c = int (length a)"
  using assms IndexByte_append_notin [of c "rev b" "rev a"]
  by (simp add: LastIndexByte_def)

lemma LastIndexByte_absent: "c \<notin> set s \<Longrightarrow> LastIndexByte s c = -1"
  by (simp add: LastIndexByte_def IndexByte_absent)

lemma Split_nonempty [simp]: "Split s sep \<noteq> []"
  by (induction s) (auto split: list.splits)

lemma Join_Split: "Join (Split s sep) [sep] = s"
proof (induction s)
  case Nil
  then show ?case by simp
next
  case (Cons c cs)
  obtain p ps where sp: "Split cs sep = p # ps"
    by (cases "Split cs sep") auto
  with Cons show ?case by (cases ps) auto
qed

lemma Split_no_sep: "x \<in> set (Split s sep) \<Longrightarrow> sep \<notin> set x"
proof (induction s arbitrary: x)
  case (Cons c cs)
  obtain p ps where sp: "Split cs sep = p # ps"
    by (cases "Split cs sep") auto
  with Cons.IH have "sep \<notin> set p" "\<And>y. y \<in> set ps \<Longrightarrow> sep \<notin> set y" by auto
  with Cons.prems sp show ?case by (auto split: if_splits)
qed simp

text \<open>A string whose runes are single bytes and whose ends are no spaces is kept by \<open>TrimSpace\<close>.\<close>

lemma concat_singletons: "concat (map (\<lambda>c. [c]) s) = s"
  by (induction s) auto

lemma dropWhile_head: "xs \<noteq> [] \<Longrightarrow> \<not> P (hd xs) \<Longrightarrow> dropWhile P xs = xs"
  by (cases xs) auto

lemma TrimSpace_ascii_id:
  assumes "list_all is_ascii s" and "s \<noteq> []"
    and "\<not> unicode_space (of_char (hd s))" and "\<not> unicode_space (of_char (last s))"
  shows "TrimSpace s = s"
proof -
  let ?f = "\<lambda>c. (of_char c :: nat, [c])"
  have "dropWhile (\<lambda>(r, _). unicode_space r) (map ?f s) = map ?f s"
    using assms by (intro dropWhile_head) (auto simp: hd_map)
  moreover have "dropWhile (\<lambda>(r, _). unicode_space r) (rev (map ?f s)) = rev (map ?f s)"
    using assms by (intro dropWhile_head) (auto simp: hd_rev last_map)
  ultimately show ?thesis
    using assms(1) by (simp add: TrimSpace_def runes_bytes_ascii comp_def concat_singletons)
qed

section \<open>Decimal numbers\<close>

definition digit :: "nat \<Rightarrow> char" where
  "digit d = char_of (48 + d)"

definition is_digit :: "char \<Rightarrow> bool" where
  "is_digit c \<longleftrightarrow> 48 \<le> (of_char c :: nat) \<and> (of_char c :: nat) \<le> 57"

definition digit_val :: "char \<Rightarrow> nat" where
  "digit_val c = of_char c - 48"

fun nat_digits :: "nat \<Rightarrow> string" where
  "nat_digits n = (if n < 10 then [digit n] else nat_digits (n div 10) @ [digit (n mod 10)])"

declare nat_digits.simps [simp del]

definition Itoa :: "int \<Rightarrow> string" where
  "Itoa i = (if i < 0 then CHR ''-'' # nat_digits (nat (- i)) else nat_digits (nat i))"

definition digits_val :: "string \<Rightarrow> nat" where
  "digits_val ds = foldl (\<lambda>v c. v * 10 + digit_val c) 0 ds"

text \<open>
  \<open>strconv.Atoi\<close>: the value and whether there was an error. A syntax error gives 0, a
  value out of range gives the nearest end of the range.
\<close>

definition Atoi :: "string \<Rightarrow> int \<times> bool" where
  "Atoi s =
     (let neg = (s \<noteq> [] \<and> hd s = CHR ''-'');
          ds = (if s \<noteq> [] \<and> (hd s = CHR ''-'' \<or> hd s = CHR ''+'') then tl s else s)
      in if ds = [] \<or> \<not> list_all is_digit ds then (0, True)
         else let v = int (digits_val ds)
              in if neg then (if v \<le> 2 ^ 63 then (- v, False) else (- (2 ^ 63), True))
                 else if v < 2 ^ 63 then (v, False) else (2 ^ 63 - 1, True))"

lemma digit_props:
  "d < 10 \<Longrightarrow> is_digit (digit d) \<and> digit_val (digit d) = d \<and> is_ascii (digit d)"
  by (simp add: digit_def is_digit_def digit_val_def is_ascii_def)

lemma nat_digits_digit: "list_all is_digit (nat_digits n)"
proof (induction n rule: nat_digits.induct)
  case (1 n)
  then show ?case
    by (cases "n < 10") (simp_all add: nat_digits.simps [of n] digit_props)
qed

lemma nat_digits_nonempty [simp]: "nat_digits n \<noteq> []"
  by (subst nat_digits.simps) simp

lemma digits_val_nat_digits: "digits_val (nat_digits n) = n"
proof (induction n rule: nat_digits.induct)
  case (1 n)
  then show ?case
    by (cases "n < 10") (simp_all add: nat_digits.simps [of n] digit_props digits_val_def)
qed

lemma digit_not_sign: "is_digit c \<Longrightarrow> c \<noteq> CHR ''-'' \<and> c \<noteq> CHR ''+'' \<and> c \<noteq> CHR '':''"
  by (auto simp: is_digit_def)

lemma is_digit_ascii: "is_digit c \<Longrightarrow> is_ascii c"
  by (simp add: is_digit_def is_ascii_def)

lemma nat_digits_hd: "is_digit (hd (nat_digits n))"
  using nat_digits_digit [of n] by (cases "nat_digits n") auto

lemma Atoi_nat_digits:
  "int n < 2 ^ 63 \<Longrightarrow> Atoi (nat_digits n) = (int n, False)"
  using nat_digits_hd [of n] nat_digits_digit [of n]
  by (auto simp: Atoi_def digits_val_nat_digits dest: digit_not_sign)

lemma Atoi_Itoa:
  assumes "- (2 ^ 63) \<le> i" and "i < 2 ^ 63"
  shows "Atoi (Itoa i) = (i, False)"
proof (cases "i < 0")
  case True
  with assms have "int (nat (- i)) = - i" "- i \<le> 2 ^ 63" by simp_all
  with True show ?thesis
    using nat_digits_digit [of "nat (- i)"] by (simp add: Itoa_def Atoi_def digits_val_nat_digits)
next
  case False
  with assms show ?thesis by (simp add: Itoa_def Atoi_nat_digits)
qed

lemma Itoa_nonneg_digits: "0 \<le> i \<Longrightarrow> list_all is_digit (Itoa i)"
  by (simp add: Itoa_def nat_digits_digit)

lemma Itoa_inj: "0 \<le> i \<Longrightarrow> 0 \<le> j \<Longrightarrow> Itoa i = Itoa j \<Longrightarrow> i = j"
  by (metis Itoa_def digits_val_nat_digits int_nat_eq linorder_not_less)

text \<open>Evaluation of these functions on the binary integers.\<close>

fun int_digits :: "nat \<Rightarrow> int \<Rightarrow> string" where
  "int_digits 0 i = []"
| "int_digits (Suc fuel) i =
     (if i < 10 then [digit (nat i)] else int_digits fuel (i div 10) @ [digit (nat (i mod 10))])"

lemma int_digits_nat: "n < 10 ^ fuel \<Longrightarrow> 0 < fuel \<Longrightarrow> int_digits fuel (int n) = nat_digits n"
proof (induction fuel arbitrary: n)
  case (Suc f)
  show ?case
  proof (cases "n < 10")
    case False
    with Suc.prems have "n div 10 < 10 ^ f" "0 < f"
      by (simp_all add: less_mult_imp_div_less) (cases f, simp_all)
    then have "int_digits f (int (n div 10)) = nat_digits (n div 10)" by (rule Suc.IH)
    moreover have "int n div 10 = int (n div 10)" "nat (int n mod 10) = n mod 10"
      by (simp add: zdiv_int) (metis nat_int of_nat_mod of_nat_numeral)
    moreover have "nat_digits n = nat_digits (n div 10) @ [digit (n mod 10)]"
      using False by (subst nat_digits.simps) simp
    ultimately show ?thesis using False by (simp only: int_digits.simps) simp
  qed (simp add: nat_digits.simps [of n])
qed simp

lemma Itoa_code [code]:
  "Itoa i = (if \<bar>i\<bar> < 10 ^ 20
             then (if i < 0 then CHR ''-'' # int_digits 20 (- i) else int_digits 20 i)
             else if i < 0 then CHR ''-'' # nat_digits (nat (- i)) else nat_digits (nat i))"
proof -
  have "int_digits 20 j = nat_digits (nat j)" if "0 \<le> j" "j < 10 ^ 20" for j
    using that int_digits_nat [of "nat j" 20] by (simp add: nat_less_iff)
  then show ?thesis by (simp add: Itoa_def)
qed

lemma Atoi_code [code]:
  "Atoi s =
     (let neg = (s \<noteq> [] \<and> hd s = CHR ''-'');
          ds = (if s \<noteq> [] \<and> (hd s = CHR ''-'' \<or> hd s = CHR ''+'') then tl s else s)
      in if ds = [] \<or> \<not> list_all is_digit ds then (0, True)
         else let v = foldl (\<lambda>v c. v * 10 + int (digit_val c)) 0 ds
              in if neg then (if v \<le> 2 ^ 63 then (- v, False) else (- (2 ^ 63), True))
                 else if v < 2 ^ 63 then (v, False) else (2 ^ 63 - 1, True))"
proof -
  have "int (foldl (\<lambda>v c. v * 10 + digit_val c) n ds) = foldl (\<lambda>v c. v * 10 + int (digit_val c)) (int n) ds"
    for n ds by (induction ds arbitrary: n) simp_all
  from this [of 0] have "int (digits_val ds) = foldl (\<lambda>v c. v * 10 + int (digit_val c)) 0 ds" for ds
    by (simp add: digits_val_def)
  then show ?thesis by (simp only: Atoi_def)
qed

lemma unicode_space_code [code]:
  "unicode_space r \<longleftrightarrow>
     (let i = int r
      in i \<in> {9, 10, 11, 12, 13, 32, 133, 160, 5760, 8232, 8233, 8239, 8287, 12288}
         \<or> 8192 \<le> i \<and> i \<le> 8202)"
  by (simp add: unicode_space_def Let_def)

text \<open>Digit strings are ASCII and hold no space, so trimming keeps them.\<close>

lemma is_digit_not_space: "is_digit c \<Longrightarrow> \<not> unicode_space (of_char c)"
  by (auto simp: is_digit_def unicode_space_def)

lemma TrimSpace_digits:
  assumes "list_all is_digit s" and "s \<noteq> []"
  shows "TrimSpace s = s"
proof (rule TrimSpace_ascii_id)
  show "list_all is_ascii s"
    using assms(1) by (auto simp: list_all_iff is_digit_ascii)
  show "\<not> unicode_space (of_char (hd s))" "\<not> unicode_space (of_char (last s))"
    using assms by (auto simp: list_all_iff is_digit_not_space)
qed (fact assms(2))

section \<open>Host and port\<close>

text \<open>\<open>net.SplitHostPort\<close>, which fails on unbracketed colons in the host, and \<open>net.JoinHostPort\<close>.\<close>

definition SplitHostPort :: "string \<Rightarrow> (string \<times> string) option" where
  "SplitHostPort hp =
     (let i = LastIndexByte hp (CHR '':'')
      in if i < 0 then None
         else if hd hp = CHR ''['' then
           (let e = IndexByte hp (CHR '']'')
            in if e < 0 then None
               else if e + 1 \<noteq> i then None
               else if CHR ''['' \<in> set (drop 1 hp) then None
               else if CHR '']'' \<in> set (from_index (e + 1) hp) then None
               else Some (drop 1 (upto_index e hp), from_index (i + 1) hp))
         else if CHR '':'' \<in> set (upto_index i hp) then None
         else if CHR ''['' \<in> set hp \<or> CHR '']'' \<in> set hp then None
         else Some (upto_index i hp, from_index (i + 1) hp))"

definition JoinHostPort :: "string \<Rightarrow> string \<Rightarrow> string" where
  "JoinHostPort host port =
     (if CHR '':'' \<in> set host then CHR ''['' # host @ '']:'' @ port else host @ '':'' @ port)"

lemma SplitHostPort_Join:
  assumes h: "CHR ''['' \<notin> set host" "CHR '']'' \<notin> set host"
    and p: "CHR '':'' \<notin> set port" "CHR ''['' \<notin> set port" "CHR '']'' \<notin> set port"
  shows "SplitHostPort (JoinHostPort host port) = Some (host, port)"
proof (cases "CHR '':'' \<in> set host")
  case True
  let ?hp = "CHR ''['' # host @ CHR '']'' # CHR '':'' # port"
  have "LastIndexByte ((CHR ''['' # host @ [CHR '']'']) @ CHR '':'' # port) (CHR '':'')
      = int (length host + 2)"
    using LastIndexByte_split [OF p(1), of "CHR ''['' # host @ [CHR '']'']"] by simp
  then have li: "LastIndexByte ?hp (CHR '':'') = int (length host + 2)" by simp
  have ie: "IndexByte (host @ CHR '']'' # CHR '':'' # port) (CHR '']'') = int (length host)"
    by (rule IndexByte_append_notin) (fact h(2))
  have dr: "drop (3 + length host) ?hp = port"
    by (simp add: numeral_3_eq_3)
  show ?thesis
    using True h p by (simp add: JoinHostPort_def SplitHostPort_def Let_def li ie dr nat_add_distrib)
next
  case False
  have li: "LastIndexByte (host @ CHR '':'' # port) (CHR '':'') = int (length host)"
    by (rule LastIndexByte_split) (fact p(1))
  have "hd (host @ CHR '':'' # port) \<noteq> CHR ''[''"
    using h by (cases host) auto
  with False show ?thesis
    using h p by (simp add: JoinHostPort_def SplitHostPort_def li nat_add_distrib)
qed

end
