(* ===== verification/Float64.thy ===== *)
theory Float64
  imports Go_Base
begin

text \<open>
  The arithmetic of Go's \<open>float64\<close>. A value is the real number it denotes; every operation of
  the code is the real operation followed by \<open>fl\<close>, the rounding of IEEE 754 binary64:
  round to nearest, ties to even, 53 significant bits, gradual underflow below \<open>2^-1022\<close>.
  A literal \<open>0.3\<close> of the source is \<open>fl 0.3\<close>, the nearest double. Infinities and NaN are not
  modelled: no value of the modelled code comes near \<open>2^1024\<close> and no division is by zero.
  Products and sums are rounded separately, as on targets without fused multiply-add.
\<close>

type_synonym float64 = real

section \<open>Rounding to an integer, ties to even\<close>

definition rne :: "real \<Rightarrow> int" where
  "rne x =
     (let n = \<lfloor>x\<rfloor>; d = x - of_int n
      in if d < 1 / 2 then n else if 1 / 2 < d then n + 1 else if even n then n else n + 1)"

lemma rne_of_int [simp]: "rne (of_int m) = m"
  by (simp add: rne_def)

lemma rne_bounds: "\<lfloor>x\<rfloor> \<le> rne x \<and> rne x \<le> \<lfloor>x\<rfloor> + 1"
  by (simp add: rne_def Let_def)

lemma rne_error: "\<bar>of_int (rne x) - x\<bar> \<le> 1 / 2"
proof -
  have "of_int \<lfloor>x\<rfloor> \<le> x" and "x < of_int \<lfloor>x\<rfloor> + 1" by linarith+
  then show ?thesis unfolding rne_def Let_def by (simp add: abs_if) linarith
qed

lemma rne_mono:
  assumes "x \<le> y"
  shows "rne x \<le> rne y"
proof (cases "\<lfloor>x\<rfloor> = \<lfloor>y\<rfloor>")
  case True
  with assms show ?thesis by (auto simp: rne_def Let_def)
next
  case False
  with assms have "\<lfloor>x\<rfloor> + 1 \<le> \<lfloor>y\<rfloor>"
    using floor_mono [OF assms] by linarith
  then show ?thesis using rne_bounds [of x] rne_bounds [of y] by linarith
qed

lemma rne_minus: "rne (- x) = - rne x"
proof (cases "x = of_int \<lfloor>x\<rfloor>")
  case True
  then show ?thesis by (metis of_int_minus rne_of_int)
next
  case False
  then have lt: "of_int \<lfloor>x\<rfloor> < x" using of_int_floor_le [of x] by linarith
  have "\<lfloor>- x\<rfloor> = - \<lfloor>x\<rfloor> - 1"
    using lt by (intro floor_unique; simp; linarith)
  then show ?thesis by (auto simp: rne_def Let_def)
qed

section \<open>Rounding to 53 significant bits\<close>

definition fexp :: "real \<Rightarrow> int" where
  "fexp x = max (\<lfloor>log 2 \<bar>x\<bar>\<rfloor> - 52) (- 1074)"

definition fl :: "real \<Rightarrow> float64" where
  "fl x = (if x = 0 then 0 else of_int (rne (x * 2 powi (- fexp x))) * 2 powi (fexp x))"

lemma fl_0 [simp]: "fl 0 = 0"
  by (simp add: fl_def)

lemma fl_minus: "fl (- x) = - fl x"
  by (simp add: fl_def fexp_def rne_minus)

lemma powi_powr: "(2::real) powi e = 2 powr (of_int e)"
  using powr_real_of_int' [of 2 e] by simp

lemma fl_unit: "x \<noteq> 0 \<Longrightarrow> fl x * 2 powi (- fexp x) = of_int (rne (x * 2 powi (- fexp x)))"
  by (simp add: fl_def power_int_minus)

lemma fl_rep:
  assumes "\<bar>m\<bar> < 2 ^ 53" and "- 1074 \<le> e"
  shows "fl (of_int m * 2 powi e) = of_int m * 2 powi e"
proof (cases "m = 0")
  case False
  let ?x = "of_int m * 2 powi e :: real"
  have x0: "?x \<noteq> 0" using False by simp
  have ax: "\<bar>?x\<bar> = of_int \<bar>m\<bar> * 2 powi e" by (simp add: abs_mult)
  have "\<bar>?x\<bar> < 2 ^ 53 * 2 powi e"
    unfolding ax using assms(1) by (intro mult_strict_right_mono) auto
  also have "\<dots> = 2 powr (of_int (53 + e))"
    by (simp only: powi_powr [symmetric]) (simp add: power_int_add)
  finally have "log 2 \<bar>?x\<bar> < of_int (53 + e)"
    using x0 by (subst log_less_iff) (simp_all only: zero_less_abs_iff, simp)
  then have "\<lfloor>log 2 \<bar>?x\<bar>\<rfloor> < 53 + e" by (simp only: floor_less_iff)
  then have le: "fexp ?x \<le> e" using assms(2) by (simp add: fexp_def)
  then obtain k where k: "e = fexp ?x + int k"
    by (metis zle_iff_zadd)
  have "?x * 2 powi (- fexp ?x) = of_int (m * 2 ^ k)"
    by (subst k) (simp add: power_int_add power_int_minus)
  then have "fl ?x = of_int (m * 2 ^ k) * 2 powi (fexp ?x)"
    using x0 by (simp only: fl_def rne_of_int if_False)
  also have "\<dots> = of_int m * 2 powi (fexp ?x + int k)"
    by (simp add: power_int_add)
  finally show ?thesis using k by simp
qed simp

lemma fl_of_int [simp]: "\<bar>m\<bar> < 2 ^ 53 \<Longrightarrow> fl (of_int m) = of_int m"
  using fl_rep [of m 0] by simp

lemma fl_of_nat [simp]: "n < 2 ^ 53 \<Longrightarrow> fl (of_nat n) = of_nat n"
  using fl_of_int [of "int n"] by simp

lemma fl_1 [simp]: "fl 1 = 1"
  using fl_of_int [of 1] by simp

lemma fl_numeral: "numeral n < (2 ^ 53 :: int) \<Longrightarrow> fl (numeral n) = numeral n"
  using fl_of_int [of "numeral n"] by simp

lemma fl_half [simp]: "fl (1 / 2) = 1 / 2"
  using fl_rep [of 1 "- 1"] by (simp add: power_int_minus)

section \<open>Monotonicity\<close>

lemma fexp_mono: "0 < x \<Longrightarrow> x \<le> y \<Longrightarrow> fexp x \<le> fexp y"
  unfolding fexp_def by (intro max.mono diff_right_mono floor_mono) auto

lemma fl_nonneg: "0 \<le> x \<Longrightarrow> 0 \<le> fl x"
proof -
  assume "0 \<le> x"
  then have "0 \<le> rne (x * 2 powi (- fexp x))"
    using rne_mono [of 0 "x * 2 powi (- fexp x)"] rne_of_int [of 0] by simp
  then show ?thesis by (simp add: fl_def)
qed

text \<open>Below and above a power of two whose grid is coarse enough, rounding stays there.\<close>

lemma fl_below_power:
  assumes "0 < x" and "x < 2 powi k" and "fexp x \<le> k"
  shows "fl x \<le> 2 powi k"
proof -
  obtain i where i: "k = fexp x + int i"
    using assms(3) zle_iff_zadd [of "fexp x" k] by auto
  have "x * 2 powi (- fexp x) \<le> 2 powi k * 2 powi (- fexp x)"
    using assms(2) by (intro mult_right_mono) auto
  also have "\<dots> = of_int (2 ^ i)"
    by (subst i) (simp add: power_int_add power_int_minus)
  finally have "rne (x * 2 powi (- fexp x)) \<le> 2 ^ i"
    using rne_mono rne_of_int by metis
  then have "of_int (rne (x * 2 powi (- fexp x))) * 2 powi (fexp x)
      \<le> of_int (2 ^ i) * (2 powi (fexp x) :: real)"
    by (intro mult_right_mono) (auto simp only: of_int_le_iff, simp)
  also have "\<dots> = 2 powi k" by (subst i) (simp add: power_int_add)
  finally show ?thesis using assms(1) by (simp add: fl_def)
qed

lemma fl_above_power:
  assumes "2 powi k \<le> y" and "fexp y = k - 52"
  shows "2 powi k \<le> fl y"
proof -
  have "0 < (2 powi k :: real)" by simp
  with assms(1) have pos: "0 < y" by linarith
  have "(of_int (2 ^ 52) :: real) = 2 powi k * 2 powi (- fexp y)"
    by (simp add: assms(2) power_int_diff power_int_minus)
  also have "\<dots> \<le> y * 2 powi (- fexp y)"
    using assms(1) by (intro mult_right_mono) auto
  finally have "2 ^ 52 \<le> rne (y * 2 powi (- fexp y))"
    using rne_mono rne_of_int by metis
  then have "of_int (2 ^ 52) * (2 powi (fexp y) :: real)
      \<le> of_int (rne (y * 2 powi (- fexp y))) * 2 powi (fexp y)"
    by (intro mult_right_mono) (auto simp only: of_int_le_iff, simp)
  moreover have "of_int (2 ^ 52) * (2 powi (fexp y) :: real) = 2 powi k"
    by (simp add: assms(2) power_int_diff)
  ultimately have "2 powi k \<le> of_int (rne (y * 2 powi (- fexp y))) * (2 powi (fexp y) :: real)"
    by linarith
  then show ?thesis using pos by (simp add: fl_def)
qed

lemma fl_mono_pos:
  assumes "0 < x" and "x \<le> y"
  shows "fl x \<le> fl y"
proof (cases "fexp x = fexp y")
  case True
  have "rne (x * 2 powi (- fexp y)) \<le> rne (y * 2 powi (- fexp y))"
    using assms by (intro rne_mono mult_right_mono) auto
  with True assms show ?thesis by (simp add: fl_def mult_right_mono)
next
  case False
  define k where "k = \<lfloor>log 2 y\<rfloor>"
  have "fexp x < fexp y" using fexp_mono [OF assms] False by simp
  then have ey: "fexp y = k - 52" and kx: "fexp x < k - 52" and lx: "\<lfloor>log 2 x\<rfloor> < k"
    using assms by (auto simp: fexp_def k_def max_def split: if_splits)
  from lx have "log 2 x < of_int k" by (simp add: floor_less_iff)
  then have "x < 2 powi k" using assms(1) by (simp add: log_less_iff powi_powr)
  moreover have "of_int k \<le> log 2 y" by (simp add: k_def)
  then have "2 powi k \<le> y" using assms by (simp add: le_log_iff powi_powr)
  ultimately show ?thesis
    using kx fl_below_power [OF assms(1), of k] fl_above_power [OF _ ey] by linarith
qed

lemma fl_mono: "x \<le> y \<Longrightarrow> fl x \<le> fl y"
proof -
  assume xy: "x \<le> y"
  consider "0 < x" | "x \<le> 0" "0 \<le> y" | "y < 0" by linarith
  then show ?thesis
  proof cases
    case 1
    then show ?thesis using xy by (rule fl_mono_pos)
  next
    case 2
    then have "fl x \<le> 0" using fl_nonneg [of "- x"] by (simp add: fl_minus)
    also have "0 \<le> fl y" using 2 by (simp add: fl_nonneg)
    finally show ?thesis .
  next
    case 3
    then have "fl (- y) \<le> fl (- x)" using xy by (intro fl_mono_pos) auto
    then show ?thesis by (simp add: fl_minus)
  qed
qed

lemma fl_le_1: "x \<le> 1 \<Longrightarrow> fl x \<le> 1"
  using fl_mono [of x 1] by simp

lemma fl_unit_interval: "0 \<le> x \<Longrightarrow> x \<le> 1 \<Longrightarrow> 0 \<le> fl x \<and> fl x \<le> 1"
  by (simp add: fl_nonneg fl_le_1)

text \<open>A rounded value is representable, so rounding it again changes nothing.\<close>

lemma fl_scaled_bound: "x \<noteq> 0 \<Longrightarrow> \<bar>x * 2 powi (- fexp x)\<bar> \<le> 2 ^ 53"
proof -
  assume x: "x \<noteq> 0"
  have "log 2 \<bar>x\<bar> < of_int (fexp x + 53)"
    by (simp add: fexp_def) linarith
  then have "\<bar>x\<bar> < 2 powr (of_int (fexp x + 53))"
    using x by (subst (asm) log_less_iff) simp_all
  also have "\<dots> = 2 powi (fexp x + 53)" by (simp only: powi_powr)
  also have "\<dots> = 2 ^ 53 * 2 powi (fexp x)" by (simp add: power_int_add)
  finally have "\<bar>x\<bar> * 2 powi (- fexp x) \<le> 2 ^ 53 * 2 powi (fexp x) * 2 powi (- fexp x)"
    by (intro mult_right_mono) simp_all
  also have "\<dots> = 2 ^ 53" by (simp add: power_int_minus)
  finally show ?thesis by (simp add: abs_mult)
qed

lemma fl_idem [simp]: "fl (fl x) = fl x"
proof (cases "x = 0")
  case False
  let ?m = "rne (x * 2 powi (- fexp x))"
  have e: "- 1074 \<le> fexp x" by (simp add: fexp_def)
  have fx: "fl x = of_int ?m * 2 powi (fexp x)" using False by (simp add: fl_def)
  have b: "- (2 ^ 53) \<le> x * 2 powi (- fexp x)" "x * 2 powi (- fexp x) \<le> 2 ^ 53"
    using fl_scaled_bound [OF False] by linarith+
  have "rne (of_int (- (2 ^ 53))) \<le> ?m" using b(1) by (intro rne_mono) simp
  moreover have "?m \<le> rne (of_int (2 ^ 53))" using b(2) by (intro rne_mono) simp
  ultimately have m: "- (2 ^ 53) \<le> ?m" "?m \<le> 2 ^ 53" by (simp_all only: rne_of_int)
  consider "\<bar>?m\<bar> < 2 ^ 53" | "?m = 2 ^ 53" | "?m = - (2 ^ 53)" using m by linarith
  then show ?thesis
  proof cases
    case 1
    then show ?thesis unfolding fx using e by (rule fl_rep)
  next
    case 2
    have "fl x = of_int (2 ^ 52) * 2 powi (fexp x + 1)" by (simp add: fx 2 power_int_add)
    moreover have "fl (of_int (2 ^ 52) * 2 powi (fexp x + 1)) = of_int (2 ^ 52) * 2 powi (fexp x + 1)"
      by (rule fl_rep) (use e in simp_all)
    ultimately show ?thesis by simp
  next
    case 3
    have "fl x = of_int (- (2 ^ 52)) * 2 powi (fexp x + 1)" by (simp add: fx 3 power_int_add)
    moreover have "fl (of_int (- (2 ^ 52)) * 2 powi (fexp x + 1)) = of_int (- (2 ^ 52)) * 2 powi (fexp x + 1)"
      by (rule fl_rep) (use e in simp_all)
    ultimately show ?thesis by simp
  qed
qed simp

lemma fl_ge_1: "1 \<le> x \<Longrightarrow> 1 \<le> fl x"
  using fl_mono [of 1 x] by simp

section \<open>Computing literals\<close>

text \<open>
  The double nearest to a positive real: with \<open>2^(e+52) \<le> x < 2^(e+53)\<close> its significand is
  \<open>x / 2^e\<close> rounded.
\<close>

lemma fexp_eq:
  assumes "2 powi (e + 52) \<le> x" and "x < 2 powi (e + 53)" and "- 1074 \<le> e"
  shows "fexp x = e"
proof -
  have x: "0 < x" using assms(1) zero_less_power_int [of "2::real" "e + 52"] by linarith
  have "of_int (e + 52) \<le> log 2 x"
    using assms(1) x by (simp only: le_log_iff powi_powr)
  moreover have "log 2 x < of_int (e + 52) + 1"
  proof -
    have "(2::real) powi (e + 53) = 2 powr (of_int (e + 52) + 1)"
      by (simp add: powi_powr add.commute)
    with assms(2) x show ?thesis by (simp add: log_less_iff)
  qed
  ultimately have "\<lfloor>log 2 x\<rfloor> = e + 52" by (intro floor_unique) auto
  then show ?thesis using x assms(3) by (simp add: fexp_def)
qed

lemma fl_eqI:
  assumes "2 powi (e + 52) \<le> x" and "x < 2 powi (e + 53)" and "- 1074 \<le> e"
    and "\<bar>of_int m - x * 2 powi (- e)\<bar> < 1 / 2"
  shows "fl x = of_int m * 2 powi e"
proof -
  let ?y = "x * 2 powi (- e)"
  have "\<bar>of_int (rne ?y) - of_int m\<bar> < (1::real)"
    using rne_error [of ?y] assms(4) by linarith
  then have "rne ?y = m" by linarith
  moreover have "x \<noteq> 0"
    using assms(1) zero_less_power_int [of "2::real" "e + 52"] by linarith
  ultimately show ?thesis using fexp_eq [OF assms(1-3)] by (simp add: fl_def)
qed

text \<open>
  The literals of the source, as the dyadic fractions they denote. The left sides are the
  lowest terms the simplifier gives a decimal literal.
\<close>

lemma fl_0_1: "fl (1 / 10) = 3602879701896397 / 36028797018963968"
  using fl_eqI [of "- 56" "1 / 10" 7205759403792794]
  by (simp add: power_int_minus divide_simps)

lemma fl_0_15: "fl (3 / 20) = 5404319552844595 / 36028797018963968"
  using fl_eqI [of "- 55" "3 / 20" 5404319552844595]
  by (simp add: power_int_minus divide_simps)

lemma fl_0_2: "fl (1 / 5) = 3602879701896397 / 18014398509481984"
  using fl_eqI [of "- 55" "1 / 5" 7205759403792794]
  by (simp add: power_int_minus divide_simps)

lemma fl_0_3: "fl (3 / 10) = 5404319552844595 / 18014398509481984"
  using fl_eqI [of "- 54" "3 / 10" 5404319552844595]
  by (simp add: power_int_minus divide_simps)

lemma fl_0_35: "fl (7 / 20) = 3152519739159347 / 9007199254740992"
  using fl_eqI [of "- 54" "7 / 20" 6305039478318694]
  by (simp add: power_int_minus divide_simps)

lemma fl_0_4: "fl (2 / 5) = 3602879701896397 / 9007199254740992"
  using fl_eqI [of "- 54" "2 / 5" 7205759403792794]
  by (simp add: power_int_minus divide_simps)

lemma fl_0_45: "fl (9 / 20) = 8106479329266893 / 18014398509481984"
  using fl_eqI [of "- 54" "9 / 20" 8106479329266893]
  by (simp add: power_int_minus divide_simps)

lemma fl_0_55: "fl (11 / 20) = 2476979795053773 / 4503599627370496"
  using fl_eqI [of "- 53" "11 / 20" 4953959590107546]
  by (simp add: power_int_minus divide_simps)

lemma fl_0_6: "fl (3 / 5) = 5404319552844595 / 9007199254740992"
  using fl_eqI [of "- 53" "3 / 5" 5404319552844595]
  by (simp add: power_int_minus divide_simps)

lemma fl_0_65: "fl (13 / 20) = 5854679515581645 / 9007199254740992"
  using fl_eqI [of "- 53" "13 / 20" 5854679515581645]
  by (simp add: power_int_minus divide_simps)

lemma fl_0_7: "fl (7 / 10) = 3152519739159347 / 4503599627370496"
  using fl_eqI [of "- 53" "7 / 10" 6305039478318694]
  by (simp add: power_int_minus divide_simps)

lemma fl_0_8: "fl (4 / 5) = 3602879701896397 / 4503599627370496"
  using fl_eqI [of "- 53" "4 / 5" 7205759403792794]
  by (simp add: power_int_minus divide_simps)

lemma fl_0_85: "fl (17 / 20) = 7656119366529843 / 9007199254740992"
  using fl_eqI [of "- 53" "17 / 20" 7656119366529843]
  by (simp add: power_int_minus divide_simps)

lemma fl_0_88: "fl (22 / 25) = 7926335344172073 / 9007199254740992"
  using fl_eqI [of "- 53" "22 / 25" 7926335344172073]
  by (simp add: power_int_minus divide_simps)

lemma fl_0_9: "fl (9 / 10) = 8106479329266893 / 9007199254740992"
  using fl_eqI [of "- 53" "9 / 10" 8106479329266893]
  by (simp add: power_int_minus divide_simps)

lemma fl_0_92: "fl (23 / 25) = 8286623314361713 / 9007199254740992"
  using fl_eqI [of "- 53" "23 / 25" 8286623314361713]
  by (simp add: power_int_minus divide_simps)

lemma fl_0_95: "fl (19 / 20) = 4278419646001971 / 4503599627370496"
  using fl_eqI [of "- 53" "19 / 20" 8556839292003942]
  by (simp add: power_int_minus divide_simps)

lemmas fl_lits =
  fl_0_1 fl_0_15 fl_0_2 fl_0_3 fl_0_35 fl_0_4
  fl_0_45 fl_0_55 fl_0_6 fl_0_65 fl_0_7 fl_0_8
  fl_0_85 fl_0_88 fl_0_9 fl_0_92 fl_0_95

lemma fl_error: "\<bar>fl x - x\<bar> \<le> 2 powi (fexp x) / 2"
proof (cases "x = 0")
  case False
  have "fl x - x = (of_int (rne (x * 2 powi (- fexp x))) - x * 2 powi (- fexp x)) * 2 powi (fexp x)"
    using False by (simp add: fl_def left_diff_distrib power_int_minus)
  then have "\<bar>fl x - x\<bar> = \<bar>of_int (rne (x * 2 powi (- fexp x))) - x * 2 powi (- fexp x)\<bar> * 2 powi (fexp x)"
    by (simp add: abs_mult)
  also have "\<dots> \<le> 1 / 2 * 2 powi (fexp x)"
    by (intro mult_right_mono rne_error) auto
  finally show ?thesis by simp
qed simp

end
