(* ===== verification/Config_Types.thy ===== *)
theory Config_Types
  imports Go_Strings Float64
begin

text \<open>
  The data of \<open>daemon/internal/config/types.go\<close>: tunnel configurations of the three
  protocols, probe targets and the daemon's settings with their defaults. A Go pointer to a
  struct is an option, the embedded \<open>WireGuardConfig\<close> of \<open>AmneziaWGConfig\<close> is record
  extension, a string-typed enumeration is a datatype with one constructor for any other text.
\<close>

datatype Protocol =
  ProtocolWireGuard | ProtocolAmneziaWG | ProtocolVLESS | OtherProtocol string

fun Protocol_text :: "Protocol \<Rightarrow> string" where
  "Protocol_text ProtocolWireGuard = ''wg''"
| "Protocol_text ProtocolAmneziaWG = ''awg''"
| "Protocol_text ProtocolVLESS = ''vless''"
| "Protocol_text (OtherProtocol s) = s"

record DPISettings =
  AutoTune :: bool

record WireGuardConfig =
  PrivateKey :: string
  PublicKey :: string
  PresharedKey :: string
  Endpoint :: string
  AllowedIPs :: "string list"
  PersistentKeepalive :: int
  DNS :: "string list"

record AmneziaWGConfig = WireGuardConfig +
  JunkPacketCount :: int
  JunkPacketMinSize :: int
  JunkPacketMaxSize :: int
  InitPacketJunkSize :: int
  ResponsePacketJunkSize :: int
  InitPacketMagicHeader :: int
  ResponsePacketMagicHeader :: int
  UnderLoadPacketMagicHeader :: int
  TransportPacketMagicHeader :: int

record VLESSConfig =
  UUID :: string
  Address :: string
  Port :: int
  Security :: string
  Flow :: string
  Transport :: string
  Fingerprint :: string
  SNI :: string
  RealityPublicKey :: string
  RealityShortID :: string
  ECH :: bool
  ECHConfig :: string
  DomainFronting :: bool
  FrontingHost :: string
  ClientHelloSplit :: bool
  ClientHelloBytes :: int
  FakeHelloTTL :: int
  ShadowTLS :: bool
  ShadowTLSServer :: string
  Cloak :: bool
  CloakServer :: string
  TransportPath :: string
  LocalPort :: int

record TunnelConfig =
  ID :: string
  Name :: string
  Protocol :: Protocol
  Enabled :: bool
  InterfaceName :: string
  RoutingTableID :: int
  MTU :: int
  WireGuard :: "WireGuardConfig option"
  AmneziaWG :: "AmneziaWGConfig option"
  VLESS :: "VLESSConfig option"
  DPI :: "DPISettings option"
  IsVariant :: bool
  BaseConfigID :: string

datatype ProbeType = ProbeICMP | ProbeTCP | ProbeHTTP | ProbeHTTPS | OtherProbe string

definition ProbeType_of :: "string \<Rightarrow> ProbeType" where
  "ProbeType_of s =
     (if s = ''icmp'' then ProbeICMP else if s = ''tcp'' then ProbeTCP
      else if s = ''http'' then ProbeHTTP else if s = ''https'' then ProbeHTTPS
      else OtherProbe s)"

fun ProbeType_text :: "ProbeType \<Rightarrow> string" where
  "ProbeType_text ProbeICMP = ''icmp''"
| "ProbeType_text ProbeTCP = ''tcp''"
| "ProbeType_text ProbeHTTP = ''http''"
| "ProbeType_text ProbeHTTPS = ''https''"
| "ProbeType_text (OtherProbe s) = s"

record ProbeTarget =
  pt_Host :: string
  pt_Port :: int
  pt_Type :: ProbeType
  pt_Timeout :: duration

record AIAdvisorConfig =
  ai_Enabled :: bool
  ai_Provider :: string
  ai_Endpoint :: string
  ai_APIKeyFile :: string
  ai_Timeout :: duration
  ai_MaxCallsPerHour :: int
  ai_MinConfidence :: float64
  ai_PresetTTL :: duration

record DaemonConfig =
  ProbeIntervalHealthy :: duration
  ProbeIntervalDegraded :: duration
  DegradedThreshold :: int
  ProbingThreshold :: int
  ProbeTimeout :: duration
  SwitchVerifyTimeout :: duration
  ParallelProbeTimeout :: duration
  MaxSwitchAttempts :: int
  PostSwitchCooldown :: duration
  ProbeTargets :: "ProbeTarget list"
  ProbeRotateTargets :: bool
  ProbeTargetPool :: int
  ProbeUseDoH :: bool
  ProbeDoHEndpoint :: string
  VPNDomains :: "string list"
  VPNIPs :: "string list"
  VPNDomainFiles :: "string list"
  ConfigDir :: string
  StateDir :: string
  SingBoxBin :: string
  WGBin :: string
  AWGBin :: string
  LogFile :: string
  DPIAutoTune :: bool
  DPIMaxVariants :: int
  DPIProfile :: string
  AIAdvisor :: AIAdvisorConfig

section \<open>Zero values and defaults\<close>

definition zero_wg :: WireGuardConfig where
  "zero_wg = \<lparr>PrivateKey = [], PublicKey = [], PresharedKey = [], Endpoint = [],
     AllowedIPs = [], PersistentKeepalive = 0, DNS = []\<rparr>"

definition zero_awg :: AmneziaWGConfig where
  "zero_awg = \<lparr>PrivateKey = [], PublicKey = [], PresharedKey = [], Endpoint = [],
     AllowedIPs = [], PersistentKeepalive = 0, DNS = [],
     JunkPacketCount = 0, JunkPacketMinSize = 0, JunkPacketMaxSize = 0,
     InitPacketJunkSize = 0, ResponsePacketJunkSize = 0, InitPacketMagicHeader = 0,
     ResponsePacketMagicHeader = 0, UnderLoadPacketMagicHeader = 0,
     TransportPacketMagicHeader = 0\<rparr>"

definition zero_vless :: VLESSConfig where
  "zero_vless = \<lparr>UUID = [], Address = [], Port = 0, Security = [], Flow = [], Transport = [],
     Fingerprint = [], SNI = [], RealityPublicKey = [], RealityShortID = [], ECH = False,
     ECHConfig = [], DomainFronting = False, FrontingHost = [], ClientHelloSplit = False,
     ClientHelloBytes = 0, FakeHelloTTL = 0, ShadowTLS = False, ShadowTLSServer = [],
     Cloak = False, CloakServer = [], TransportPath = [], LocalPort = 0\<rparr>"

definition zero_tc :: TunnelConfig where
  "zero_tc = \<lparr>ID = [], Name = [], Protocol = OtherProtocol [], Enabled = False,
     InterfaceName = [], RoutingTableID = 0, MTU = 0, WireGuard = None, AmneziaWG = None,
     VLESS = None, DPI = None, IsVariant = False, BaseConfigID = []\<rparr>"

definition zero_pt :: ProbeTarget where
  "zero_pt = \<lparr>pt_Host = [], pt_Port = 0, pt_Type = OtherProbe [], pt_Timeout = 0\<rparr>"

lemmas zero_defs = zero_wg_def zero_awg_def zero_vless_def zero_tc_def zero_pt_def

definition DefaultDaemonConfig :: DaemonConfig where
  "DefaultDaemonConfig = \<lparr>
     ProbeIntervalHealthy = 30 * second,
     ProbeIntervalDegraded = 10 * second,
     DegradedThreshold = 3,
     ProbingThreshold = 3,
     ProbeTimeout = 5 * second,
     SwitchVerifyTimeout = 60 * second,
     ParallelProbeTimeout = 15 * second,
     MaxSwitchAttempts = 3,
     PostSwitchCooldown = 90 * second,
     ProbeTargets =
       [\<lparr>pt_Host = ''1.1.1.1'', pt_Port = 0, pt_Type = ProbeICMP, pt_Timeout = 0\<rparr>,
        \<lparr>pt_Host = ''api.telegram.org'', pt_Port = 443, pt_Type = ProbeHTTPS, pt_Timeout = 0\<rparr>,
        \<lparr>pt_Host = ''connectivitycheck.gstatic.com'', pt_Port = 80, pt_Type = ProbeHTTP,
         pt_Timeout = 0\<rparr>],
     ProbeRotateTargets = True,
     ProbeTargetPool = 3,
     ProbeUseDoH = True,
     ProbeDoHEndpoint = ''https://1.1.1.1/dns-query'',
     VPNDomains = [], VPNIPs = [], VPNDomainFiles = [],
     ConfigDir = ''/etc/vpn-watchdog/configs'',
     StateDir = ''/tmp/vpn-watchdog'',
     SingBoxBin = ''/usr/bin/sing-box'',
     WGBin = ''/usr/bin/wg'',
     AWGBin = ''/usr/bin/awg'',
     LogFile = [],
     DPIAutoTune = True,
     DPIMaxVariants = 8,
     DPIProfile = ''balanced'',
     AIAdvisor = \<lparr>ai_Enabled = False, ai_Provider = ''disabled'', ai_Endpoint = [],
       ai_APIKeyFile = [], ai_Timeout = 8 * second, ai_MaxCallsPerHour = 12,
       ai_MinConfidence = fl 0.65, ai_PresetTTL = 12 * hour\<rparr>\<rparr>"

end
