(* ===== verification/Go_Files.thy ===== *)
theory Go_Files
  imports Go_Strings
begin

text \<open>
  Paths as \<open>path/filepath\<close> joins and cleans them, and the lines of a file as \<open>bufio.Scanner\<close>
  yields them, with the lemmas on splitting and joining they rest on.
\<close>

section \<open>Splitting and joining\<close>

lemma Split_not_Nil [simp]: "Split s c \<noteq> []"
  by (cases s) (auto split: list.splits)

lemma Split_notin:
  "c \<notin> set p \<Longrightarrow> Split p c = [p]"
  "c \<notin> set p \<Longrightarrow> Split (p @ c # s) c = p # Split s c"
  by (induction p) auto

lemma Split_Join:
  "ps \<noteq> [] \<Longrightarrow> list_all (\<lambda>p. c \<notin> set p) ps \<Longrightarrow> Split (Join ps [c]) c = ps"
proof (induction ps)
  case (Cons p ps)
  then show ?case by (cases ps) (simp_all add: Split_notin)
qed simp

lemma Join_set: "set (Join ps sep) \<subseteq> \<Union> (set ` set ps) \<union> set sep"
  by (induction ps sep rule: Join.induct) auto

lemma Join_ends:
  "ps \<noteq> [] \<Longrightarrow> list_all (\<lambda>p. p \<noteq> []) ps
     \<Longrightarrow> hd (Join ps sep) = hd (hd ps) \<and> last (Join ps sep) = last (last ps) \<and> Join ps sep \<noteq> []"
  by (induction ps sep rule: Join.induct) auto

lemma Split_last: "c \<notin> set b \<Longrightarrow> Split (a @ c # b) c = Split a c @ [b]"
proof (induction a)
  case Nil
  then have "Split b c = [b]" by (induction b) auto
  then show ?case by simp
next
  case (Cons x a)
  then show ?case by (cases "Split a c") auto
qed

lemma Join_snoc: "Join (xs @ [y]) sep = (if xs = [] then y else Join xs sep @ sep @ y)"
  by (induction xs sep rule: Join.induct) auto

section \<open>Paths\<close>

definition clean_step :: "bool \<Rightarrow> string list \<Rightarrow> string \<Rightarrow> string list" where
  "clean_step rooted st e =
     (if e = [] \<or> e = ''.'' then st
      else if e = ''..'' then
        (if st \<noteq> [] \<and> last st \<noteq> ''..'' then butlast st
         else if rooted then st else st @ [''..''])
      else st @ [e])"

definition Clean :: "string \<Rightarrow> string" where
  "Clean path =
     (let rooted = HasPrefix path ''/'';
          st = foldl (clean_step rooted) [] (Split path (CHR ''/''))
      in if rooted then ''/'' @ Join st ''/'' else if st = [] then ''.'' else Join st ''/'')"

definition path_join :: "string \<Rightarrow> string \<Rightarrow> string" where
  "path_join dir name = (if dir = [] then Clean name else Clean (dir @ ''/'' @ name))"

definition path_base :: "string \<Rightarrow> string" where
  "path_base p = (let i = LastIndexByte p (CHR ''/'') in from_index (i + 1) p)"

definition path_dir :: "string \<Rightarrow> string" where
  "path_dir p = (let i = LastIndexByte p (CHR ''/'') in upto_index (i + 1) p)"

definition dir_prefix :: "string \<Rightarrow> string" where
  "dir_prefix dir =
     (if dir = [] then []
      else let st = foldl (clean_step (HasPrefix dir ''/'')) [] (Split dir (CHR ''/''))
           in (if HasPrefix dir ''/'' then ''/'' else [])
              @ (if st = [] then [] else Join st ''/'' @ ''/''))"

definition plain_name :: "string \<Rightarrow> bool" where
  "plain_name n \<longleftrightarrow> n \<noteq> [] \<and> n \<noteq> ''.'' \<and> n \<noteq> ''..'' \<and> CHR ''/'' \<notin> set n"

lemma HasPrefix_slash: "HasPrefix s ''/'' \<longleftrightarrow> s \<noteq> [] \<and> hd s = CHR ''/''"
  by (cases s) (auto simp: HasPrefix_def)

lemma path_join_name:
  assumes "plain_name n"
  shows "path_join dir n = dir_prefix dir @ n"
proof (cases "dir = []")
  case True
  have "Split n (CHR ''/'') = [n]"
    using assms Split_last [of "CHR ''/''" n "[]"] by (simp add: plain_name_def)
  moreover have "\<not> HasPrefix n ''/''"
    using assms by (cases n) (auto simp: plain_name_def HasPrefix_slash)
  ultimately show ?thesis
    using True assms by (simp add: path_join_def dir_prefix_def Clean_def clean_step_def plain_name_def)
next
  case False
  let ?r = "HasPrefix dir ''/''"
  let ?st = "foldl (clean_step ?r) [] (Split dir (CHR ''/''))"
  have r: "HasPrefix (dir @ ''/'' @ n) ''/'' = ?r" using False by (simp add: HasPrefix_slash)
  have sp: "Split (dir @ ''/'' @ n) (CHR ''/'') = Split dir (CHR ''/'') @ [n]"
    using assms Split_last [of "CHR ''/''" n dir] by (simp add: plain_name_def)
  have "clean_step ?r ?st n = ?st @ [n]"
    using assms by (simp add: clean_step_def plain_name_def)
  then have f: "foldl (clean_step ?r) [] (Split (dir @ ''/'' @ n) (CHR ''/'')) = ?st @ [n]"
    by (simp only: sp foldl_append foldl.simps)
  have "path_join dir n = Clean (dir @ ''/'' @ n)" using False by (simp add: path_join_def)
  also have "\<dots> = (if ?r then ''/'' @ Join (?st @ [n]) ''/'' else Join (?st @ [n]) ''/'')"
    by (simp only: Clean_def Let_def r f) simp
  also have "\<dots> = dir_prefix dir @ n" using False by (simp add: dir_prefix_def Join_snoc)
  finally show ?thesis .
qed

lemma dir_prefix_slash: "dir_prefix dir = [] \<or> (\<exists>p. dir_prefix dir = p @ ''/'')"
  by (simp add: dir_prefix_def Let_def)

lemma path_dir_name:
  assumes "plain_name n"
  shows "path_dir (dir_prefix dir @ n) = dir_prefix dir"
proof -
  have no: "CHR ''/'' \<notin> set n" using assms by (simp add: plain_name_def)
  show ?thesis
  proof (cases "dir_prefix dir = []")
    case True
    with no show ?thesis by (simp add: path_dir_def LastIndexByte_absent)
  next
    case False
    then obtain p where p: "dir_prefix dir = p @ ''/''" using dir_prefix_slash by blast
    show ?thesis
      using LastIndexByte_split [OF no, of p] by (simp add: path_dir_def p nat_add_distrib)
  qed
qed

section \<open>Lines\<close>

definition drop_cr :: "string \<Rightarrow> string" where
  "drop_cr l = (if l \<noteq> [] \<and> last l = CHR 0x0D then butlast l else l)"

text \<open>The lines a \<open>bufio.Scanner\<close> yields: it stops before a line that fills its 64 KiB buffer.\<close>

definition scan_lines :: "string \<Rightarrow> string list" where
  "scan_lines s =
     (let ls = Split s (CHR 0x0A);
          ls = (if last ls = [] then butlast ls else ls)
      in map drop_cr (takeWhile (\<lambda>l. int (length l) < 65536) ls))"

end
