(* ===== verification/Config_Store.thy ===== *)
theory Config_Store
  imports Config_Types Go_Files "HOL-Library.List_Lexorder"
begin

text \<open>
  \<open>daemon/internal/config/store.go\<close>: the directory of tunnel configurations and the settings
  read from UCI. The file system is an association list from cleaned paths to JSON files;
  the \<open>uci\<close> command is the record \<open>uci_env\<close> of its outputs. \<open>json.MarshalIndent\<close> of a tunnel
  drops the two fields tagged \<open>json:"-"\<close>, which is all that the round trip loses for UTF-8
  texts.
\<close>

section \<open>The directory of tunnels\<close>

type_synonym tunnel_fs = "(string \<times> TunnelConfig json_file) list"

text \<open>
  \<open>filepath.Glob\<close> of \<open>*.json\<close> in a directory whose name has no pattern characters: the paths
  of that directory with the suffix, sorted.
\<close>

definition glob_json :: "string \<Rightarrow> tunnel_fs \<Rightarrow> string list" where
  "glob_json dir fs =
     (let pat = path_join dir ''*.json''
      in sort (filter (\<lambda>p. path_dir p = path_dir pat \<and> HasSuffix p ''.json'') (map fst fs)))"

text \<open>What \<open>encoding/json\<close> writes and reads of a tunnel: not the two fields tagged \<open>json:"-"\<close>.\<close>

definition json_fields :: "TunnelConfig \<Rightarrow> TunnelConfig" where
  "json_fields tc = tc\<lparr>IsVariant := False, BaseConfigID := []\<rparr>"

definition validate :: "TunnelConfig \<Rightarrow> unit res" where
  "validate tc =
     (if ID tc = [] then Inl ''missing id''
      else case Protocol tc of
        ProtocolWireGuard \<Rightarrow> if WireGuard tc = None then Inl ''wg config missing'' else Inr ()
      | ProtocolAmneziaWG \<Rightarrow> if AmneziaWG tc = None then Inl ''awg config missing'' else Inr ()
      | ProtocolVLESS \<Rightarrow> if VLESS tc = None then Inl ''vless config missing'' else Inr ()
      | OtherProtocol p \<Rightarrow> Inl (''unknown protocol: '' @ p))"

definition loadFile :: "tunnel_fs \<Rightarrow> string \<Rightarrow> TunnelConfig res" where
  "loadFile fs path =
     (case map_of fs path of
        None \<Rightarrow> Inl ''no such file''
      | Some NoFile \<Rightarrow> Inl ''no such file''
      | Some Garbage \<Rightarrow> Inl ''invalid json''
      | Some (JSON tc) \<Rightarrow>
          (let tc = json_fields tc;
               tc = (if ID tc = [] then tc\<lparr>ID := TrimSuffix (path_base path) ''.json''\<rparr> else tc)
           in case validate tc of Inl e \<Rightarrow> Inl e | Inr _ \<Rightarrow> Inr tc))"

definition LoadAll :: "DaemonConfig \<Rightarrow> tunnel_fs \<Rightarrow> TunnelConfig list" where
  "LoadAll cfg fs =
     concat (map (\<lambda>path. case loadFile fs path of
                           Inl _ \<Rightarrow> []
                         | Inr tc \<Rightarrow> if Enabled tc then [tc] else [])
       (glob_json (ConfigDir cfg) fs))"

definition Save :: "DaemonConfig \<Rightarrow> bool \<Rightarrow> TunnelConfig \<Rightarrow> tunnel_fs \<Rightarrow> unit res \<times> tunnel_fs" where
  "Save cfg writable tc fs =
     (if \<not> writable then (Inl ''read-only file system'', fs)
      else (Inr (), AList.update (path_join (ConfigDir cfg) (ID tc @ ''.json''))
                      (JSON (json_fields tc)) fs))"

definition Delete :: "DaemonConfig \<Rightarrow> string \<Rightarrow> tunnel_fs \<Rightarrow> unit res \<times> tunnel_fs" where
  "Delete cfg cid fs =
     (let path = path_join (ConfigDir cfg) (cid @ ''.json'')
      in if map_of fs path = None then (Inl ''no such file'', fs)
         else (Inr (), AList.delete path fs))"

section \<open>UCI values\<close>

record uci_env =
  uci_get :: "string \<Rightarrow> string option"
  uci_show :: "string \<Rightarrow> string option"
  ParseFloat :: "string \<Rightarrow> float64 option"

abbreviation global :: "string \<Rightarrow> string" where
  "global key \<equiv> ''vpn-watchdog.global.'' @ key"

definition get_value :: "uci_env \<Rightarrow> string \<Rightarrow> string" where
  "get_value uci key = (case uci_get uci key of None \<Rightarrow> [] | Some out \<Rightarrow> TrimSpace out)"

definition getDur :: "uci_env \<Rightarrow> string \<Rightarrow> duration \<Rightarrow> duration" where
  "getDur uci key def =
     (let v = get_value uci key
      in if v = [] then def
         else let (n, err) = Atoi v in if err then def else wrap64 (n * second))"

definition getInt :: "uci_env \<Rightarrow> string \<Rightarrow> int \<Rightarrow> int" where
  "getInt uci key def =
     (let v = get_value uci key
      in if v = [] then def else let (n, err) = Atoi v in if err then def else n)"

definition getFloat :: "uci_env \<Rightarrow> string \<Rightarrow> float64 \<Rightarrow> float64" where
  "getFloat uci key def =
     (let v = get_value uci key
      in if v = [] then def else case ParseFloat uci v of None \<Rightarrow> def | Some f \<Rightarrow> f)"

text \<open>\<open>if v := get(key); v != "" { field = v }\<close> and the two forms for booleans.\<close>

definition getText :: "uci_env \<Rightarrow> string \<Rightarrow> string \<Rightarrow> string" where
  "getText uci key def = (let v = get_value uci key in if v = [] then def else v)"

definition unlessZero :: "uci_env \<Rightarrow> string \<Rightarrow> bool \<Rightarrow> bool" where
  "unlessZero uci key def = (if get_value uci key = ''0'' then False else def)"

definition getProfile :: "uci_env \<Rightarrow> string \<Rightarrow> string" where
  "getProfile uci def =
     (let v = get_value uci (global ''dpi_profile'')
      in if v \<noteq> [] \<and> v \<in> {''compat'', ''balanced'', ''aggressive''} then v else def)"

section \<open>UCI listings\<close>

text \<open>\<open>s[lo:hi]\<close>, which panics out of range.\<close>

definition slice :: "string \<Rightarrow> int \<Rightarrow> int \<Rightarrow> string outcome" where
  "slice s lo hi =
     (if 0 \<le> lo \<and> lo \<le> hi \<and> hi \<le> int (length s) then Return (take (nat (hi - lo)) (drop (nat lo) s))
      else Panic ''slice bounds out of range'')"

type_synonym targets_acc = "(string \<times> ProbeTarget) list \<times> string list"

definition set_field :: "string \<Rightarrow> string \<Rightarrow> ProbeTarget \<Rightarrow> ProbeTarget" where
  "set_field field val pt =
     (if field = ''host'' then pt\<lparr>pt_Host := val\<rparr>
      else if field = ''port'' then pt\<lparr>pt_Port := fst (Atoi val)\<rparr>
      else if field = ''type'' then pt\<lparr>pt_Type := ProbeType_of val\<rparr>
      else pt)"

abbreviation quote :: char where
  "quote \<equiv> CHR 0x27"

definition target_line :: "string \<Rightarrow> targets_acc \<Rightarrow> targets_acc outcome" where
  "target_line line acc =
     (let (seen, order) = acc
      in if \<not> Contains line ''probe_target'' then Return acc
         else case SplitN2 line (CHR ''='') of
           [key, v] \<Rightarrow>
             (let val = TrimCut v [quote];
                  idxStart = IndexByte key (CHR ''['');
                  idxEnd = IndexByte key (CHR '']'')
              in if idxStart < 0 \<or> idxEnd < 0 then Return acc
                 else obind (slice key (idxStart + 1) idxEnd) (\<lambda>idx.
                   obind (slice key (idxEnd + 2) (int (length key))) (\<lambda>field.
                     let order = (if map_of seen idx = None then order @ [idx] else order);
                         pt = (case map_of seen idx of None \<Rightarrow> zero_pt | Some p \<Rightarrow> p)
                     in Return (AList.update idx (set_field field val pt) seen, order))))
         | _ \<Rightarrow> Return acc)"

fun target_lines :: "string list \<Rightarrow> targets_acc \<Rightarrow> targets_acc outcome" where
  "target_lines [] acc = Return acc"
| "target_lines (l # ls) acc = obind (target_line l acc) (target_lines ls)"

definition loadUCIProbeTargets :: "uci_env \<Rightarrow> ProbeTarget list outcome" where
  "loadUCIProbeTargets uci =
     (case uci_show uci ''vpn-watchdog'' of
        None \<Rightarrow> Return []
      | Some out \<Rightarrow>
          obind (target_lines (scan_lines out) ([], [])) (\<lambda>(seen, order).
            Return (filter (\<lambda>pt. pt_Host pt \<noteq> [])
              (map (\<lambda>idx. case map_of seen idx of None \<Rightarrow> zero_pt | Some pt \<Rightarrow> pt) order))))"

definition list_value :: "string \<Rightarrow> string \<Rightarrow> string option" where
  "list_value pre line =
     (if \<not> HasPrefix line (pre @ ''='') then None
      else case SplitN2 line (CHR ''='') of
        [_, p] \<Rightarrow>
          (let v = TrimCut p (quote # '' '' @ [CHR 0x09, CHR 0x0D, CHR 0x0A])
           in if v = [] then None else Some v)
      | _ \<Rightarrow> None)"

text \<open>The set \<open>seen\<close> holds exactly the values collected so far.\<close>

fun string_list_loop :: "string \<Rightarrow> string list \<Rightarrow> string list \<Rightarrow> string list" where
  "string_list_loop pre [] vals = vals"
| "string_list_loop pre (line # ls) vals =
     (case list_value pre line of
        None \<Rightarrow> string_list_loop pre ls vals
      | Some v \<Rightarrow> if v \<in> set vals then string_list_loop pre ls vals
                  else string_list_loop pre ls (vals @ [v]))"

definition loadUCIStringList :: "uci_env \<Rightarrow> string \<Rightarrow> string list" where
  "loadUCIStringList uci pre =
     (case uci_show uci ''vpn-watchdog.global'' of
        None \<Rightarrow> []
      | Some out \<Rightarrow> string_list_loop pre (scan_lines out) [])"

fun domain_loop :: "string list \<Rightarrow> int \<Rightarrow> int \<Rightarrow> string list \<Rightarrow> ProbeTarget list \<Rightarrow> ProbeTarget list" where
  "domain_loop [] limit n seen base = base"
| "domain_loop (d # ds) limit n seen base =
     (if limit \<le> n then base
      else if d \<in> set seen then domain_loop ds limit n seen base
      else domain_loop ds limit (n + 1) (d # seen)
             (base @ [\<lparr>pt_Host = d, pt_Port = 443, pt_Type = ProbeHTTPS, pt_Timeout = 0\<rparr>]))"

definition appendDomainProbeTargets :: "ProbeTarget list \<Rightarrow> string list \<Rightarrow> int \<Rightarrow> ProbeTarget list" where
  "appendDomainProbeTargets base domains limit =
     (if domains = [] \<or> limit \<le> 0 then base
      else domain_loop domains limit 0 (map pt_Host base) base)"

section \<open>The daemon's settings\<close>

definition load_ai :: "uci_env \<Rightarrow> AIAdvisorConfig \<Rightarrow> AIAdvisorConfig" where
  "load_ai uci ai = ai\<lparr>
     ai_Enabled := (if get_value uci (global ''ai_enabled'') = ''1'' then True else ai_Enabled ai),
     ai_Provider := getText uci (global ''ai_provider'') (ai_Provider ai),
     ai_Endpoint := getText uci (global ''ai_endpoint'') (ai_Endpoint ai),
     ai_APIKeyFile := getText uci (global ''ai_api_key_file'') (ai_APIKeyFile ai),
     ai_Timeout := getDur uci (global ''ai_timeout'') (ai_Timeout ai),
     ai_PresetTTL := getDur uci (global ''ai_preset_ttl'') (ai_PresetTTL ai),
     ai_MaxCallsPerHour := getInt uci (global ''ai_max_calls_per_hour'') (ai_MaxCallsPerHour ai),
     ai_MinConfidence := getFloat uci (global ''ai_min_confidence'') (ai_MinConfidence ai)\<rparr>"

definition load_global :: "uci_env \<Rightarrow> DaemonConfig \<Rightarrow> DaemonConfig" where
  "load_global uci c = c\<lparr>
     ProbeIntervalHealthy := getDur uci (global ''probe_interval_healthy'') (ProbeIntervalHealthy c),
     ProbeIntervalDegraded := getDur uci (global ''probe_interval_degraded'') (ProbeIntervalDegraded c),
     DegradedThreshold := getInt uci (global ''degraded_threshold'') (DegradedThreshold c),
     ProbingThreshold := getInt uci (global ''probing_threshold'') (ProbingThreshold c),
     MaxSwitchAttempts := getInt uci (global ''max_switch_attempts'') (MaxSwitchAttempts c),
     PostSwitchCooldown := getDur uci (global ''post_switch_cooldown'') (PostSwitchCooldown c),
     SwitchVerifyTimeout := getDur uci (global ''switch_verify_timeout'') (SwitchVerifyTimeout c),
     ProbeRotateTargets := unlessZero uci (global ''probe_rotate_targets'') (ProbeRotateTargets c),
     ProbeTargetPool := getInt uci (global ''probe_target_pool'') (ProbeTargetPool c),
     ProbeUseDoH := unlessZero uci (global ''probe_use_doh'') (ProbeUseDoH c),
     ProbeDoHEndpoint := getText uci (global ''probe_doh_endpoint'') (ProbeDoHEndpoint c),
     ConfigDir := getText uci (global ''config_dir'') (ConfigDir c),
     SingBoxBin := getText uci (global ''sing_box_bin'') (SingBoxBin c),
     DPIAutoTune := unlessZero uci (global ''dpi_auto_tune'') (DPIAutoTune c),
     DPIMaxVariants := getInt uci (global ''dpi_max_variants'') (DPIMaxVariants c),
     DPIProfile := getProfile uci (DPIProfile c),
     AIAdvisor := load_ai uci (AIAdvisor c)\<rparr>"

definition LoadDaemonConfigFromUCI :: "uci_env \<Rightarrow> DaemonConfig outcome" where
  "LoadDaemonConfigFromUCI uci =
     (let cfg = load_global uci DefaultDaemonConfig
      in obind (loadUCIProbeTargets uci) (\<lambda>targets.
        let cfg = (if 0 < length targets then cfg\<lparr>ProbeTargets := targets\<rparr> else cfg);
            cfg = cfg\<lparr>VPNDomains := loadUCIStringList uci (global ''vpn_domain''),
                      VPNIPs := loadUCIStringList uci (global ''vpn_ip''),
                      VPNDomainFiles := loadUCIStringList uci (global ''vpn_domain_file'')\<rparr>
        in Return (cfg\<lparr>ProbeTargets :=
             appendDomainProbeTargets (ProbeTargets cfg) (VPNDomains cfg) 3\<rparr>)))"

section \<open>Lemmas on the directory\<close>

lemma json_name_plain: "CHR ''/'' \<notin> set i \<Longrightarrow> plain_name (i @ ''.json'')"
  by (auto simp: plain_name_def append_eq_Cons_conv)

lemma star_plain: "plain_name ''*.json''"
  by (simp add: plain_name_def)

lemma glob_json_iff:
  assumes "CHR ''/'' \<notin> set i"
  shows "path_join dir (i @ ''.json'') \<in> set (glob_json dir fs)
           \<longleftrightarrow> map_of fs (path_join dir (i @ ''.json'')) \<noteq> None"
proof -
  have "HasSuffix (dir_prefix dir @ i @ ''.json'') ''.json''" by (simp add: HasSuffix_def)
  then show ?thesis
    by (simp add: glob_json_def path_join_name json_name_plain [OF assms] star_plain
        path_dir_name map_of_eq_None_iff)
qed

section \<open>Properties of the directory\<close>

definition wf_tunnel :: "TunnelConfig \<Rightarrow> bool" where
  "wf_tunnel tc \<longleftrightarrow> ID tc \<noteq> []
     \<and> (case Protocol tc of
           ProtocolWireGuard \<Rightarrow> WireGuard tc \<noteq> None
         | ProtocolAmneziaWG \<Rightarrow> AmneziaWG tc \<noteq> None
         | ProtocolVLESS \<Rightarrow> VLESS tc \<noteq> None
         | OtherProtocol _ \<Rightarrow> False)"

lemma validate_iff: "validate tc = Inr () \<longleftrightarrow> wf_tunnel tc"
  by (simp add: validate_def wf_tunnel_def split: Protocol.splits)

lemma json_fields_simps [simp]:
  "ID (json_fields tc) = ID tc" "Enabled (json_fields tc) = Enabled tc"
  "Protocol (json_fields tc) = Protocol tc" "IsVariant (json_fields tc) = False"
  "wf_tunnel (json_fields tc) = wf_tunnel tc" "json_fields (json_fields tc) = json_fields tc"
  by (simp_all add: json_fields_def wf_tunnel_def split: Protocol.split)

lemma loadFile_wf: "loadFile fs path = Inr tc \<Longrightarrow> wf_tunnel tc \<and> \<not> IsVariant tc"
  by (auto simp: loadFile_def Let_def validate_iff split: option.splits json_file.splits sum.splits
      if_splits)

text \<open>
  What the directory gives the daemon. Every tunnel of \<open>LoadAll\<close> is enabled, has an id
  and the settings of its protocol, and is no DPI variant.
\<close>

theorem LoadAll_valid:
  assumes "tc \<in> set (LoadAll cfg fs)"
  shows "Enabled tc \<and> wf_tunnel tc \<and> \<not> IsVariant tc"
proof -
  from assms obtain path where "tc \<in> set (case loadFile fs path of Inl _ \<Rightarrow> []
      | Inr tc \<Rightarrow> if Enabled tc then [tc] else [])"
    by (auto simp: LoadAll_def)
  then have "loadFile fs path = Inr tc" "Enabled tc"
    by (auto split: sum.splits if_splits)
  then show ?thesis using loadFile_wf by blast
qed

definition sample_wg :: TunnelConfig where
  "sample_wg = zero_tc\<lparr>ID := ''home'', Protocol := ProtocolWireGuard, Enabled := True,
     WireGuard := Some zero_wg, IsVariant := True\<rparr>"

lemma sample_dir:
  "concat (map (\<lambda>path. case loadFile [(''/etc/vpn-watchdog/configs/home.json'', JSON sample_wg)] path
      of Inl _ \<Rightarrow> [] | Inr tc \<Rightarrow> if Enabled tc then [tc] else [])
    (glob_json ''/etc/vpn-watchdog/configs''
      [(''/etc/vpn-watchdog/configs/home.json'', JSON sample_wg)])) = [json_fields sample_wg]"
  by code_simp

lemma LoadAll_valid_witness: "wf_tunnel (json_fields sample_wg)"
proof -
  have "json_fields sample_wg \<in> set (LoadAll DefaultDaemonConfig
      [(''/etc/vpn-watchdog/configs/home.json'', JSON sample_wg)])"
    using sample_dir by (simp only: LoadAll_def DefaultDaemonConfig_def DaemonConfig.simps) simp
  from LoadAll_valid [OF this] show ?thesis by blast
qed

text \<open>
  C28: saving and loading. A valid tunnel whose id has no slash reads back from the path it was
  saved to with everything but its two unsaved fields, every other path reads as before, and
  an enabled one is among the tunnels \<open>LoadAll\<close> returns.
\<close>

theorem Save_load:
  assumes "wf_tunnel tc" and "CHR ''/'' \<notin> set (ID tc)"
  shows "fst (Save cfg True tc fs) = Inr ()
    \<and> loadFile (snd (Save cfg True tc fs)) (path_join (ConfigDir cfg) (ID tc @ ''.json''))
        = Inr (json_fields tc)
    \<and> (\<forall>p. p \<noteq> path_join (ConfigDir cfg) (ID tc @ ''.json'')
          \<longrightarrow> loadFile (snd (Save cfg True tc fs)) p = loadFile fs p)
    \<and> (Enabled tc \<longrightarrow> json_fields tc \<in> set (LoadAll cfg (snd (Save cfg True tc fs))))"
proof -
  let ?p = "path_join (ConfigDir cfg) (ID tc @ ''.json'')"
  let ?fs = "snd (Save cfg True tc fs)"
  have fs: "map_of ?fs = (map_of fs)(?p \<mapsto> JSON (json_fields tc))"
    by (simp add: Save_def update_conv')
  have ne: "ID tc \<noteq> []" using assms(1) by (simp add: wf_tunnel_def)
  have v: "validate (json_fields tc) = Inr ()" using assms(1) by (simp add: validate_iff)
  have load: "loadFile ?fs ?p = Inr (json_fields tc)"
    using ne v by (simp add: loadFile_def fs)
  have "\<forall>p. p \<noteq> ?p \<longrightarrow> loadFile ?fs p = loadFile fs p" by (simp add: loadFile_def fs)
  moreover have "json_fields tc \<in> set (LoadAll cfg ?fs)" if "Enabled tc"
  proof -
    have "?p \<in> set (glob_json (ConfigDir cfg) ?fs)"
      by (simp add: glob_json_iff [OF assms(2)] fs)
    then show ?thesis using load that by (force simp: LoadAll_def)
  qed
  ultimately show ?thesis using load by (simp add: Save_def)
qed

lemma Save_load_witness:
  "json_fields sample_wg \<in> set (LoadAll DefaultDaemonConfig (snd (Save DefaultDaemonConfig True sample_wg [])))"
  using Save_load [of sample_wg DefaultDaemonConfig "[]"]
  by (simp add: sample_wg_def wf_tunnel_def zero_tc_def)

text \<open>
  A deleted tunnel is gone, and a second delete reports it missing.
\<close>

theorem Delete_gone:
  "loadFile (snd (Delete cfg cid fs)) (path_join (ConfigDir cfg) (cid @ ''.json''))
     = Inl ''no such file''
   \<and> fst (Delete cfg cid (snd (Delete cfg cid fs))) = Inl ''no such file''
   \<and> (path \<noteq> path_join (ConfigDir cfg) (cid @ ''.json'')
        \<longrightarrow> loadFile (snd (Delete cfg cid fs)) path = loadFile fs path)"
  by (auto simp: Delete_def Let_def loadFile_def delete_conv')

lemma Delete_gone_witness:
  "loadFile (snd (Delete DefaultDaemonConfig ''home'' [(''x'', JSON sample_wg)])) ''x''
     = loadFile [(''x'', JSON sample_wg)] ''x''"
proof -
  have "''x'' \<noteq> path_join (ConfigDir DefaultDaemonConfig) (''home'' @ ''.json'')"
    by (simp add: path_join_name plain_name_def Cons_eq_append_conv)
  then show ?thesis
    using Delete_gone [of DefaultDaemonConfig "''home''" "[(''x'', JSON sample_wg)]" "''x''"] by blast
qed

section \<open>Lemmas on the settings\<close>

lemma obind_Return_iff: "obind x f = Return y \<longleftrightarrow> (\<exists>a. x = Return a \<and> f a = Return y)"
  by (cases x) simp_all

lemma obind_Panic_iff:
  "(\<exists>e. obind x f = Panic e) \<longleftrightarrow> (\<exists>e. x = Panic e) \<or> (\<exists>a e. x = Return a \<and> f a = Panic e)"
  by (cases x) simp_all

lemma target_lines_Panic:
  assumes "l \<in> set ls" and "\<And>acc. \<exists>e. target_line l acc = Panic e"
  shows "\<exists>e. target_lines ls acc = Panic e"
  using assms(1)
proof (induction ls arbitrary: acc)
  case (Cons k ks)
  show ?case
  proof (cases "k = l")
    case True
    then show ?thesis using assms(2) [of acc] by auto
  next
    case False
    with Cons.prems have "l \<in> set ks" by simp
    with Cons.IH show ?thesis by (cases "target_line k acc") auto
  qed
qed simp

lemma SplitN2_eq: "CHR ''='' \<notin> set k \<Longrightarrow> SplitN2 (k @ CHR ''='' # v) (CHR ''='') = [k, v]"
  by (simp add: SplitN2_def IndexByte_append_notin nat_add_distrib)

lemma domain_loop_props:
  "set (map pt_Host base) \<subseteq> set seen \<Longrightarrow>
   \<exists>new. domain_loop ds limit n seen base = base @ new
     \<and> int (length new) \<le> max 0 (limit - n)
     \<and> distinct (map pt_Host new)
     \<and> set (map pt_Host new) \<inter> set seen = {}
     \<and> set (map pt_Host new) \<subseteq> set ds
     \<and> (\<forall>t\<in>set new. pt_Type t = ProbeHTTPS \<and> pt_Port t = 443)
     \<and> (int (length new) < limit - n \<longrightarrow> set ds \<subseteq> set seen \<union> set (map pt_Host new))"
proof (induction ds arbitrary: n seen base)
  case (Cons d ds)
  let ?t = "\<lparr>pt_Host = d, pt_Port = 443, pt_Type = ProbeHTTPS, pt_Timeout = 0\<rparr>"
  consider "limit \<le> n" | "n < limit" "d \<in> set seen" | "n < limit" "d \<notin> set seen" by linarith
  then show ?case
  proof cases
    case 1
    then show ?thesis by auto
  next
    case 2
    from Cons.IH [OF Cons.prems, of n] obtain new where
      "domain_loop ds limit n seen base = base @ new
     \<and> int (length new) \<le> max 0 (limit - n) \<and> distinct (map pt_Host new)
     \<and> set (map pt_Host new) \<inter> set seen = {} \<and> set (map pt_Host new) \<subseteq> set ds
     \<and> (\<forall>t\<in>set new. pt_Type t = ProbeHTTPS \<and> pt_Port t = 443)
     \<and> (int (length new) < limit - n \<longrightarrow> set ds \<subseteq> set seen \<union> set (map pt_Host new))" by blast
    with 2 show ?thesis by (intro exI [of _ new]) auto
  next
    case 3
    have "set (map pt_Host (base @ [?t])) \<subseteq> set (d # seen)" using Cons.prems by auto
    from Cons.IH [OF this, of "n + 1"] obtain new where
      "domain_loop ds limit (n + 1) (d # seen) (base @ [?t]) = (base @ [?t]) @ new
     \<and> int (length new) \<le> max 0 (limit - (n + 1)) \<and> distinct (map pt_Host new)
     \<and> set (map pt_Host new) \<inter> set (d # seen) = {} \<and> set (map pt_Host new) \<subseteq> set ds
     \<and> (\<forall>t\<in>set new. pt_Type t = ProbeHTTPS \<and> pt_Port t = 443)
     \<and> (int (length new) < limit - (n + 1)
          \<longrightarrow> set ds \<subseteq> set (d # seen) \<union> set (map pt_Host new))" by blast
    with 3 show ?thesis by (intro exI [of _ "?t # new"]) auto
  qed
qed auto

lemma list_value_nonempty: "list_value pre line \<noteq> Some []"
  by (auto simp: list_value_def Let_def split: list.splits)

lemma string_list_loop_props:
  "distinct vals \<Longrightarrow> [] \<notin> set vals \<Longrightarrow>
   distinct (string_list_loop pre ls vals) \<and> [] \<notin> set (string_list_loop pre ls vals)"
proof (induction ls arbitrary: vals)
  case (Cons line ls)
  show ?case
  proof (cases "list_value pre line")
    case (Some v)
    then have "v \<noteq> []" using list_value_nonempty by metis
    with Some Cons.IH [of "vals @ [v]"] Cons.IH [of vals] Cons.prems show ?thesis by auto
  qed (use Cons in simp)
qed simp

lemma loadUCIStringList_props:
  "distinct (loadUCIStringList uci pre) \<and> [] \<notin> set (loadUCIStringList uci pre)"
  by (auto simp: loadUCIStringList_def string_list_loop_props split: option.split)

section \<open>Properties of the settings\<close>

text \<open>
  The VPN domains become low-priority probes. The configured targets stay in front; at
  most \<open>limit\<close> new ones follow, for domains that no target covers yet, each once, over HTTPS;
  when the limit is not reached every domain is covered.
\<close>

theorem appendDomainProbeTargets_spec:
  assumes "0 < limit"
  shows "\<exists>new. appendDomainProbeTargets base domains limit = base @ new
    \<and> int (length new) \<le> limit
    \<and> distinct (map pt_Host new)
    \<and> set (map pt_Host new) \<inter> set (map pt_Host base) = {}
    \<and> set (map pt_Host new) \<subseteq> set domains
    \<and> (\<forall>t\<in>set new. pt_Type t = ProbeHTTPS \<and> pt_Port t = 443)
    \<and> (int (length new) < limit \<longrightarrow> set domains \<subseteq> set (map pt_Host (base @ new)))"
proof (cases "domains = []")
  case True
  with assms show ?thesis by (auto simp: appendDomainProbeTargets_def)
next
  case False
  then have "appendDomainProbeTargets base domains limit
      = domain_loop domains limit 0 (map pt_Host base) base"
    using assms by (simp add: appendDomainProbeTargets_def)
  moreover obtain new where "domain_loop domains limit 0 (map pt_Host base) base = base @ new
     \<and> int (length new) \<le> max 0 (limit - 0) \<and> distinct (map pt_Host new)
     \<and> set (map pt_Host new) \<inter> set (map pt_Host base) = {} \<and> set (map pt_Host new) \<subseteq> set domains
     \<and> (\<forall>t\<in>set new. pt_Type t = ProbeHTTPS \<and> pt_Port t = 443)
     \<and> (int (length new) < limit - 0
         \<longrightarrow> set domains \<subseteq> set (map pt_Host base) \<union> set (map pt_Host new))"
    using domain_loop_props [of base "map pt_Host base" domains limit 0] by blast
  ultimately show ?thesis using assms by (intro exI [of _ new]) auto
qed

lemma appendDomainProbeTargets_spec_witness:
  "\<exists>new. appendDomainProbeTargets [] [''a.example'', ''b.example''] 3 = new \<and> int (length new) \<le> 3"
  using appendDomainProbeTargets_spec [of 3 "[]" "[''a.example'', ''b.example'']"] by auto

text \<open>
  C29: a section header stops the daemon. A line that ends its key with the closing bracket, as
  \<open>uci show\<close> prints for every anonymous \<open>probe_target\<close> section, makes the settings reader
  slice past the end of the key and panic, whatever the other lines are.
\<close>

theorem section_header_panics:
  assumes "uci_show uci ''vpn-watchdog'' = Some out"
    and "(k @ ''['' @ i @ '']'') @ CHR ''='' # v \<in> set (scan_lines out)"
    and "Contains ((k @ ''['' @ i @ '']'') @ CHR ''='' # v) ''probe_target''"
    and "CHR ''='' \<notin> set (k @ i)" and "set k \<inter> {CHR ''['', CHR '']''} = {}" and "CHR '']'' \<notin> set i"
  shows "\<exists>e. LoadDaemonConfigFromUCI uci = Panic e"
proof -
  let ?key = "k @ ''['' @ i @ '']''"
  let ?line = "?key @ CHR ''='' # v"
  have sp: "SplitN2 ?line (CHR ''='') = [?key, v]"
    using assms(4) by (intro SplitN2_eq) auto
  have ob: "IndexByte ?key (CHR ''['') = int (length k)"
    using assms(5) IndexByte_append_notin [of "CHR ''[''" k "i @ '']''"] by simp
  have ie: "IndexByte ?key (CHR '']'') = int (length k + 1 + length i)"
    using assms(5,6) IndexByte_append_notin [of "CHR '']''" "k @ ''['' @ i" "[]"] by simp
  have "\<exists>e. target_line ?line acc = Panic e" for acc
    using assms(3) unfolding target_line_def sp
    by (cases acc) (simp add: ob [simplified] ie [simplified] slice_def sp [simplified])
  then have "\<exists>e. target_lines (scan_lines out) ([], []) = Panic e"
    using assms(2) by (intro target_lines_Panic)
  then show ?thesis
    by (auto simp: LoadDaemonConfigFromUCI_def loadUCIProbeTargets_def assms(1) Let_def)
qed

definition shipped_uci :: uci_env where
  "shipped_uci = \<lparr>uci_get = (\<lambda>k. None),
     uci_show = (\<lambda>p. Some (Join [''vpn-watchdog.@probe_target[0]=probe_target'',
        ''vpn-watchdog.@probe_target[0].host='' @ [quote] @ ''1.1.1.1'' @ [quote]] [CHR 0x0A])),
     ParseFloat = (\<lambda>s. None)\<rparr>"

lemma section_header_panics_witness: "\<exists>e. LoadDaemonConfigFromUCI shipped_uci = Panic e"
proof (rule section_header_panics [where k = "''vpn-watchdog.@probe_target''" and i = "''0''"
      and v = "''probe_target''"])
  show "uci_show shipped_uci ''vpn-watchdog'' =
      Some (Join [''vpn-watchdog.@probe_target[0]=probe_target'',
        ''vpn-watchdog.@probe_target[0].host='' @ [quote] @ ''1.1.1.1'' @ [quote]] [CHR 0x0A])"
    by (simp add: shipped_uci_def)
  show "(''vpn-watchdog.@probe_target'' @ ''['' @ ''0'' @ '']'') @ CHR ''='' # ''probe_target''
      \<in> set (scan_lines (Join [''vpn-watchdog.@probe_target[0]=probe_target'',
        ''vpn-watchdog.@probe_target[0].host='' @ [quote] @ ''1.1.1.1'' @ [quote]] [CHR 0x0A]))"
    by code_simp
  show "Contains ((''vpn-watchdog.@probe_target'' @ ''['' @ ''0'' @ '']'') @ CHR ''='' # ''probe_target'')
      ''probe_target''"
    by code_simp
qed simp_all

lemma load_global_frame:
  "ProbeTargets (load_global uci c) = ProbeTargets c"
  "DPIProfile (load_global uci c) = getProfile uci (DPIProfile c)"
  "ProbeTimeout (load_global uci c) = ProbeTimeout c"
  "ParallelProbeTimeout (load_global uci c) = ParallelProbeTimeout c"
  "StateDir (load_global uci c) = StateDir c" "WGBin (load_global uci c) = WGBin c"
  "AWGBin (load_global uci c) = AWGBin c"
  by (simp_all add: load_global_def)

lemma loadUCIProbeTargets_hosts:
  "loadUCIProbeTargets uci = Return ts \<Longrightarrow> t \<in> set ts \<Longrightarrow> pt_Host t \<noteq> []"
  by (auto simp: loadUCIProbeTargets_def obind_Return_iff split: option.splits)

lemma appendDomain_hosts:
  assumes "\<forall>t\<in>set base. pt_Host t \<noteq> []" and "[] \<notin> set domains"
  shows "\<forall>t\<in>set (appendDomainProbeTargets base domains limit). pt_Host t \<noteq> []"
proof (cases "domains = [] \<or> limit \<le> 0")
  case False
  obtain new where "domain_loop domains limit 0 (map pt_Host base) base = base @ new"
      "set (map pt_Host new) \<subseteq> set domains"
    using domain_loop_props [of base "map pt_Host base" domains limit 0] by blast
  with False assms show ?thesis by (force simp: appendDomainProbeTargets_def)
qed (use assms in \<open>simp add: appendDomainProbeTargets_def\<close>)

lemma appendDomain_nonempty: "base \<noteq> [] \<Longrightarrow> appendDomainProbeTargets base domains limit \<noteq> []"
  using domain_loop_props [of base "map pt_Host base" domains limit 0]
  by (auto simp: appendDomainProbeTargets_def)

lemma default_hosts:
  "ProbeTargets DefaultDaemonConfig \<noteq> [] \<and> (\<forall>t\<in>set (ProbeTargets DefaultDaemonConfig). pt_Host t \<noteq> [])"
  by (simp add: DefaultDaemonConfig_def)

text \<open>
  C33: settings the daemon can run with. Whatever UCI answers, settings that are read without a
  panic have one of the three profiles, at least one probe target and none without a host,
  selector lists without blanks or duplicates, and the default for every field no UCI key sets.
\<close>

theorem settings_usable:
  assumes "LoadDaemonConfigFromUCI uci = Return cfg"
  shows "DPIProfile cfg \<in> {''compat'', ''balanced'', ''aggressive''}
    \<and> ProbeTargets cfg \<noteq> [] \<and> (\<forall>t\<in>set (ProbeTargets cfg). pt_Host t \<noteq> [])
    \<and> distinct (VPNDomains cfg) \<and> [] \<notin> set (VPNDomains cfg)
    \<and> distinct (VPNIPs cfg) \<and> [] \<notin> set (VPNIPs cfg)
    \<and> StateDir cfg = StateDir DefaultDaemonConfig
    \<and> ProbeTimeout cfg = ProbeTimeout DefaultDaemonConfig
    \<and> ParallelProbeTimeout cfg = ParallelProbeTimeout DefaultDaemonConfig"
proof -
  let ?g = "load_global uci DefaultDaemonConfig"
  from assms obtain ts where ts: "loadUCIProbeTargets uci = Return ts"
    by (auto simp: LoadDaemonConfigFromUCI_def Let_def obind_Return_iff)
  let ?base = "if 0 < length ts then ts else ProbeTargets DefaultDaemonConfig"
  let ?dom = "loadUCIStringList uci (global ''vpn_domain'')"
  have cfg: "ProbeTargets cfg = appendDomainProbeTargets ?base ?dom 3"
      "VPNDomains cfg = ?dom" "VPNIPs cfg = loadUCIStringList uci (global ''vpn_ip'')"
      "DPIProfile cfg = DPIProfile ?g" "StateDir cfg = StateDir ?g"
      "ProbeTimeout cfg = ProbeTimeout ?g" "ParallelProbeTimeout cfg = ParallelProbeTimeout ?g"
    using assms by (auto simp: LoadDaemonConfigFromUCI_def Let_def ts load_global_frame)
  have "?base \<noteq> []" "\<forall>t\<in>set ?base. pt_Host t \<noteq> []"
    using default_hosts loadUCIProbeTargets_hosts [OF ts] by auto
  moreover have "DPIProfile ?g \<in> {''compat'', ''balanced'', ''aggressive''}"
    by (simp add: load_global_frame getProfile_def Let_def) (simp add: DefaultDaemonConfig_def)
  ultimately show ?thesis
    using loadUCIStringList_props [of uci] appendDomain_hosts [of ?base ?dom 3]
      appendDomain_nonempty [of ?base ?dom 3]
    by (simp only: cfg load_global_frame) blast
qed

definition no_uci :: uci_env where
  "no_uci = \<lparr>uci_get = (\<lambda>k. None), uci_show = (\<lambda>k. None), ParseFloat = (\<lambda>s. None)\<rparr>"

lemma no_uci_loads: "\<exists>cfg. LoadDaemonConfigFromUCI no_uci = Return cfg"
  by (simp add: LoadDaemonConfigFromUCI_def loadUCIProbeTargets_def no_uci_def Let_def)

lemma settings_usable_witness:
  "\<exists>cfg. LoadDaemonConfigFromUCI no_uci = Return cfg \<and> ProbeTargets cfg \<noteq> []"
  using no_uci_loads settings_usable [of no_uci] by blast

text \<open>
  Without UCI the daemon runs on its defaults: when every \<open>uci\<close> command fails, the
  settings are \<open>DefaultDaemonConfig\<close>, field by field.
\<close>

theorem uci_absent_defaults:
  assumes "\<And>k. uci_get uci k = None" and "\<And>p. uci_show uci p = None"
  shows "LoadDaemonConfigFromUCI uci = Return DefaultDaemonConfig"
proof -
  have v: "get_value uci k = []" for k by (simp add: get_value_def assms)
  have "getDur uci k d = d" "getInt uci k n = n" "getFloat uci k f = f" "getText uci k t = t"
      "unlessZero uci k b = b" "getProfile uci t = t" for k d n f t b
    by (simp_all add: getDur_def getInt_def getFloat_def getText_def unlessZero_def getProfile_def v)
  then have "load_ai uci ai = ai" "load_global uci c = c" for ai c
    by (simp_all add: load_ai_def load_global_def v)
  moreover have "loadUCIStringList uci p = []" for p by (simp add: loadUCIStringList_def assms)
  ultimately show ?thesis
    by (simp add: LoadDaemonConfigFromUCI_def loadUCIProbeTargets_def assms
        appendDomainProbeTargets_def DefaultDaemonConfig_def)
qed

lemma uci_absent_defaults_witness: "LoadDaemonConfigFromUCI no_uci = Return DefaultDaemonConfig"
  by (rule uci_absent_defaults) (simp_all add: no_uci_def)

text \<open>A duration key holds seconds, and a number too large wraps around in 64 bits.\<close>

lemma getDur_seconds:
  assumes "0 \<le> n" and "n < 2 ^ 63" and "uci_get uci key = Some (Itoa n)"
  shows "getDur uci key d = wrap64 (n * second)"
proof -
  have "Itoa n \<noteq> []" using assms(1) by (simp add: Itoa_def)
  moreover have "TrimSpace (Itoa n) = Itoa n"
    using calculation assms(1) by (intro TrimSpace_digits Itoa_nonneg_digits)
  moreover have "Atoi (Itoa n) = (n, False)" using assms(1,2) by (intro Atoi_Itoa) simp_all
  ultimately show ?thesis by (simp add: getDur_def get_value_def assms(3))
qed

text \<open>Two values of one UCI list, which \<open>uci show\<close> prints on one line, come back as one text.\<close>

lemma uci_list_collapses:
  "string_list_loop ''vpn-watchdog.global.vpn_ip''
     [''vpn-watchdog.global.vpn_ip='' @ [quote] @ ''10.0.0.1'' @ [quote] @ '' '' @ [quote]
        @ ''10.0.0.2'' @ [quote]] []
   = [''10.0.0.1'' @ [quote] @ '' '' @ [quote] @ ''10.0.0.2'']"
  by code_simp

end
