(* ===== verification/State_Machine.thy ===== *)
theory State_Machine
  imports Go_Base "HOL-Library.Char_ord" "HOL-Library.List_Lexorder" "HOL-Library.Product_Lexorder"
begin

text \<open>
  The state machine of \<open>daemon/internal/state/machine.go\<close>. \<open>Machine\<close> is the struct; its
  file \<open>state.json\<close> is the field \<open>persistFile\<close>, and \<open>persistWritable\<close> says whether the
  environment lets \<open>save\<close> create the directory and write the file (\<open>save\<close> ignores a
  failure). The mutex makes each method one atomic step, so a method is a function on the
  record. \<open>state_event\<close> is the interface the rest of the daemon drives the machine through.
\<close>

section \<open>The machine and its file\<close>

datatype State =
  StateHealthy | StateDegraded | StateProbing | StateSwitching | OtherState string

record persistedState =
  ps_Current :: State
  ps_ActiveConfigID :: string
  ps_LastSwitch :: gotime

record Machine =
  current :: State
  consecutiveFails :: int
  activeConfigID :: string
  lastSwitch :: gotime
  switchAttempts :: int
  persistFile :: "persistedState json_file"
  persistWritable :: bool

definition load :: "Machine \<Rightarrow> Machine" where
  "load m = (case persistFile m of
       NoFile \<Rightarrow> m
     | Garbage \<Rightarrow> m
     | JSON ps \<Rightarrow> m\<lparr>current := ps_Current ps, activeConfigID := ps_ActiveConfigID ps,
                    lastSwitch := ps_LastSwitch ps\<rparr>)"

definition New :: "persistedState json_file \<Rightarrow> bool \<Rightarrow> Machine" where
  "New file writable =
     load \<lparr>current = StateHealthy, consecutiveFails = 0, activeConfigID = [], lastSwitch = 0,
       switchAttempts = 0, persistFile = file, persistWritable = writable\<rparr>"

definition save :: "Machine \<Rightarrow> Machine" where
  "save m =
     (let ps = \<lparr>ps_Current = current m, ps_ActiveConfigID = activeConfigID m,
                ps_LastSwitch = lastSwitch m\<rparr>
      in if persistWritable m then m\<lparr>persistFile := JSON ps\<rparr> else m)"

lemma save_frame [simp, frame_simps]:
  "current (save m) = current m"
  "consecutiveFails (save m) = consecutiveFails m"
  "activeConfigID (save m) = activeConfigID m"
  "lastSwitch (save m) = lastSwitch m"
  "switchAttempts (save m) = switchAttempts m"
  "persistWritable (save m) = persistWritable m"
  by (simp_all add: save_def Let_def)

section \<open>The operations\<close>

definition RecordSuccess :: "int \<Rightarrow> Machine \<Rightarrow> Machine" where
  "RecordSuccess degradedThreshold m =
     (let m = m\<lparr>consecutiveFails := 0\<rparr>
      in if current m = StateDegraded then save (m\<lparr>current := StateHealthy\<rparr>) else m)"

definition RecordFailure :: "int \<Rightarrow> int \<Rightarrow> Machine \<Rightarrow> State \<times> Machine" where
  "RecordFailure degradedThreshold probingThreshold m =
     (let m = m\<lparr>consecutiveFails := wrap64 (consecutiveFails m + 1)\<rparr>;
          m = (case current m of
                 StateHealthy \<Rightarrow>
                   (if degradedThreshold \<le> consecutiveFails m
                    then save (m\<lparr>current := StateDegraded\<rparr>) else m)
               | StateDegraded \<Rightarrow>
                   (if wrap64 (degradedThreshold + probingThreshold) \<le> consecutiveFails m
                    then save (m\<lparr>current := StateProbing, consecutiveFails := 0,
                                 switchAttempts := 0\<rparr>)
                    else m)
               | _ \<Rightarrow> m)
      in (current m, m))"

definition EnterSwitching :: "string \<Rightarrow> Machine \<Rightarrow> Machine" where
  "EnterSwitching newConfigID m =
     save (m\<lparr>current := StateSwitching, switchAttempts := wrap64 (switchAttempts m + 1)\<rparr>)"

definition SwitchSucceeded :: "gotime \<Rightarrow> string \<Rightarrow> Machine \<Rightarrow> Machine" where
  "SwitchSucceeded now configID m =
     save (m\<lparr>current := StateHealthy, activeConfigID := configID, lastSwitch := now,
             consecutiveFails := 0, switchAttempts := 0\<rparr>)"

definition SwitchFailed :: "int \<Rightarrow> Machine \<Rightarrow> bool \<times> Machine" where
  "SwitchFailed maxAttempts m =
     (if switchAttempts m < maxAttempts then (True, save (m\<lparr>current := StateProbing\<rparr>))
      else (False, save (m\<lparr>current := StateProbing, switchAttempts := 0\<rparr>)))"

definition SetActiveConfig :: "string \<Rightarrow> Machine \<Rightarrow> Machine" where
  "SetActiveConfig i m = save (m\<lparr>activeConfigID := i\<rparr>)"

definition InCooldown :: "gotime \<Rightarrow> duration \<Rightarrow> Machine \<Rightarrow> bool" where
  "InCooldown now cooldown m \<longleftrightarrow>
     \<not> IsZero (lastSwitch m) \<and> time_sub now (lastSwitch m) < cooldown"

lemmas machine_defs =
  RecordSuccess_def RecordFailure_def EnterSwitching_def SwitchSucceeded_def SwitchFailed_def
  SetActiveConfig_def

section \<open>One step per method\<close>

datatype state_event =
    EvSuccess int
  | EvFailure int int
  | EvEnter string
  | EvSwitched gotime string
  | EvSwitchFailed int
  | EvSetActive string

fun machine_step :: "state_event \<Rightarrow> Machine \<Rightarrow> Machine" where
  "machine_step (EvSuccess d) m = RecordSuccess d m"
| "machine_step (EvFailure d p) m = snd (RecordFailure d p m)"
| "machine_step (EvEnter i) m = EnterSwitching i m"
| "machine_step (EvSwitched now i) m = SwitchSucceeded now i m"
| "machine_step (EvSwitchFailed n) m = snd (SwitchFailed n m)"
| "machine_step (EvSetActive i) m = SetActiveConfig i m"

definition run_events :: "state_event list \<Rightarrow> Machine \<Rightarrow> Machine" where
  "run_events evs m = fold machine_step evs m"

lemma run_events_simps [simp]:
  "run_events [] m = m"
  "run_events (e # es) m = run_events es (machine_step e m)"
  by (simp_all add: run_events_def)

lemma run_events_append: "run_events (es @ fs) m = run_events fs (run_events es m)"
  by (simp add: run_events_def)

text \<open>The edges of the state diagram.\<close>

inductive edge :: "State \<Rightarrow> State \<Rightarrow> bool" where
  stay: "edge s s"
| degrade: "edge StateHealthy StateDegraded"
| recover: "edge StateDegraded StateHealthy"
| give_up: "edge StateDegraded StateProbing"

inductive_cases edge_from_healthy: "edge StateHealthy s"
inductive_cases edge_from_degraded: "edge StateDegraded s"
inductive_simps edge_iff: "edge s t"

text \<open>A probe event moves along an edge; a switch event sets the state outright.\<close>

lemma probe_event_edge:
  "edge (current m) (current (machine_step (EvSuccess d) m))"
  "edge (current m) (current (machine_step (EvFailure d p) m))"
  by (auto simp: machine_defs Let_def edge_iff split: State.splits)

text \<open>
  The states are ordered by how bad they are, an unknown one after the four known. A failed
  probe never improves the state and a successful one never worsens it.
\<close>

fun severity :: "State \<Rightarrow> nat \<times> string" where
  "severity StateHealthy = (0, [])"
| "severity StateDegraded = (1, [])"
| "severity StateProbing = (2, [])"
| "severity StateSwitching = (3, [])"
| "severity (OtherState s) = (4, s)"

lemma severity_inj: "severity s = severity t \<Longrightarrow> s = t"
  by (cases s; cases t) simp_all

instantiation State :: linorder
begin

definition less_eq_State :: "State \<Rightarrow> State \<Rightarrow> bool" where
  "s \<le> t \<longleftrightarrow> severity s \<le> severity t"

definition less_State :: "State \<Rightarrow> State \<Rightarrow> bool" where
  "s < t \<longleftrightarrow> severity s < severity t"

instance
  by standard (auto simp: less_eq_State_def less_State_def dest: antisym severity_inj)

end

lemma failure_worsens: "current m \<le> current (snd (RecordFailure d p m))"
  by (cases "current m") (simp_all add: RecordFailure_def Let_def less_eq_State_def)

lemma success_improves: "current (RecordSuccess d m) \<le> current m"
  by (simp add: RecordSuccess_def Let_def less_eq_State_def)

section \<open>What is persisted\<close>

definition persisted :: "Machine \<Rightarrow> persistedState" where
  "persisted m = \<lparr>ps_Current = current m, ps_ActiveConfigID = activeConfigID m,
     ps_LastSwitch = lastSwitch m\<rparr>"

lemma persisted_counters [simp]:
  "persisted (m\<lparr>consecutiveFails := n\<rparr>) = persisted m"
  "persisted (m\<lparr>switchAttempts := n\<rparr>) = persisted m"
  by (simp_all add: persisted_def)

lemma machine_step_writable [simp]:
  "persistWritable (machine_step e m) = persistWritable m"
  by (cases e) (auto simp: machine_defs Let_def split: State.splits)

section \<open>The interface of the switch engine\<close>

text \<open>
  What the switch engine relies on: entering, failing and succeeding, and which of the
  state and the active configuration each one sets.
\<close>

locale failover =
  fixes enter :: "string \<Rightarrow> 'm \<Rightarrow> 'm"
    and failed :: "int \<Rightarrow> 'm \<Rightarrow> 'm"
    and succeeded :: "gotime \<Rightarrow> string \<Rightarrow> 'm \<Rightarrow> 'm"
    and st :: "'m \<Rightarrow> State"
    and active :: "'m \<Rightarrow> string"
  assumes enter_st: "st (enter i m) = StateSwitching"
    and enter_active: "active (enter i m) = active m"
    and failed_st: "st (failed n m) = StateProbing"
    and failed_active: "active (failed n m) = active m"
    and succeeded_st: "st (succeeded now i m) = StateHealthy"
    and succeeded_active: "active (succeeded now i m) = i"
begin

lemmas failover_laws = enter_st enter_active failed_st failed_active succeeded_st succeeded_active

lemma failed_rounds:
  "active (fold (\<lambda>i m. failed n (enter i m)) is m) = active m
   \<and> (is \<noteq> [] \<longrightarrow> st (fold (\<lambda>i m. failed n (enter i m)) is m) = StateProbing)"
proof (induction "is" arbitrary: m)
  case (Cons i "is")
  then show ?case by (cases "is = []") (auto simp: failover_laws)
qed simp

end

lemma EnterSwitching_fields [simp, frame_simps]:
  "current (EnterSwitching i m) = StateSwitching"
  "activeConfigID (EnterSwitching i m) = activeConfigID m"
  "lastSwitch (EnterSwitching i m) = lastSwitch m"
  "consecutiveFails (EnterSwitching i m) = consecutiveFails m"
  "switchAttempts (EnterSwitching i m) = wrap64 (switchAttempts m + 1)"
  by (simp_all add: EnterSwitching_def)

lemma SwitchSucceeded_fields [simp, frame_simps]:
  "current (SwitchSucceeded now i m) = StateHealthy"
  "activeConfigID (SwitchSucceeded now i m) = i"
  "lastSwitch (SwitchSucceeded now i m) = now"
  "consecutiveFails (SwitchSucceeded now i m) = 0"
  "switchAttempts (SwitchSucceeded now i m) = 0"
  by (simp_all add: SwitchSucceeded_def)

lemma SwitchFailed_fields [simp, frame_simps]:
  "current (snd (SwitchFailed n m)) = StateProbing"
  "activeConfigID (snd (SwitchFailed n m)) = activeConfigID m"
  "lastSwitch (snd (SwitchFailed n m)) = lastSwitch m"
  "consecutiveFails (snd (SwitchFailed n m)) = consecutiveFails m"
  "switchAttempts (snd (SwitchFailed n m)) = (if switchAttempts m < n then switchAttempts m else 0)"
  "fst (SwitchFailed n m) = (switchAttempts m < n)"
  by (simp_all add: SwitchFailed_def)

interpretation fo: failover EnterSwitching "\<lambda>n m. snd (SwitchFailed n m)" SwitchSucceeded current
    activeConfigID
  by unfold_locales simp_all

section \<open>Probe outcomes\<close>

text \<open>
  The abstract reading of a sequence of probe outcomes (True for a success): the number of
  failures since the last success decides between healthy and degraded, and the first moment
  it reaches the sum of the thresholds ends in probing, which no probe outcome leaves.
\<close>

definition probe_event :: "int \<Rightarrow> int \<Rightarrow> bool \<Rightarrow> state_event" where
  "probe_event d p ok = (if ok then EvSuccess d else EvFailure d p)"

definition trailing_fails :: "bool list \<Rightarrow> nat" where
  "trailing_fails os = length (takeWhile Not (rev os))"

lemma trailing_fails_simps [simp]:
  "trailing_fails [] = 0"
  "trailing_fails (os @ [True]) = 0"
  "trailing_fails (os @ [False]) = Suc (trailing_fails os)"
  by (simp_all add: trailing_fails_def)

lemma trailing_fails_le: "trailing_fails os \<le> length os"
  unfolding trailing_fails_def by (metis length_rev length_takeWhile_le)

definition exhausted :: "int \<Rightarrow> bool list \<Rightarrow> bool" where
  "exhausted n os \<longleftrightarrow> list_ex (\<lambda>k. n \<le> int (trailing_fails (take k os))) [0..<Suc (length os)]"

lemma exhausted_snoc:
  "exhausted n (os @ [b]) \<longleftrightarrow> exhausted n os \<or> n \<le> int (trailing_fails (os @ [b]))"
  by (auto simp: exhausted_def list_ex_iff less_Suc_eq)

definition spec_state :: "int \<Rightarrow> int \<Rightarrow> bool list \<Rightarrow> State" where
  "spec_state d p os =
     (if exhausted (d + p) os then StateProbing
      else if d \<le> int (trailing_fails os) then StateDegraded else StateHealthy)"

lemma machine_step_probe:
  "current m = StateProbing \<Longrightarrow> current (machine_step (probe_event d p b) m) = StateProbing"
  by (simp add: probe_event_def machine_defs Let_def)

text \<open>The concrete machine keeps count as long as it has not given up.\<close>

definition counts :: "int \<Rightarrow> int \<Rightarrow> bool list \<Rightarrow> Machine \<Rightarrow> bool" where
  "counts d p os m \<longleftrightarrow> current m = spec_state d p os
     \<and> (\<not> exhausted (d + p) os \<longrightarrow> consecutiveFails m = int (trailing_fails os))"

lemma counts_step:
  assumes "counts d p os m" and "1 \<le> d" and "1 \<le> p" and "d + p < 2 ^ 63"
    and "int (length os) < 2 ^ 62"
  shows "counts d p (os @ [b]) (machine_step (probe_event d p b) m)"
proof (cases "exhausted (d + p) os")
  case True
  with assms(1) have "current m = StateProbing" by (simp add: counts_def spec_state_def)
  with True show ?thesis
    using machine_step_probe [of m d p b]
    by (simp add: counts_def spec_state_def exhausted_snoc)
next
  case False
  let ?t = "int (trailing_fails os)"
  have t: "?t < 2 ^ 62" using assms(5) trailing_fails_le [of os] by linarith
  have lt: "?t < d + p"
    using False by (auto simp: exhausted_def list_ex_iff)
  from False assms(1) have c: "consecutiveFails m = ?t"
      "current m = (if d \<le> ?t then StateDegraded else StateHealthy)"
    by (simp_all add: counts_def spec_state_def)
  show ?thesis
    using False c t lt assms(2-4)
    by (cases b) (auto simp: counts_def spec_state_def exhausted_snoc probe_event_def
        machine_defs Let_def)
qed

lemma run_events_snoc: "run_events (es @ [e]) m = machine_step e (run_events es m)"
  by (simp add: run_events_append)

lemma counts_run:
  assumes "current m = StateHealthy" and "consecutiveFails m = 0"
    and "1 \<le> d" and "1 \<le> p" and "d + p < 2 ^ 63"
  shows "int (length os) < 2 ^ 62 \<Longrightarrow> counts d p os (run_events (map (probe_event d p) os) m)"
proof (induction os rule: rev_induct)
  case Nil
  with assms show ?case by (simp add: counts_def spec_state_def exhausted_def)
next
  case (snoc b os)
  then show ?case
    using counts_step [OF _ assms(3-5), of os _ b] by (simp add: run_events_snoc)
qed

section \<open>Properties\<close>

text \<open>
  C4: the machine refines the abstract reading of the probe outcomes. From a healthy machine
  with no failures counted, after any sequence of successes and failures its state is
  \<open>spec_state\<close>: probing once the failures in a row have reached the sum of the two thresholds,
  else degraded from the first threshold on, else healthy.
\<close>

theorem probe_outcomes_refine:
  assumes "current m = StateHealthy" and "consecutiveFails m = 0"
    and "1 \<le> d" and "1 \<le> p" and "d + p < 2 ^ 63" and "int (length os) < 2 ^ 62"
  shows "current (run_events (map (probe_event d p) os) m) = spec_state d p os"
  using counts_run [OF assms(1-5), of os] assms(6) by (simp add: counts_def)

lemma probe_outcomes_refine_witness:
  "current (run_events (map (probe_event 3 3) [False, False, False, True, False]) (New NoFile True))
     = spec_state 3 3 [False, False, False, True, False]
   \<and> spec_state 3 3 [False, False, False, True, False] = StateHealthy
   \<and> spec_state 3 3 (replicate 6 False) = StateProbing"
proof (intro conjI)
  show "current (run_events (map (probe_event 3 3) [False, False, False, True, False]) (New NoFile True))
     = spec_state 3 3 [False, False, False, True, False]"
    by (rule probe_outcomes_refine) (simp_all add: New_def load_def)
qed code_simp+

lemma reopen_saved:
  "persistWritable m \<Longrightarrow> persisted (New (persistFile (save m)) True) = persisted (save m)"
  by (simp add: New_def load_def save_def persisted_def)

interpretation sm: durable machine_step "\<lambda>_. True" persistWritable "\<lambda>m. New (persistFile m) True" persisted
proof
  fix m e
  assume "persistWritable m" "persisted (New (persistFile m) True) = persisted m"
  then show "persisted (New (persistFile (machine_step e m)) True) = persisted (machine_step e m)"
    by (cases e) (auto simp: machine_defs Let_def reopen_saved split: State.splits)
qed simp

text \<open>
  C23: a daemon restart loses nothing that is persisted. Whatever methods ran since the first
  start, and in whatever order, a new machine that reads \<open>state.json\<close> back has the same state,
  active configuration and time of the last switch.
\<close>

theorem restart_restores:
  "persisted (New (persistFile (run_events evs (New NoFile True))) True)
     = persisted (run_events evs (New NoFile True))"
  unfolding run_events_def
  by (rule sm.restart_lossless) (simp_all add: New_def load_def list_all_iff)

definition failed_round :: "int \<Rightarrow> string \<Rightarrow> Machine \<Rightarrow> bool \<times> Machine" where
  "failed_round n i m = SwitchFailed n (EnterSwitching i m)"

lemma failed_round_attempts:
  assumes "switchAttempts m = 0" and "int k < n" and "n < 2 ^ 63"
  shows "switchAttempts (((\<lambda>m. snd (failed_round n i m)) ^^ k) m) = int k"
  using assms(2)
proof (induction k)
  case (Suc k)
  then show ?case using assms(3) by (simp add: failed_round_def)
qed (simp add: assms(1))

lemma failed_round_active:
  "activeConfigID (((\<lambda>m. snd (failed_round n i m)) ^^ k) m) = activeConfigID m"
  by (induction k) (simp_all add: failed_round_def)

text \<open>
  The attempt counter of the switch loop. From zero attempts, the \<open>k\<close>-th round of entering
  and failing (\<open>k \<le> maxAttempts\<close>) is told to go on exactly when \<open>k < maxAttempts\<close>; the last one
  resets the counter; the active configuration never changes.
\<close>

theorem switch_attempts_bounded:
  assumes "switchAttempts m = 0" and "int k < n" and "n < 2 ^ 63"
  shows "fst (failed_round n i (((\<lambda>m. snd (failed_round n i m)) ^^ k) m)) = (int k + 1 < n)
    \<and> switchAttempts (((\<lambda>m. snd (failed_round n i m)) ^^ Suc k) m)
         = (if int k + 1 < n then int k + 1 else 0)
    \<and> activeConfigID (((\<lambda>m. snd (failed_round n i m)) ^^ Suc k) m) = activeConfigID m"
  using failed_round_attempts [OF assms, of i] assms(2,3) failed_round_active [where k = "Suc k"]
  by (simp_all add: failed_round_def)

lemma switch_attempts_bounded_witness:
  "fst (failed_round 3 ''a'' (((\<lambda>m. snd (failed_round 3 ''a'' m)) ^^ 2) (New NoFile True))) = False
   \<and> switchAttempts (((\<lambda>m. snd (failed_round 3 ''a'' m)) ^^ 3) (New NoFile True)) = 0"
  using switch_attempts_bounded [of "New NoFile True" 2 3 "''a''"]
  by (simp add: New_def load_def numeral_3_eq_3)

definition keeps_switch_time :: "state_event \<Rightarrow> bool" where
  "keeps_switch_time e \<longleftrightarrow> (case e of EvSwitched _ _ \<Rightarrow> False | _ \<Rightarrow> True)"

lemma machine_step_lastSwitch:
  "keeps_switch_time e \<Longrightarrow> lastSwitch (machine_step e m) = lastSwitch m"
  by (cases e) (auto simp: keeps_switch_time_def machine_defs Let_def split: State.splits)

lemma run_events_lastSwitch:
  "list_all keeps_switch_time es \<Longrightarrow> lastSwitch (run_events es m) = lastSwitch m"
  by (induction es arbitrary: m) (simp_all add: machine_step_lastSwitch)

text \<open>
  The cooldown after a switch. Whatever other events follow a successful switch at time
  \<open>now\<close>, at time \<open>t\<close> the machine is in cooldown exactly when less than the cooldown has passed,
  so never for a cooldown of zero.
\<close>

theorem cooldown_after_switch:
  assumes "list_all keeps_switch_time es" and "now \<noteq> 0"
    and "- (2 ^ 63) < cd" and "cd < 2 ^ 63"
  shows "InCooldown t cd (run_events es (SwitchSucceeded now i m)) \<longleftrightarrow> t - now < cd"
  using assms by (simp add: InCooldown_def run_events_lastSwitch IsZero_def time_sub_less)

lemma cooldown_after_switch_witness:
  "InCooldown (1000 + 89 * second) (90 * second)
       (run_events [EvFailure 3 3, EvSuccess 3] (SwitchSucceeded 1000 ''a'' (New NoFile True)))
   \<and> \<not> InCooldown 1000 0 (run_events [] (SwitchSucceeded 1000 ''a'' (New NoFile True)))"
  using cooldown_after_switch [of "[EvFailure 3 3, EvSuccess 3]" 1000 "90 * second"
      "1000 + 89 * second" "''a''" "New NoFile True"]
    cooldown_after_switch [of "[]" 1000 0 1000 "''a''" "New NoFile True"]
  by (simp add: keeps_switch_time_def unit_defs)

end
