(* ===== verification/Net_Errors.thy ===== *)
theory Net_Errors
  imports Go_Strings
begin

text \<open>
  Go error values as the detector and the probes inspect them: \<open>errors.As\<close>, \<open>errors.Is\<close> and
  the \<open>Timeout\<close> method on the chain that \<open>Unwrap\<close> gives. Every value carries its \<open>Error()\<close>
  text. \<open>NetError\<close> stands for any other error type with \<open>Timeout\<close> and \<open>Temporary\<close> methods
  (a context deadline, an expired poll deadline), \<open>ErrText\<close> for any type with neither.
\<close>

datatype errno = ECONNRESET | ECONNREFUSED | ETIMEDOUT | EAGAIN | OtherErrno int

datatype goerror =
    ErrText string
  | Errno errno string
  | NetError bool string
  | DNSError bool string
  | SyscallError goerror string
  | OpError goerror string
  | URLError goerror string
  | Wrapped goerror string

fun ErrorText :: "goerror \<Rightarrow> string" where
  "ErrorText (ErrText s) = s"
| "ErrorText (Errno _ s) = s"
| "ErrorText (NetError _ s) = s"
| "ErrorText (DNSError _ s) = s"
| "ErrorText (SyscallError _ s) = s"
| "ErrorText (OpError _ s) = s"
| "ErrorText (URLError _ s) = s"
| "ErrorText (Wrapped _ s) = s"

text \<open>The chain of \<open>Unwrap\<close> calls, the value itself first.\<close>

fun chain :: "goerror \<Rightarrow> goerror list" where
  "chain (SyscallError e s) = SyscallError e s # chain e"
| "chain (OpError e s) = OpError e s # chain e"
| "chain (URLError e s) = URLError e s # chain e"
| "chain (Wrapped e s) = Wrapped e s # chain e"
| "chain e = [e]"

text \<open>The result of the \<open>Timeout\<close> method; False where the type has none.\<close>

fun TimeoutOf :: "goerror \<Rightarrow> bool" where
  "TimeoutOf (Errno e _) = (e = EAGAIN \<or> e = ETIMEDOUT)"
| "TimeoutOf (NetError b _) = b"
| "TimeoutOf (DNSError b _) = b"
| "TimeoutOf (SyscallError e _) = TimeoutOf e"
| "TimeoutOf (OpError e _) = TimeoutOf e"
| "TimeoutOf (URLError e _) = TimeoutOf e"
| "TimeoutOf (Wrapped _ _) = False"
| "TimeoutOf (ErrText _) = False"

fun is_net_error :: "goerror \<Rightarrow> bool" where
  "is_net_error (Errno _ _) = True"
| "is_net_error (NetError _ _) = True"
| "is_net_error (DNSError _ _) = True"
| "is_net_error (OpError _ _) = True"
| "is_net_error (URLError _ _) = True"
| "is_net_error _ = False"

definition as_dns :: "goerror \<Rightarrow> bool" where
  "as_dns err \<longleftrightarrow> list_ex (\<lambda>e. case e of DNSError _ _ \<Rightarrow> True | _ \<Rightarrow> False) (chain err)"

text \<open>\<open>errors.As(err, &netErr)\<close>, then \<open>netErr.Timeout()\<close>.\<close>

definition as_net_timeout :: "goerror \<Rightarrow> bool option" where
  "as_net_timeout err = map_option TimeoutOf (find is_net_error (chain err))"

text \<open>\<open>errors.As(err, &opErr)\<close>, then \<open>opErr.Err\<close>.\<close>

definition as_op_error :: "goerror \<Rightarrow> goerror option" where
  "as_op_error err =
     (case find (\<lambda>e. case e of OpError _ _ \<Rightarrow> True | _ \<Rightarrow> False) (chain err) of
        Some (OpError e _) \<Rightarrow> Some e | _ \<Rightarrow> None)"

definition errors_Is :: "goerror \<Rightarrow> errno \<Rightarrow> bool" where
  "errors_Is err n \<longleftrightarrow> list_ex (\<lambda>e. case e of Errno m _ \<Rightarrow> m = n | _ \<Rightarrow> False) (chain err)"

lemma chain_self: "e \<in> set (chain e)"
  by (cases e) auto

lemma errno_unique: "errors_Is err m \<Longrightarrow> errors_Is err n \<Longrightarrow> m = n"
  by (induction err) (auto simp: errors_Is_def)

end
