(* ===== verification/Probe_Engine.thy ===== *)
theory Probe_Engine
  imports Config_Types Net_Errors
begin

text \<open>
  \<open>daemon/internal/probe/probe.go\<close>: target selection, the four kinds of probe with host
  lookup over DoH, error classification and aggregation. The network is the record
  \<open>net_env\<close>: what one round of lookups, dials and requests answers. The goroutines of a round
  are independent of each other and write to their own index of the result slice.
\<close>

section \<open>Error classes\<close>

datatype ProbeErrType =
    ProbeErrNone | ProbeErrTimeout | ProbeErrRST | ProbeErrTLSHandshake | ProbeErrHTTPReject
  | ProbeErrDNS | ProbeErrOther

fun ProbeErrType_String :: "ProbeErrType \<Rightarrow> string" where
  "ProbeErrType_String ProbeErrNone = ''none''"
| "ProbeErrType_String ProbeErrTimeout = ''timeout''"
| "ProbeErrType_String ProbeErrRST = ''rst''"
| "ProbeErrType_String ProbeErrTLSHandshake = ''tls_handshake''"
| "ProbeErrType_String ProbeErrHTTPReject = ''http_reject''"
| "ProbeErrType_String ProbeErrDNS = ''dns''"
| "ProbeErrType_String ProbeErrOther = ''other''"

definition classifyErr :: "goerror option \<Rightarrow> ProbeErrType" where
  "classifyErr err =
     (case err of
        None \<Rightarrow> ProbeErrNone
      | Some e \<Rightarrow>
          if as_dns e then ProbeErrDNS
          else if as_net_timeout e = Some True then ProbeErrTimeout
          else if (case as_op_error e of
                     Some inner \<Rightarrow> errors_Is inner ECONNRESET \<or> errors_Is inner ECONNREFUSED
                   | None \<Rightarrow> False) then ProbeErrRST
          else (let msg = ErrorText e
                in if Contains msg ''tls:'' \<or> Contains msg ''handshake''
                      \<or> Contains msg ''certificate'' \<or> Contains msg ''x509''
                   then ProbeErrTLSHandshake
                   else if Contains msg ''EOF'' \<or> Contains msg ''connection reset''
                      \<or> Contains msg ''broken pipe''
                   then ProbeErrHTTPReject
                   else ProbeErrOther))"

section \<open>One probe\<close>

record probe_result =
  r_Target :: ProbeTarget
  r_Success :: bool
  r_RTT :: duration
  r_Err :: "goerror option"
  r_ErrType :: ProbeErrType

text \<open>
  The network as one round sees it: \<open>net.ParseIP\<close> with the address text it prints, the system
  resolver, a DoH query with its decoded answers (type and data), a TCP dial with the mark,
  an HTTP HEAD request (mark, URL, Host header, certificate check skipped) and the time a
  target's probe takes.
\<close>

record net_env =
  ParseIP :: "string \<Rightarrow> string option"
  LookupHost :: "string \<Rightarrow> goerror + string list"
  DoHQuery :: "32 word \<Rightarrow> string \<Rightarrow> string \<Rightarrow> goerror + (int \<times> string) list"
  DialTCP :: "32 word \<Rightarrow> string \<Rightarrow> goerror option"
  HTTPHead :: "32 word \<Rightarrow> string \<Rightarrow> string \<Rightarrow> bool \<Rightarrow> goerror option"
  Elapsed :: "ProbeTarget \<Rightarrow> duration"

definition lookupHostDoH :: "net_env \<Rightarrow> string \<Rightarrow> 32 word \<Rightarrow> string \<Rightarrow> goerror + string list" where
  "lookupHostDoH net host fwmark endpoint =
     (let endpoint = (if endpoint = [] then ''https://1.1.1.1/dns-query'' else endpoint)
      in case DoHQuery net fwmark endpoint host of
           Inl err \<Rightarrow> Inl err
         | Inr answers \<Rightarrow>
             let addrs = map snd (filter (\<lambda>(t, d). t = 1 \<and> ParseIP net d \<noteq> None) answers)
             in if addrs = [] then Inl (ErrText (''no A records for '' @ host)) else Inr addrs)"

definition lookupHost :: "net_env \<Rightarrow> string \<Rightarrow> 32 word \<Rightarrow> DaemonConfig \<Rightarrow> goerror + string list" where
  "lookupHost net host fwmark cfg =
     (case ParseIP net host of
        Some ip \<Rightarrow> Inr [ip]
      | None \<Rightarrow>
          (if ProbeUseDoH cfg then
             (case lookupHostDoH net host fwmark (ProbeDoHEndpoint cfg) of
                Inr addrs \<Rightarrow> if addrs \<noteq> [] then Inr addrs else LookupHost net host
              | Inl _ \<Rightarrow> LookupHost net host)
           else LookupHost net host))"

text \<open>A probe returns an error or nil; indexing an empty address list panics.\<close>

definition first_addr :: "string list \<Rightarrow> string outcome" where
  "first_addr addrs = (case addrs of [] \<Rightarrow> Panic ''index out of range [0] with length 0'' | a # _ \<Rightarrow> Return a)"

definition probeICMP :: "net_env \<Rightarrow> string \<Rightarrow> 32 word \<Rightarrow> DaemonConfig \<Rightarrow> goerror option outcome" where
  "probeICMP net host fwmark cfg =
     (case lookupHost net host fwmark cfg of
        Inl err \<Rightarrow> Return (Some (Wrapped err (''resolve '' @ host @ '': '' @ ErrorText err)))
      | Inr addrs \<Rightarrow>
          if addrs = [] then Return (Some (ErrText (''no addresses for '' @ host)))
          else obind (first_addr addrs) (\<lambda>addr.
            case DialTCP net fwmark (JoinHostPort addr ''80'') of
              None \<Rightarrow> Return None
            | Some _ \<Rightarrow>
                (case DialTCP net fwmark (JoinHostPort addr ''443'') of
                   None \<Rightarrow> Return None
                 | Some err \<Rightarrow>
                     Return (Some (Wrapped err (''icmp/tcp probe '' @ host @ '': '' @ ErrorText err))))))"

definition probeTCP ::
  "net_env \<Rightarrow> string \<Rightarrow> int \<Rightarrow> 32 word \<Rightarrow> DaemonConfig \<Rightarrow> goerror option outcome" where
  "probeTCP net host port fwmark cfg =
     (let port = (if port = 0 then 80 else port)
      in case lookupHost net host fwmark cfg of
           Inl err \<Rightarrow> Return (Some err)
         | Inr addrs \<Rightarrow> obind (first_addr addrs) (\<lambda>addr.
             Return (DialTCP net fwmark (JoinHostPort addr (Itoa port)))))"

definition probeHTTP ::
  "net_env \<Rightarrow> string \<Rightarrow> string \<Rightarrow> int \<Rightarrow> 32 word \<Rightarrow> DaemonConfig \<Rightarrow> goerror option outcome" where
  "probeHTTP net scheme host port fwmark cfg =
     (let port = (if port = 0 then (if scheme = ''https'' then 443 else 80) else port)
      in case lookupHost net host fwmark cfg of
           Inl err \<Rightarrow> Return (Some err)
         | Inr addrs \<Rightarrow> obind (first_addr addrs) (\<lambda>addr.
             Return (HTTPHead net fwmark (scheme @ ''://'' @ addr @ '':'' @ Itoa port @ ''/'') host
               (scheme = ''https''))))"

definition runProbe :: "net_env \<Rightarrow> ProbeTarget \<Rightarrow> 32 word \<Rightarrow> DaemonConfig \<Rightarrow> probe_result outcome" where
  "runProbe net tgt fwmark cfg =
     obind (case pt_Type tgt of
              ProbeICMP \<Rightarrow> probeICMP net (pt_Host tgt) fwmark cfg
            | ProbeTCP \<Rightarrow> probeTCP net (pt_Host tgt) (pt_Port tgt) fwmark cfg
            | ProbeHTTP \<Rightarrow> probeHTTP net ''http'' (pt_Host tgt) (pt_Port tgt) fwmark cfg
            | ProbeHTTPS \<Rightarrow> probeHTTP net ''https'' (pt_Host tgt) (pt_Port tgt) fwmark cfg
            | OtherProbe t \<Rightarrow> Return (Some (ErrText (''unknown probe type: '' @ t))))
       (\<lambda>err. Return \<lparr>r_Target = tgt, r_Success = (err = None), r_RTT = Elapsed net tgt,
                r_Err = err, r_ErrType = classifyErr err\<rparr>)"

section \<open>Aggregation\<close>

record AggResult =
  a_Success :: bool
  AvgRTT :: duration
  PacketLoss :: float64
  Results :: "probe_result list"
  DominantErrType :: ProbeErrType

text \<open>
  \<open>errCounts\<close> is a map from failure classes to counts. Its iteration order is the argument
  \<open>order\<close>, an enumeration of the classes; the strict comparison keeps the first maximum seen.
\<close>

definition errCounts :: "probe_result list \<Rightarrow> ProbeErrType \<Rightarrow> int" where
  "errCounts results et = int (length (filter (\<lambda>r. \<not> r_Success r \<and> r_ErrType r = et) results))"

definition dominant_step ::
  "(ProbeErrType \<Rightarrow> int) \<Rightarrow> ProbeErrType \<Rightarrow> ProbeErrType \<times> int \<Rightarrow> ProbeErrType \<times> int" where
  "dominant_step counts et acc = (if snd acc < counts et then (et, counts et) else acc)"

definition aggregate :: "ProbeErrType list \<Rightarrow> probe_result list \<Rightarrow> AggResult" where
  "aggregate order results =
     (if results = [] then
        \<lparr>a_Success = False, AvgRTT = 0, PacketLoss = 1, Results = [], DominantErrType = ProbeErrNone\<rparr>
      else
        let success = int (length (filter r_Success results));
            n = int (length results);
            totalRTT = foldl (\<lambda>t r. wrap64 (t + r_RTT r)) 0 (filter r_Success results);
            loss = fl (fl (of_int (n - success)) / fl (of_int n));
            ok = fl (1 / 2) < fl (fl (of_int success) / fl (of_int n));
            avgRTT = (if 0 < success then totalRTT sdiv success else 0);
            keys = filter (\<lambda>et. 0 < errCounts results et) order;
            dominant = fst (fold (dominant_step (errCounts results)) keys (ProbeErrOther, 0));
            dominant = (if success = n then ProbeErrNone else dominant)
        in \<lparr>a_Success = ok, AvgRTT = avgRTT, PacketLoss = loss, Results = results,
            DominantErrType = dominant\<rparr>)"

section \<open>A round of probes\<close>

fun outcomes :: "'a outcome list \<Rightarrow> 'a list outcome" where
  "outcomes [] = Return []"
| "outcomes (x # xs) = obind x (\<lambda>a. obind (outcomes xs) (\<lambda>as. Return (a # as)))"

text \<open>\<open>perm\<close> is the permutation \<open>rand.Perm\<close> draws.\<close>

definition selectTargets :: "nat list \<Rightarrow> DaemonConfig \<Rightarrow> ProbeTarget list" where
  "selectTargets perm cfg =
     (let targets = ProbeTargets cfg
      in if \<not> ProbeRotateTargets cfg \<or> length targets \<le> 1 then targets
         else let pool = ProbeTargetPool cfg;
                  pool = (if pool \<le> 0 \<or> int (length targets) \<le> pool
                          then int (length targets) else pool)
              in map (\<lambda>i. targets ! (perm ! i)) [0..<nat pool])"

definition probe_targets ::
  "ProbeErrType list \<Rightarrow> net_env \<Rightarrow> DaemonConfig \<Rightarrow> ProbeTarget list \<Rightarrow> 32 word \<Rightarrow> AggResult outcome" where
  "probe_targets order net cfg targets fwmark =
     (if targets = [] then
        Return \<lparr>a_Success = False, AvgRTT = 0, PacketLoss = 1, Results = [],
                DominantErrType = ProbeErrNone\<rparr>
      else obind (outcomes (map (\<lambda>t. runProbe net t fwmark cfg) targets))
             (\<lambda>results. Return (aggregate order results)))"

definition ProbeAll ::
  "nat list \<Rightarrow> ProbeErrType list \<Rightarrow> net_env \<Rightarrow> DaemonConfig \<Rightarrow> 32 word \<Rightarrow> AggResult outcome" where
  "ProbeAll perm order net cfg fwmark =
     probe_targets order net cfg (selectTargets perm cfg) fwmark"

section \<open>Lemmas\<close>

lemma fl_quotient_half:
  assumes "0 < n" and "n \<le> 2 ^ 52" and "0 \<le> s"
  shows "fl (1 / 2) < fl (of_int s / of_int n) \<longleftrightarrow> n < 2 * s"
proof
  assume "n < 2 * s"
  then have "of_int (n + 1) \<le> (of_int (2 * s) :: real)" by (simp only: of_int_le_iff)
  then have "(of_int n + 1) / (2 * of_int n) \<le> (2 * of_int s) / (2 * of_int n :: real)"
    using assms(1) by (intro divide_right_mono) simp_all
  moreover have "(2 ^ 52 + 1) / 2 ^ 53 \<le> (of_int n + 1) / (2 * of_int n :: real)"
    using assms(1,2) by (simp add: divide_simps)
  moreover have "(2 * of_int s) / (2 * of_int n) = of_int s / (of_int n :: real)" by simp
  ultimately have g: "(2 ^ 52 + 1) / 2 ^ 53 \<le> of_int s / (of_int n :: real)"
    by (metis order_trans)
  have e: "of_int (2 ^ 52 + 1) * 2 powi (- 53) = ((2 ^ 52 + 1) / 2 ^ 53 :: real)"
    by (simp only: power_int_minus divide_inverse of_int_add of_int_power of_int_numeral of_int_1
        power_int_numeral)
  have "fl (of_int (2 ^ 52 + 1) * 2 powi (- 53)) = of_int (2 ^ 52 + 1) * 2 powi (- 53)"
    by (rule fl_rep) simp_all
  then have "fl ((2 ^ 52 + 1) / 2 ^ 53) = (2 ^ 52 + 1) / 2 ^ 53"
    by (simp only: e)
  with fl_mono [OF g] show "fl (1 / 2) < fl (of_int s / of_int n)" by simp
next
  assume l: "fl (1 / 2) < fl (of_int s / of_int n)"
  show "n < 2 * s"
  proof (rule ccontr)
    assume "\<not> n < 2 * s"
    then have "of_int s / of_int n \<le> (1 / 2 :: real)"
      using assms(1) by (simp add: divide_simps flip: of_int_mult)
    from fl_mono [OF this] l show False by simp
  qed
qed

lemma fl_ratio_interval:
  assumes "0 \<le> s" and "s \<le> n" and "0 < n" and "n < 2 ^ 53"
  shows "0 \<le> fl (fl (of_int s) / fl (of_int n)) \<and> fl (fl (of_int s) / fl (of_int n)) \<le> 1"
  using assms by (intro fl_unit_interval) simp_all

lemma dominant_fold:
  "(\<forall>k\<in>set ks. f k \<le> snd (fold (dominant_step f) ks (e, c)))
   \<and> c \<le> snd (fold (dominant_step f) ks (e, c))
   \<and> (fold (dominant_step f) ks (e, c) = (e, c)
      \<or> snd (fold (dominant_step f) ks (e, c)) = f (fst (fold (dominant_step f) ks (e, c))))"
proof (induction ks arbitrary: e c)
  case (Cons k ks)
  show ?case
    using Cons.IH [of k "f k"] Cons.IH [of e c] by (auto simp: dominant_step_def)
qed simp

lemma errCounts_pos: "r \<in> set results \<Longrightarrow> \<not> r_Success r \<Longrightarrow> 0 < errCounts results (r_ErrType r)"
  by (auto simp: errCounts_def filter_empty_conv)

lemma length_filter_all: "length (filter P xs) = length xs \<longleftrightarrow> list_all P xs"
  by (induction xs) (auto simp: Suc_le_eq le_imp_less_Suc order.strict_implies_not_eq)

lemma outcomes_Return:
  "(\<And>x. x \<in> set xs \<Longrightarrow> \<exists>a. x = Return a) \<Longrightarrow> \<exists>as. outcomes xs = Return as \<and> xs = map Return as"
proof (induction xs)
  case (Cons x xs)
  from Cons.IH [OF Cons.prems] obtain as where "outcomes xs = Return as" "xs = map Return as"
    by auto
  moreover from Cons.prems [of x] obtain a where "x = Return a" by auto
  ultimately show ?case by (intro exI [of _ "a # as"]) simp
qed simp

text \<open>The documented behaviour of the system resolver: a lookup without an error has an address.\<close>

definition resolver_ok :: "net_env \<Rightarrow> bool" where
  "resolver_ok net \<longleftrightarrow> (\<forall>h. LookupHost net h \<noteq> Inr [])"

lemma lookupHost_nonempty:
  "resolver_ok net \<Longrightarrow> lookupHost net host fwmark cfg = Inr addrs \<Longrightarrow> addrs \<noteq> []"
  by (auto simp: lookupHost_def resolver_ok_def split: option.splits if_splits sum.splits)

lemma first_addr_Return: "addrs \<noteq> [] \<Longrightarrow> first_addr addrs = Return (hd addrs)"
  by (cases addrs) (simp_all add: first_addr_def)

lemma probe_Return:
  assumes "resolver_ok net"
  shows "\<exists>r. probeICMP net host fwmark cfg = Return r"
    and "\<exists>r. probeTCP net host port fwmark cfg = Return r"
    and "\<exists>r. probeHTTP net scheme host port fwmark cfg = Return r"
  using lookupHost_nonempty [OF assms, of host fwmark cfg]
  by (auto simp: probeICMP_def probeTCP_def probeHTTP_def Let_def first_addr_Return
      split: sum.splits option.splits)

lemma runProbe_Return:
  assumes "resolver_ok net"
  shows "\<exists>err. runProbe net tgt fwmark cfg
     = Return \<lparr>r_Target = tgt, r_Success = (err = None), r_RTT = Elapsed net tgt, r_Err = err,
         r_ErrType = classifyErr err\<rparr>"
proof -
  have "\<exists>err. (case pt_Type tgt of
              ProbeICMP \<Rightarrow> probeICMP net (pt_Host tgt) fwmark cfg
            | ProbeTCP \<Rightarrow> probeTCP net (pt_Host tgt) (pt_Port tgt) fwmark cfg
            | ProbeHTTP \<Rightarrow> probeHTTP net ''http'' (pt_Host tgt) (pt_Port tgt) fwmark cfg
            | ProbeHTTPS \<Rightarrow> probeHTTP net ''https'' (pt_Host tgt) (pt_Port tgt) fwmark cfg
            | OtherProbe t \<Rightarrow> Return (Some (ErrText (''unknown probe type: '' @ t)))) = Return err"
    by (cases "pt_Type tgt") (simp_all add: probe_Return [OF assms])
  then show ?thesis by (auto simp: runProbe_def)
qed

lemma runProbe_ex: "resolver_ok net \<Longrightarrow> \<exists>a. runProbe net tgt fwmark cfg = Return a"
  by (drule runProbe_Return [of net tgt fwmark cfg], erule exE, erule exI)

section \<open>Properties\<close>

text \<open>
  Majority vote. For up to \<open>2^52\<close> results, the float64 comparison of the success ratio
  with 0.5 says exactly that more than half of the probes succeeded.
\<close>

theorem aggregate_majority:
  assumes "length results \<le> 2 ^ 52"
  shows "a_Success (aggregate order results)
           \<longleftrightarrow> length results < 2 * length (filter r_Success results)"
proof (cases "results = []")
  case False
  let ?n = "int (length results)" and ?s = "int (length (filter r_Success results))"
  have n: "0 < ?n" "?n \<le> 2 ^ 52" using False assms by auto
  have "?s \<le> ?n" by simp
  moreover have "(2::int) ^ 52 < 2 ^ 53" by simp
  ultimately have "\<bar>?n\<bar> < 2 ^ 53 \<and> \<bar>?s\<bar> < 2 ^ 53"
    using n(2) by (intro conjI; simp only: abs_of_nat; linarith)
  then have "fl (of_int ?n) = of_int ?n" "fl (of_int ?s) = of_int ?s"
    by (simp_all only: fl_of_int)
  then show ?thesis
    using False fl_quotient_half [OF n, of ?s] by (simp add: aggregate_def Let_def) linarith
qed (simp add: aggregate_def)

lemma aggregate_majority_witness:
  "\<not> a_Success (aggregate [ProbeErrRST]
      [\<lparr>r_Target = zero_pt, r_Success = True, r_RTT = 5, r_Err = None, r_ErrType = ProbeErrNone\<rparr>,
       \<lparr>r_Target = zero_pt, r_Success = False, r_RTT = 7, r_Err = Some (ErrText []),
        r_ErrType = ProbeErrOther\<rparr>])"
  by (subst aggregate_majority) simp_all

text \<open>
  The packet loss of a round is a ratio in \<open>[0, 1]\<close>; it is 0 when every probe succeeded
  and 1 when none did, and a successful round has a loss below 1.
\<close>

theorem aggregate_loss:
  assumes "length results \<le> 2 ^ 52"
  shows "0 \<le> PacketLoss (aggregate order results) \<and> PacketLoss (aggregate order results) \<le> 1
    \<and> (list_all r_Success results \<and> results \<noteq> [] \<longrightarrow> PacketLoss (aggregate order results) = 0)
    \<and> (list_all (\<lambda>r. \<not> r_Success r) results \<longrightarrow> PacketLoss (aggregate order results) = 1)"
proof (cases "results = []")
  case False
  let ?n = "int (length results)" and ?s = "int (length (filter r_Success results))"
  have n: "0 < ?n" "?n < 2 ^ 53" using False assms by auto
  have "0 \<le> ?n - ?s" "?n - ?s \<le> ?n" by simp_all
  from fl_ratio_interval [OF this n]
  have "0 \<le> PacketLoss (aggregate order results) \<and> PacketLoss (aggregate order results) \<le> 1"
    using False by (simp add: aggregate_def Let_def)
  moreover have "PacketLoss (aggregate order results) = 0" if "list_all r_Success results"
    using that False length_filter_all [of r_Success results] by (simp add: aggregate_def Let_def)
  moreover have "PacketLoss (aggregate order results) = 1"
    if "list_all (\<lambda>r. \<not> r_Success r) results"
  proof -
    have "filter r_Success results = []" using that by (auto simp: filter_empty_conv list_all_iff)
    moreover have "fl (of_int ?n) = of_int ?n" using n by (intro fl_of_int) auto
    ultimately show ?thesis using False by (simp add: aggregate_def Let_def)
  qed
  ultimately show ?thesis by blast
qed (simp add: aggregate_def)

lemma aggregate_loss_witness:
  "PacketLoss (aggregate [] [\<lparr>r_Target = zero_pt, r_Success = True, r_RTT = 5, r_Err = None,
     r_ErrType = ProbeErrNone\<rparr>]) = 0"
  using aggregate_loss [of "[\<lparr>r_Target = zero_pt, r_Success = True, r_RTT = 5, r_Err = None,
     r_ErrType = ProbeErrNone\<rparr>]" "[]"] by simp

text \<open>
  The dominant failure class. In whatever order the map of counts is visited, if some
  probe failed then the reported class has occurred, and no class occurred more often.
\<close>

theorem dominant_most_frequent:
  assumes "\<And>e. e \<in> set order" and "r \<in> set results" and "\<not> r_Success r"
  shows "0 < errCounts results (DominantErrType (aggregate order results))
    \<and> errCounts results et \<le> errCounts results (DominantErrType (aggregate order results))"
proof -
  let ?f = "errCounts results"
  let ?acc = "fold (dominant_step ?f) (filter (\<lambda>e. 0 < ?f e) order) (ProbeErrOther, 0)"
  have ne: "results \<noteq> []" "\<not> list_all r_Success results"
    using assms(2,3) by (auto simp: list_all_iff)
  then have dom: "DominantErrType (aggregate order results) = fst ?acc"
    using length_filter_all [of r_Success results] by (simp add: aggregate_def Let_def)
  have up: "?f e \<le> snd ?acc" for e
    using dominant_fold [of "filter (\<lambda>e. 0 < ?f e) order" ?f ProbeErrOther 0] assms(1) [of e]
    by (cases "0 < ?f e") auto
  have pos: "0 < snd ?acc"
    using errCounts_pos [OF assms(2,3)] up [of "r_ErrType r"] by linarith
  have "snd ?acc = ?f (fst ?acc)"
    using dominant_fold [of "filter (\<lambda>e. 0 < ?f e) order" ?f ProbeErrOther 0] pos by auto
  with up [of et] pos dom show ?thesis by simp
qed

definition all_err_types :: "ProbeErrType list" where
  "all_err_types = [ProbeErrNone, ProbeErrTimeout, ProbeErrRST, ProbeErrTLSHandshake,
     ProbeErrHTTPReject, ProbeErrDNS, ProbeErrOther]"

lemma all_err_types_complete: "e \<in> set all_err_types"
  by (cases e) (simp_all add: all_err_types_def)

lemma dominant_most_frequent_witness:
  "let r = \<lparr>r_Target = zero_pt, r_Success = False, r_RTT = 7, r_Err = Some (DNSError False []),
        r_ErrType = ProbeErrDNS\<rparr>
   in 0 < errCounts [r] (DominantErrType (aggregate all_err_types [r]))"
  unfolding Let_def
  by (rule conjunct1 [OF dominant_most_frequent [OF all_err_types_complete, where r =
        "\<lparr>r_Target = zero_pt, r_Success = False, r_RTT = 7, r_Err = Some (DNSError False []),
          r_ErrType = ProbeErrDNS\<rparr>"]]) simp_all

text \<open>
  C38: a round of probes never panics, given that the resolver answers a lookup with an
  address or an error: the results come back in the order of the selected targets, each one
  successful exactly when its probe had no error, with that error's class.
\<close>

theorem probe_round_returns:
  assumes "resolver_ok net" and "targets \<noteq> []"
  shows "\<exists>results. probe_targets order net cfg targets fwmark = Return (aggregate order results)
    \<and> map r_Target results = targets
    \<and> (\<forall>r\<in>set results. r_Success r = (r_Err r = None) \<and> r_ErrType r = classifyErr (r_Err r))"
proof -
  let ?ps = "map (\<lambda>t. runProbe net t fwmark cfg) targets"
  have "\<exists>as. outcomes ?ps = Return as \<and> ?ps = map Return as"
    using runProbe_ex [OF assms(1)] by (intro outcomes_Return) auto
  then obtain as where as: "outcomes ?ps = Return as" "?ps = map Return as" by blast
  have len: "length as = length targets" using arg_cong [OF as(2), of length] by simp
  have each: "r_Target (as ! i) = targets ! i
      \<and> r_Success (as ! i) = (r_Err (as ! i) = None)
      \<and> r_ErrType (as ! i) = classifyErr (r_Err (as ! i))" if "i < length targets" for i
  proof -
    have "Return (as ! i) = runProbe net (targets ! i) fwmark cfg"
      using arg_cong [OF as(2), of "\<lambda>xs. xs ! i"] that len by simp
    moreover obtain err where "runProbe net (targets ! i) fwmark cfg
        = Return \<lparr>r_Target = targets ! i, r_Success = (err = None),
            r_RTT = Elapsed net (targets ! i), r_Err = err, r_ErrType = classifyErr err\<rparr>"
      using runProbe_Return [OF assms(1), of "targets ! i" fwmark cfg] by (elim exE)
    ultimately have "as ! i = \<lparr>r_Target = targets ! i, r_Success = (err = None),
        r_RTT = Elapsed net (targets ! i), r_Err = err, r_ErrType = classifyErr err\<rparr>"
      by (simp only: outcome.inject)
    then show ?thesis by (simp only: probe_result.simps)
  qed
  have "map r_Target as = targets" using each len by (intro nth_equalityI) auto
  moreover have "\<forall>r\<in>set as. r_Success r = (r_Err r = None) \<and> r_ErrType r = classifyErr (r_Err r)"
    using each len by (metis in_set_conv_nth)
  moreover have "probe_targets order net cfg targets fwmark = Return (aggregate order as)"
    using as(1) assms(2) by (simp add: probe_targets_def)
  ultimately show ?thesis by blast
qed

definition dead_net :: net_env where
  "dead_net = \<lparr>ParseIP = (\<lambda>h. if h = ''1.1.1.1'' then Some h else None),
     LookupHost = (\<lambda>h. Inl (DNSError False ''no such host'')),
     DoHQuery = (\<lambda>m e h. Inl (ErrText ''unreachable'')),
     DialTCP = (\<lambda>m a. Some (NetError True ''i/o timeout'')),
     HTTPHead = (\<lambda>m u h k. Some (NetError True ''i/o timeout'')),
     Elapsed = (\<lambda>t. second)\<rparr>"

lemma probe_round_returns_witness:
  "\<exists>results. probe_targets all_err_types dead_net DefaultDaemonConfig [zero_pt\<lparr>pt_Host := ''1.1.1.1'',
        pt_Type := ProbeICMP\<rparr>] 0 = Return (aggregate all_err_types results) \<and> length results = 1"
proof -
  have ok: "resolver_ok dead_net" by (simp add: resolver_ok_def dead_net_def)
  show ?thesis
    using probe_round_returns [OF ok, of "[zero_pt\<lparr>pt_Host := ''1.1.1.1'', pt_Type := ProbeICMP\<rparr>]"
        all_err_types DefaultDaemonConfig 0]
    by (metis length_map length_Cons list.size(3) One_nat_def list.distinct(1))
qed

text \<open>
  Target rotation. Whatever permutation is drawn, the selected targets are a
  sub-collection of the configured ones, of the size of the pool, or all of them when the pool
  is not positive or not smaller.
\<close>

theorem selectTargets_subset:
  assumes "mset perm = mset [0..<length (ProbeTargets cfg)]"
  shows "mset (selectTargets perm cfg) \<subseteq># mset (ProbeTargets cfg)
    \<and> length (selectTargets perm cfg)
        = (if ProbeRotateTargets cfg \<and> 1 < length (ProbeTargets cfg) \<and> 0 < ProbeTargetPool cfg
           then min (nat (ProbeTargetPool cfg)) (length (ProbeTargets cfg))
           else length (ProbeTargets cfg))"
proof -
  let ?ts = "ProbeTargets cfg"
  have lp: "length perm = length ?ts" using assms by (metis length_upt minus_nat.diff_0 size_mset)
  have all: "mset (map (\<lambda>j. ?ts ! j) perm) = mset ?ts"
    by (metis assms map_nth mset_map)
  have sub: "mset (map (\<lambda>i. ?ts ! (perm ! i)) [0..<k]) \<subseteq># mset ?ts" if "k \<le> length ?ts" for k
  proof -
    have "map (\<lambda>i. ?ts ! (perm ! i)) [0..<k] = take k (map (\<lambda>j. ?ts ! j) perm)"
      using that lp by (intro nth_equalityI) auto
    also have "mset \<dots> \<subseteq># mset (map (\<lambda>j. ?ts ! j) perm)"
      by (metis append_take_drop_id mset_append mset_subset_eq_add_left)
    finally show ?thesis by (simp only: all)
  qed
  show ?thesis
    using sub [of "nat (ProbeTargetPool cfg)"] sub [of "length ?ts"]
    by (auto simp: selectTargets_def Let_def)
qed

lemma selectTargets_subset_witness:
  "length (selectTargets [2, 0, 1] (DefaultDaemonConfig\<lparr>ProbeTargetPool := 2\<rparr>)) = 2"
  using selectTargets_subset [of "[2, 0, 1]" "DefaultDaemonConfig\<lparr>ProbeTargetPool := 2\<rparr>"]
  by (simp add: DefaultDaemonConfig_def upt_rec add.commute add.left_commute)

end
