(* ===== verification/Dpi_Detector.thy ===== *)
theory Dpi_Detector
  imports Config_Types Net_Errors
begin

text \<open>
  \<open>daemon/internal/dpi/detector.go\<close>: the differential connectivity test that classifies why a
  connection fails. \<open>detect_env\<close> holds what the network answers: the TCP dial with the time
  it took, the HTTP and the HTTPS HEAD request by mark and URL, and the clock.
\<close>

section \<open>Results\<close>

datatype BlockType = BlockNone | BlockTCP | BlockHTTP | BlockTLS | BlockProtocol | OtherBlock int

fun BlockType_String :: "BlockType \<Rightarrow> string" where
  "BlockType_String BlockNone = ''none''"
| "BlockType_String BlockTCP = ''tcp_block''"
| "BlockType_String BlockHTTP = ''http_dpi''"
| "BlockType_String BlockTLS = ''tls_dpi''"
| "BlockType_String BlockProtocol = ''protocol_dpi''"
| "BlockType_String (OtherBlock _) = ''unknown''"

record StageResult =
  s_Stage :: string
  s_Success :: bool
  s_ReasonCode :: string
  s_LatencyMS :: int
  s_Detail :: string
  s_Confidence :: float64

record DetectionResult =
  d_BlockType :: BlockType
  d_ReasonCode :: string
  d_Confidence :: float64
  d_Evidence :: "string list"
  d_StageResults :: "StageResult list"
  d_TestedAt :: gotime

definition zero_detection :: DetectionResult where
  "zero_detection = \<lparr>d_BlockType = BlockNone, d_ReasonCode = [], d_Confidence = 0, d_Evidence = [],
     d_StageResults = [], d_TestedAt = 0\<rparr>"

section \<open>Error classification\<close>

definition isRSTError :: "goerror option \<Rightarrow> bool" where
  "isRSTError err =
     (case err of
        None \<Rightarrow> False
      | Some e \<Rightarrow> (case as_op_error e of Some inner \<Rightarrow> errors_Is inner ECONNRESET | None \<Rightarrow> False))"

definition isTimeoutError :: "goerror option \<Rightarrow> bool" where
  "isTimeoutError err = (case err of None \<Rightarrow> False | Some e \<Rightarrow> as_net_timeout e = Some True)"

definition isConnRefusedError :: "goerror option \<Rightarrow> bool" where
  "isConnRefusedError err =
     (case err of
        None \<Rightarrow> False
      | Some e \<Rightarrow> (case as_op_error e of Some inner \<Rightarrow> errors_Is inner ECONNREFUSED | None \<Rightarrow> False))"

text \<open>The bytes of the dash the messages use.\<close>

definition dash :: string where
  "dash = '' '' @ map char_of [226, 128, 148 :: nat] @ '' ''"

definition ms_text :: "duration \<Rightarrow> string" where
  "ms_text elapsed = Itoa (Milliseconds elapsed) @ ''ms''"

definition classifyTCPError ::
  "goerror \<Rightarrow> duration \<Rightarrow> BlockType \<times> string \<times> float64 \<times> string list" where
  "classifyTCPError err elapsed =
     (if isRSTError (Some err) then
        (if elapsed < 200 * millisecond then
           (BlockProtocol, ''tcp_rst_fast'', fl 0.9,
            [''TCP RST in '' @ ms_text elapsed @ dash @ ''DPI RST injection (protocol signature block)''])
         else
           (BlockTCP, ''tcp_rst'', fl 0.8,
            [''TCP RST in '' @ ms_text elapsed @ dash @ ''hard TCP block'']))
      else if isConnRefusedError (Some err) then
        (BlockNone, ''tcp_refused'', fl 0.3,
         [''TCP ECONNREFUSED in '' @ ms_text elapsed @ dash @ ''port closed, not DPI''])
      else if isTimeoutError (Some err) then
        (BlockTCP, ''tcp_timeout'', fl 0.7,
         [''TCP timeout after '' @ ms_text elapsed @ dash @ ''hard IP/port block''])
      else
        (BlockTCP, ''tcp_connect_error'', fl 0.55,
         [''TCP error in '' @ ms_text elapsed @ '': '' @ ErrorText err]))"

definition classifyHTTPError :: "goerror option \<Rightarrow> string \<times> float64 \<times> string \<times> bool" where
  "classifyHTTPError err =
     (case err of
        None \<Rightarrow> (''ok'', fl 0.9, ''http probe passed'', False)
      | Some e \<Rightarrow>
          if isConnRefusedError err then
            (''http_unavailable'', fl 0.35,
             ''HTTP port refused (insufficient evidence for HTTP DPI)'', False)
          else if isRSTError err then
            (''http_rst'', fl 0.85, ''HTTP RST pattern suggests HTTP DPI'', True)
          else if isTimeoutError err then
            (''http_timeout'', fl 0.55,
             ''HTTP timeout (possible filtering or service unavailability)'', True)
          else (''http_probe_failed'', fl 0.4, ''HTTP probe failed: '' @ ErrorText e, False))"

definition classifyTLSError ::
  "goerror option \<Rightarrow> bool \<Rightarrow> BlockType \<times> string \<times> float64 \<times> string" where
  "classifyTLSError err httpOK =
     (case err of
        None \<Rightarrow> (BlockNone, ''ok'', fl 0.95, ''HTTPS probe passed'')
      | Some e \<Rightarrow>
          (let msg = ToLower (ErrorText e)
           in if Contains msg ''x509:'' \<or> Contains msg ''certificate'' then
                (BlockNone, ''tls_certificate_error'', fl 0.9,
                 ''HTTPS failed due to certificate/trust issue: '' @ ErrorText e)
              else if isRSTError err then
                (BlockTLS, ''tls_rst'', if httpOK then fl 0.7 else fl 0.5,
                 ''HTTPS reset while TCP reachable: '' @ ErrorText e)
              else if isTimeoutError err then
                (BlockTLS, ''tls_timeout'', if httpOK then fl 0.65 else fl 0.45,
                 ''HTTPS timeout while TCP reachable: '' @ ErrorText e)
              else
                (BlockTLS, ''tls_handshake_error'', if httpOK then fl 0.6 else fl 0.4,
                 ''HTTPS failed while TCP reachable: '' @ ErrorText e)))"

section \<open>Targets and ports\<close>

definition pickDetectionTarget :: "ProbeTarget list \<Rightarrow> ProbeTarget" where
  "pickDetectionTarget targets =
     (case find (\<lambda>t. pt_Type t = ProbeHTTPS) targets of
        Some t \<Rightarrow> t
      | None \<Rightarrow> (case find (\<lambda>t. pt_Type t = ProbeHTTP) targets of
                   Some t \<Rightarrow> t | None \<Rightarrow> hd targets))"

definition http_port :: "ProbeTarget \<Rightarrow> int" where
  "http_port t = (if pt_Port t = 0 then 80 else pt_Port t)"

fun http_ports_loop :: "string \<Rightarrow> ProbeTarget list \<Rightarrow> int list \<Rightarrow> int list" where
  "http_ports_loop host [] ports = ports"
| "http_ports_loop host (t # ts) ports =
     (if pt_Host t \<noteq> host \<or> pt_Type t \<noteq> ProbeHTTP then http_ports_loop host ts ports
      else let p = http_port t
           in http_ports_loop host ts (if p \<in> set ports then ports else ports @ [p]))"

text \<open>The set \<open>seen\<close> always holds exactly the ports collected so far.\<close>

definition detectionHTTPPorts :: "string \<Rightarrow> ProbeTarget list \<Rightarrow> int list" where
  "detectionHTTPPorts host targets = http_ports_loop host targets [80]"

section \<open>The detector\<close>

record detect_env =
  dt_now :: gotime
  dt_dial :: "32 word \<Rightarrow> string \<Rightarrow> goerror option \<times> duration"
  dt_http :: "32 word \<Rightarrow> string \<Rightarrow> goerror option"
  dt_https :: "32 word \<Rightarrow> string \<Rightarrow> goerror + int"

definition probeHTTPHead :: "detect_env \<Rightarrow> string \<Rightarrow> int \<Rightarrow> 32 word \<Rightarrow> goerror option" where
  "probeHTTPHead env host port fwmark =
     dt_http env fwmark (''http://'' @ host @ '':'' @ Itoa port @ ''/'')"

text \<open>The loop over the ports: whether one passed, the last port tried and its error.\<close>

fun http_loop ::
  "detect_env \<Rightarrow> string \<Rightarrow> 32 word \<Rightarrow> int list \<Rightarrow> int \<times> goerror option \<Rightarrow> bool \<times> int \<times> goerror option" where
  "http_loop env host fwmark [] (port, err) = (False, port, err)"
| "http_loop env host fwmark (p # ps) (port, err) =
     (case probeHTTPHead env host p fwmark of
        None \<Rightarrow> (True, p, None)
      | Some e \<Rightarrow> http_loop env host fwmark ps (p, Some e))"

definition ints_text :: "int list \<Rightarrow> string" where
  "ints_text ns = ''['' @ Join (map Itoa ns) '' '' @ '']''"

definition add_stage :: "StageResult \<Rightarrow> DetectionResult \<Rightarrow> DetectionResult" where
  "add_stage s r = r\<lparr>d_StageResults := d_StageResults r @ [s]\<rparr>"

definition add_evidence :: "string \<Rightarrow> DetectionResult \<Rightarrow> DetectionResult" where
  "add_evidence e r = r\<lparr>d_Evidence := d_Evidence r @ [e]\<rparr>"

definition conclude :: "BlockType \<Rightarrow> string \<Rightarrow> float64 \<Rightarrow> DetectionResult \<Rightarrow> DetectionResult" where
  "conclude bt reason conf r = r\<lparr>d_BlockType := bt, d_ReasonCode := reason, d_Confidence := conf\<rparr>"

definition https_step ::
  "detect_env \<Rightarrow> string \<Rightarrow> int \<Rightarrow> 32 word \<Rightarrow> bool \<Rightarrow> DetectionResult \<Rightarrow> DetectionResult" where
  "https_step env host port fwmark httpOK result =
     (case dt_https env fwmark (''https://'' @ host @ '':'' @ Itoa port @ ''/'') of
        Inl tlsErr \<Rightarrow>
          (let (blockType, reason, conf, detail) = classifyTLSError (Some tlsErr) httpOK
           in add_stage \<lparr>s_Stage = ''https_head'', s_Success = False, s_ReasonCode = reason,
                s_LatencyMS = 0, s_Detail = ErrorText tlsErr, s_Confidence = conf\<rparr>
              (add_evidence detail (conclude blockType reason conf result)))
      | Inr status \<Rightarrow>
          conclude BlockNone ''ok'' (if httpOK then fl 0.95 else 3 / 4)
            (add_stage \<lparr>s_Stage = ''https_head'', s_Success = True, s_ReasonCode = ''ok'',
                s_LatencyMS = 0, s_Detail = ''status='' @ Itoa status, s_Confidence = fl 0.9\<rparr>
              (add_evidence (''HTTPS HEAD OK: '' @ Itoa status @ dash @ ''no DPI detected'') result)))"

definition http_step ::
  "detect_env \<Rightarrow> ProbeTarget list \<Rightarrow> string \<Rightarrow> int \<Rightarrow> 32 word \<Rightarrow> DetectionResult \<Rightarrow> DetectionResult" where
  "http_step env targets host port fwmark result =
     (let httpPorts = detectionHTTPPorts host targets;
          (httpOK, httpPort, httpErr) = http_loop env host fwmark httpPorts (0, None)
      in if \<not> httpOK then
           (let (reason, conf, detail, likelyDPI) = classifyHTTPError httpErr;
                result = add_stage \<lparr>s_Stage = ''http_head'', s_Success = False,
                  s_ReasonCode = reason, s_LatencyMS = 0, s_Detail = detail,
                  s_Confidence = conf\<rparr> result;
                result = add_evidence (''HTTP HEAD failed on ports '' @ ints_text httpPorts
                  @ '': '' @ detail) result
            in if likelyDPI then conclude BlockHTTP reason conf result
               else https_step env host port fwmark False result)
         else
           https_step env host port fwmark True
             (add_stage \<lparr>s_Stage = ''http_head'', s_Success = True, s_ReasonCode = ''ok'',
                s_LatencyMS = 0, s_Detail = ''port='' @ Itoa httpPort, s_Confidence = fl 0.8\<rparr>
               (add_evidence (''HTTP HEAD OK on :'' @ Itoa httpPort) result)))"

definition Detect :: "detect_env \<Rightarrow> ProbeTarget list \<Rightarrow> 32 word \<Rightarrow> DetectionResult" where
  "Detect env targets fwmark =
     (let result = \<lparr>d_BlockType = BlockNone, d_ReasonCode = ''ok'', d_Confidence = fl 0.2,
            d_Evidence = [], d_StageResults = [], d_TestedAt = dt_now env\<rparr>
      in if targets = [] then
           add_stage \<lparr>s_Stage = ''precheck'', s_Success = False,
               s_ReasonCode = ''no_probe_targets'', s_LatencyMS = 0,
               s_Detail = ''probe target list is empty'', s_Confidence = fl 0.95\<rparr>
             (add_evidence ''no probe targets configured''
               (conclude BlockNone ''no_probe_targets'' (fl 0.95) result))
         else
           let target = pickDetectionTarget targets;
               host = pt_Host target;
               port = (if pt_Port target = 0 then 443 else pt_Port target);
               addr = host @ '':'' @ Itoa port;
               (tcpErr, tcpElapsed) = dt_dial env fwmark addr
           in case tcpErr of
                Some err \<Rightarrow>
                  (let (bt, reason, conf, evidence) = classifyTCPError err tcpElapsed
                   in add_stage \<lparr>s_Stage = ''tcp_connect'', s_Success = False,
                        s_ReasonCode = reason, s_LatencyMS = Milliseconds tcpElapsed,
                        s_Detail = ''dial '' @ addr @ '' failed: '' @ ErrorText err,
                        s_Confidence = conf\<rparr>
                      ((conclude bt reason conf result)\<lparr>d_Evidence := evidence\<rparr>))
              | None \<Rightarrow>
                  http_step env targets host port fwmark
                    (add_stage \<lparr>s_Stage = ''tcp_connect'', s_Success = True,
                        s_ReasonCode = ''ok'', s_LatencyMS = Milliseconds tcpElapsed,
                        s_Detail = ''dial '' @ addr @ '' succeeded'', s_Confidence = fl 0.9\<rparr>
                      (add_evidence (''TCP connect OK to '' @ addr @ '' in '' @ ms_text tcpElapsed)
                        result)))"

text \<open>The supplementary check; \<open>bad\<close> is the text of the parse error of the endpoint.\<close>

definition DetectProtocolBlock ::
  "detect_env \<Rightarrow> (string \<Rightarrow> string) \<Rightarrow> string \<Rightarrow> string \<Rightarrow> 32 word \<Rightarrow> bool \<times> string" where
  "DetectProtocolBlock env bad endpoint protocol fwmark =
     (case SplitHostPort endpoint of
        None \<Rightarrow> (False, bad endpoint)
      | Some (host, portStr) \<Rightarrow>
          (case fst (dt_dial env fwmark (JoinHostPort host portStr)) of
             Some err \<Rightarrow>
               if isRSTError (Some err)
               then (True, ''TCP RST to '' @ endpoint @ dash @ ''DPI blocking '' @ protocol @ '' protocol port'')
               else (False, ''TCP timeout to '' @ endpoint @ dash @ ''may be firewall, not DPI'')
           | None \<Rightarrow>
               (False, ''TCP OK to '' @ endpoint @ dash @ ''DPI may target '' @ protocol
                  @ '' protocol signature (not port)'')))"

section \<open>The saved detection\<close>

definition SaveDetection :: "bool \<Rightarrow> DetectionResult \<Rightarrow> DetectionResult json_file \<Rightarrow> DetectionResult json_file" where
  "SaveDetection writable r file = (if writable then JSON r else file)"

definition LoadDetection :: "DetectionResult json_file \<Rightarrow> DetectionResult \<times> bool" where
  "LoadDetection file = (case file of JSON r \<Rightarrow> (r, True) | _ \<Rightarrow> (zero_detection, False))"

section \<open>Lemmas\<close>

lemmas step_defs = add_stage_def add_evidence_def conclude_def

lemma classifyTCPError_table:
  "classifyTCPError err elapsed = (bt, reason, conf, evidence) \<Longrightarrow>
   (bt, reason, conf) =
     (if isRSTError (Some err) \<and> elapsed < 200 * millisecond
        then (BlockProtocol, ''tcp_rst_fast'', fl 0.9)
      else if isRSTError (Some err) then (BlockTCP, ''tcp_rst'', fl 0.8)
      else if isConnRefusedError (Some err) then (BlockNone, ''tcp_refused'', fl 0.3)
      else if isTimeoutError (Some err) then (BlockTCP, ''tcp_timeout'', fl 0.7)
      else (BlockTCP, ''tcp_connect_error'', fl 0.55))"
  unfolding classifyTCPError_def by (simp split: if_splits)

lemma rst_not_refused: "isRSTError err \<Longrightarrow> \<not> isConnRefusedError err"
  by (auto simp: isRSTError_def isConnRefusedError_def split: option.splits dest: errno_unique)

lemma http_ports_loop_props:
  "distinct ports \<Longrightarrow> distinct (http_ports_loop host ts ports)
   \<and> take (length ports) (http_ports_loop host ts ports) = ports
   \<and> set (http_ports_loop host ts ports)
       = set ports \<union> http_port ` {t \<in> set ts. pt_Host t = host \<and> pt_Type t = ProbeHTTP}"
proof (induction ts arbitrary: ports)
  case (Cons t ts)
  let ?hits = "\<lambda>ts. http_port ` {t \<in> set ts. pt_Host t = host \<and> pt_Type t = ProbeHTTP}"
  show ?case
  proof (cases "pt_Host t = host \<and> pt_Type t = ProbeHTTP")
    case True
    then have hits: "?hits (t # ts) = insert (http_port t) (?hits ts)" by auto
    show ?thesis
    proof (cases "http_port t \<in> set ports")
      case True
      with \<open>pt_Host t = host \<and> _\<close> Cons.IH [OF Cons.prems] show ?thesis unfolding hits by auto
    next
      case False
      with Cons.prems have d: "distinct (ports @ [http_port t])" by simp
      let ?l = "http_ports_loop host ts (ports @ [http_port t])"
      have "take (length ports) (take (length (ports @ [http_port t])) ?l) = ports"
        using Cons.IH [OF d] by (metis append_eq_conv_conj)
      then have "take (length ports) ?l = ports" by (simp add: min_def)
      with False Cons.IH [OF d] \<open>pt_Host t = host \<and> _\<close> show ?thesis unfolding hits by auto
    qed
  next
    case False
    then have hits: "?hits (t # ts) = ?hits ts" by auto
    show ?thesis using False Cons.IH [OF Cons.prems] unfolding hits by auto
  qed
qed simp

lemma http_loop_any:
  "fst (http_loop env host fwmark ps acc) \<longleftrightarrow> (\<exists>p\<in>set ps. probeHTTPHead env host p fwmark = None)"
proof (induction ps arbitrary: acc)
  case (Cons p ps)
  then show ?case by (cases acc) (auto split: option.splits)
qed (metis (mono_tags, lifting) fst_conv http_loop.simps(1) list.set(1) empty_iff prod.collapse)

lemma http_loop_last:
  "\<not> fst (http_loop env host fwmark ps acc) \<Longrightarrow> ps \<noteq> [] \<Longrightarrow>
   http_loop env host fwmark ps acc = (False, last ps, probeHTTPHead env host (last ps) fwmark)"
proof (induction ps arbitrary: acc)
  case (Cons p ps)
  then show ?case by (cases acc; cases ps) (auto split: option.splits)
qed simp

lemma detectionHTTPPorts_nonempty: "detectionHTTPPorts host targets \<noteq> []"
  using http_ports_loop_props [of "[80]" host targets] by (auto simp: detectionHTTPPorts_def)

text \<open>What one run looks like to the classification: the verdict on HTTP and the error of HTTPS.\<close>

definition http_blocked :: "detect_env \<Rightarrow> ProbeTarget list \<Rightarrow> string \<Rightarrow> 32 word \<Rightarrow> bool" where
  "http_blocked env targets host fwmark \<longleftrightarrow>
     (let ps = detectionHTTPPorts host targets; err = probeHTTPHead env host (last ps) fwmark
      in list_all (\<lambda>p. probeHTTPHead env host p fwmark \<noteq> None) ps
         \<and> \<not> isConnRefusedError err \<and> (isRSTError err \<or> isTimeoutError err))"

definition certificate_error :: "goerror \<Rightarrow> bool" where
  "certificate_error e \<longleftrightarrow>
     Contains (ToLower (ErrorText e)) ''x509:'' \<or> Contains (ToLower (ErrorText e)) ''certificate''"

lemma classifyHTTP_likely:
  "snd (snd (snd (classifyHTTPError (Some e)))) \<longleftrightarrow>
     \<not> isConnRefusedError (Some e) \<and> (isRSTError (Some e) \<or> isTimeoutError (Some e))"
  by (simp add: classifyHTTPError_def)

lemma classifyTLS_block:
  "fst (classifyTLSError (Some e) ok) = (if certificate_error e then BlockNone else BlockTLS)"
  by (simp add: classifyTLSError_def certificate_error_def Let_def)

lemma http_step_failed:
  assumes "\<not> fst (http_loop env host fwmark (detectionHTTPPorts host targets) (0, None))"
  obtains reason conf r s where
    "http_step env targets host port fwmark result
       = (if http_blocked env targets host fwmark then conclude BlockHTTP reason conf r
          else https_step env host port fwmark False r)"
    "http_blocked env targets host fwmark \<Longrightarrow>
       reason \<in> {''http_rst'', ''http_timeout''} \<and> conf \<in> {fl 0.85, fl 0.55}"
    "d_StageResults r = d_StageResults result @ [s]" "s_Stage s = ''http_head''"
    "\<not> s_Success s" "s_ReasonCode s = reason"
proof -
  let ?ps = "detectionHTTPPorts host targets"
  let ?err = "probeHTTPHead env host (last ?ps) fwmark"
  have l: "http_loop env host fwmark ?ps (0, None) = (False, last ?ps, ?err)"
    using http_loop_last [OF assms detectionHTTPPorts_nonempty] .
  from assms have all: "\<forall>p\<in>set ?ps. probeHTTPHead env host p fwmark \<noteq> None"
    by (simp only: http_loop_any) simp
  then obtain e where e: "?err = Some e"
    using detectionHTTPPorts_nonempty last_in_set by blast
  obtain reason conf detail likely where c: "classifyHTTPError (Some e) = (reason, conf, detail, likely)"
    using prod_cases4 by blast
  have likely: "likely \<longleftrightarrow> http_blocked env targets host fwmark"
    using classifyHTTP_likely [of e] c e all
    by (simp add: http_blocked_def Let_def list_all_iff)
  let ?s = "\<lparr>s_Stage = ''http_head'', s_Success = False, s_ReasonCode = reason, s_LatencyMS = 0,
    s_Detail = detail, s_Confidence = conf\<rparr>"
  let ?r = "add_evidence (''HTTP HEAD failed on ports '' @ ints_text ?ps @ '': '' @ detail)
    (add_stage ?s result)"
  show thesis
  proof (rule that [of reason conf ?r ?s])
    show "http_step env targets host port fwmark result
       = (if http_blocked env targets host fwmark then conclude BlockHTTP reason conf ?r
          else https_step env host port fwmark False ?r)"
      by (simp add: http_step_def l e c likely)
    show "reason \<in> {''http_rst'', ''http_timeout''} \<and> conf \<in> {fl 0.85, fl 0.55}"
      if "http_blocked env targets host fwmark"
      using c likely that by (auto simp: classifyHTTPError_def split: if_splits)
  qed (simp_all add: step_defs)
qed

lemma http_step_cases:
  obtains
    (blocked) reason conf r s where "http_blocked env targets host fwmark"
      "http_step env targets host port fwmark result = conclude BlockHTTP reason conf r"
      "reason \<in> {''http_rst'', ''http_timeout''}" "conf \<in> {fl 0.85, fl 0.55}"
      "d_StageResults r = d_StageResults result @ [s]" "s_Stage s = ''http_head''"
      "\<not> s_Success s" "s_ReasonCode s = reason"
  | (goes_on) r s ok where "\<not> http_blocked env targets host fwmark"
      "http_step env targets host port fwmark result = https_step env host port fwmark ok r"
      "d_StageResults r = d_StageResults result @ [s]" "s_Stage s = ''http_head''"
      "s_Success s = ok"
      "ok \<longleftrightarrow> (\<exists>p\<in>set (detectionHTTPPorts host targets). probeHTTPHead env host p fwmark = None)"
proof -
  let ?l = "http_loop env host fwmark (detectionHTTPPorts host targets) (0, None)"
  show thesis
  proof (cases "fst ?l")
    case True
    then obtain n e where l: "?l = (True, n, e)" by (metis fst_conv prod.collapse)
    from True have any: "\<exists>p\<in>set (detectionHTTPPorts host targets). probeHTTPHead env host p fwmark = None"
      by (simp only: http_loop_any)
    then have "\<not> http_blocked env targets host fwmark"
      by (auto simp: http_blocked_def Let_def list_all_iff)
    with any l show thesis by (intro goes_on) (auto simp: http_step_def step_defs)
  next
    case False
    then have none: "\<not> (\<exists>p\<in>set (detectionHTTPPorts host targets). probeHTTPHead env host p fwmark = None)"
      by (simp add: http_loop_any)
    show thesis
    proof (rule http_step_failed [OF False, where port = port and result = result])
      fix reason conf r s
      assume "http_step env targets host port fwmark result
          = (if http_blocked env targets host fwmark then conclude BlockHTTP reason conf r
             else https_step env host port fwmark False r)"
        and "http_blocked env targets host fwmark \<Longrightarrow>
          reason \<in> {''http_rst'', ''http_timeout''} \<and> conf \<in> {fl 0.85, fl 0.55}"
        and "d_StageResults r = d_StageResults result @ [s]" "s_Stage s = ''http_head''"
          "\<not> s_Success s" "s_ReasonCode s = reason"
      then show thesis
        using blocked goes_on none by (cases "http_blocked env targets host fwmark") simp_all
    qed
  qed
qed

lemma https_step_result:
  "d_BlockType (https_step env host port fwmark ok r)
     = (case dt_https env fwmark (''https://'' @ host @ '':'' @ Itoa port @ ''/'') of
          Inl e \<Rightarrow> if certificate_error e then BlockNone else BlockTLS | Inr _ \<Rightarrow> BlockNone)
   \<and> (d_ReasonCode (https_step env host port fwmark ok r) = ''ok''
      \<longleftrightarrow> (\<exists>st. dt_https env fwmark (''https://'' @ host @ '':'' @ Itoa port @ ''/'') = Inr st))
   \<and> (\<exists>s. d_StageResults (https_step env host port fwmark ok r) = d_StageResults r @ [s]
        \<and> s_Stage s = ''https_head'' \<and> s_ReasonCode s = d_ReasonCode (https_step env host port fwmark ok r))
   \<and> d_Confidence (https_step env host port fwmark ok r)
        \<in> {fl 0.9, fl 0.7, fl 0.5, fl 0.65, fl 0.45, fl 0.6, fl 0.4, fl 0.95, 3 / 4}"
proof (cases "dt_https env fwmark (''https://'' @ host @ '':'' @ Itoa port @ ''/'')")
  case (Inl e)
  then show ?thesis
    using classifyTLS_block [of e ok]
    by (auto simp: https_step_def step_defs classifyTLSError_def Let_def split: if_splits)
qed (simp add: https_step_def step_defs)

section \<open>Properties\<close>

definition dial_of :: "detect_env \<Rightarrow> ProbeTarget list \<Rightarrow> 32 word \<Rightarrow> goerror option \<times> duration" where
  "dial_of env targets fwmark =
     (let t = pickDetectionTarget targets
      in dt_dial env fwmark (pt_Host t @ '':'' @ Itoa (if pt_Port t = 0 then 443 else pt_Port t)))"

definition https_of :: "detect_env \<Rightarrow> ProbeTarget list \<Rightarrow> 32 word \<Rightarrow> goerror + int" where
  "https_of env targets fwmark =
     (let t = pickDetectionTarget targets
      in dt_https env fwmark (''https://'' @ pt_Host t @ '':''
           @ Itoa (if pt_Port t = 0 then 443 else pt_Port t) @ ''/''))"

lemma Detect_dialed:
  assumes "targets \<noteq> []" and "fst (dial_of env targets fwmark) = None"
  obtains r s where
    "Detect env targets fwmark = http_step env targets (pt_Host (pickDetectionTarget targets))
       (if pt_Port (pickDetectionTarget targets) = 0 then 443
        else pt_Port (pickDetectionTarget targets)) fwmark r"
    "d_StageResults r = [s]" "s_Stage s = ''tcp_connect''" "s_Success s"
  using assms by (cases "dial_of env targets fwmark")
    (simp add: Detect_def dial_of_def Let_def step_defs)

lemma Detect_undialed:
  assumes "targets \<noteq> []" and "dial_of env targets fwmark = (Some err, el)"
    and "classifyTCPError err el = (bt, reason, conf, evidence)"
  shows "d_BlockType (Detect env targets fwmark) = bt
    \<and> d_ReasonCode (Detect env targets fwmark) = reason
    \<and> d_Confidence (Detect env targets fwmark) = conf
    \<and> (\<exists>s. d_StageResults (Detect env targets fwmark) = [s] \<and> s_Stage s = ''tcp_connect''
          \<and> \<not> s_Success s \<and> s_ReasonCode s = reason)"
  using assms by (simp add: Detect_def dial_of_def Let_def step_defs)

abbreviation target_host :: "ProbeTarget list \<Rightarrow> string" where
  "target_host targets \<equiv> pt_Host (pickDetectionTarget targets)"

abbreviation target_port :: "ProbeTarget list \<Rightarrow> int" where
  "target_port targets \<equiv> (if pt_Port (pickDetectionTarget targets) = 0 then 443
     else pt_Port (pickDetectionTarget targets))"

text \<open>The four ways a run with a target can end.\<close>

lemma Detect_cases:
  obtains
    (no_target) "targets = []"
  | (undialed) e el bt reason conf ev where "targets \<noteq> []" "dial_of env targets m = (Some e, el)"
      "classifyTCPError e el = (bt, reason, conf, ev)" "d_BlockType (Detect env targets m) = bt"
      "d_ReasonCode (Detect env targets m) = reason" "d_Confidence (Detect env targets m) = conf"
      "\<exists>s. d_StageResults (Detect env targets m) = [s] \<and> s_Stage s = ''tcp_connect''
         \<and> s_ReasonCode s = reason"
  | (blocked) s s' where "targets \<noteq> []" "fst (dial_of env targets m) = None"
      "http_blocked env targets (target_host targets) m" "d_BlockType (Detect env targets m) = BlockHTTP"
      "d_ReasonCode (Detect env targets m) \<in> {''http_rst'', ''http_timeout''}"
      "d_Confidence (Detect env targets m) \<in> {fl 0.85, fl 0.55}"
      "d_StageResults (Detect env targets m) = [s, s']" "s_Stage s = ''tcp_connect''"
      "s_Stage s' = ''http_head''" "s_ReasonCode s' = d_ReasonCode (Detect env targets m)"
  | (answered) r s s' ok where "targets \<noteq> []" "fst (dial_of env targets m) = None"
      "\<not> http_blocked env targets (target_host targets) m"
      "Detect env targets m = https_step env (target_host targets) (target_port targets) m ok r"
      "d_StageResults r = [s, s']" "s_Stage s = ''tcp_connect''" "s_Stage s' = ''http_head''"
proof (cases "targets = []")
  case ne: False
  show thesis
  proof (cases "fst (dial_of env targets m)")
    case None
    obtain r s where r: "Detect env targets m
        = http_step env targets (target_host targets) (target_port targets) m r"
        "d_StageResults r = [s]" "s_Stage s = ''tcp_connect''"
      using Detect_dialed [OF ne None] by metis
    show thesis
    proof (cases rule: http_step_cases [of env targets "target_host targets" m "target_port targets" r])
      case (blocked reason conf r' s')
      with ne None r show thesis by (intro that(3)) (auto simp: conclude_def)
    next
      case (goes_on r' s' ok)
      with ne None r show thesis by (intro that(4)) auto
    qed
  next
    case (Some e)
    then obtain el where d: "dial_of env targets m = (Some e, el)" by (metis prod.collapse)
    obtain bt reason conf ev where c: "classifyTCPError e el = (bt, reason, conf, ev)"
      using prod_cases4 by blast
    from Detect_undialed [OF ne d c] show thesis by (intro that(2) [OF ne d c]) auto
  qed
qed (rule that(1))

lemma answered_block_type:
  assumes "Detect env targets m = https_step env (target_host targets) (target_port targets) m ok r"
  shows "d_BlockType (Detect env targets m) = (case https_of env targets m of
        Inl e \<Rightarrow> if certificate_error e then BlockNone else BlockTLS | Inr _ \<Rightarrow> BlockNone)"
    and "d_ReasonCode (Detect env targets m) = ''ok'' \<longleftrightarrow> (\<exists>st. https_of env targets m = Inr st)"
  using https_step_result [of env "target_host targets" "target_port targets" m ok r]
  unfolding assms https_of_def Let_def by simp_all

text \<open>
  C5: what each verdict means. With a target to test, a fast reset of the dial is the only
  protocol block, any other failed dial that is not a refusal is a TCP block; HTTP is blamed
  exactly when the dial succeeded, every HTTP port failed and the last port's failure was a
  reset or a timeout and no refusal; TLS exactly when neither is and HTTPS failed for
  something other than a certificate.
\<close>

theorem detect_block_type:
  assumes "targets \<noteq> []"
  shows "(d_BlockType (Detect env targets m) = BlockProtocol \<longleftrightarrow>
        (\<exists>e el. dial_of env targets m = (Some e, el) \<and> isRSTError (Some e) \<and> el < 200 * millisecond))
    \<and> (d_BlockType (Detect env targets m) = BlockTCP \<longleftrightarrow>
        (\<exists>e el. dial_of env targets m = (Some e, el) \<and> \<not> isConnRefusedError (Some e)
           \<and> \<not> (isRSTError (Some e) \<and> el < 200 * millisecond)))
    \<and> (d_BlockType (Detect env targets m) = BlockHTTP \<longleftrightarrow>
        fst (dial_of env targets m) = None
        \<and> http_blocked env targets (pt_Host (pickDetectionTarget targets)) m)
    \<and> (d_BlockType (Detect env targets m) = BlockTLS \<longleftrightarrow>
        fst (dial_of env targets m) = None
        \<and> \<not> http_blocked env targets (pt_Host (pickDetectionTarget targets)) m
        \<and> (\<exists>e. https_of env targets m = Inl e \<and> \<not> certificate_error e))"
proof (cases rule: Detect_cases [where targets = targets and env = env and m = m])
  case (undialed e el bt reason conf ev)
  have "bt = (if isRSTError (Some e) \<and> el < 200 * millisecond then BlockProtocol
      else if isConnRefusedError (Some e) then BlockNone else BlockTCP)"
    using classifyTCPError_table [OF undialed(3)] rst_not_refused [of "Some e"]
    by (simp split: if_splits)
  then show ?thesis
    using undialed(2,4) rst_not_refused [of "Some e"] by simp
next
  case (answered r s s' ok)
  then show ?thesis
    using answered_block_type(1) [OF answered(4)] by (cases "https_of env targets m") auto
qed (use assms in auto)

definition quiet_net :: "(32 word \<Rightarrow> string \<Rightarrow> goerror + int) \<Rightarrow> detect_env" where
  "quiet_net https = \<lparr>dt_now = 1, dt_dial = (\<lambda>m a. (None, 5 * millisecond)),
     dt_http = (\<lambda>m u. None), dt_https = https\<rparr>"

definition tls_filter :: detect_env where
  "tls_filter = quiet_net (\<lambda>m u. Inl (OpError (Errno ECONNRESET ''connection reset by peer'')
     ''read tcp: connection reset by peer''))"

definition one_target :: ProbeTarget where
  "one_target = \<lparr>pt_Host = ''example.org'', pt_Port = 0, pt_Type = ProbeHTTPS, pt_Timeout = 0\<rparr>"

lemma detect_block_type_witness: "d_BlockType (Detect tls_filter [one_target] 7) = BlockTLS"
proof -
  have d: "fst (dial_of tls_filter [one_target] 7) = None"
    by (simp add: dial_of_def tls_filter_def quiet_net_def Let_def)
  have h: "\<not> http_blocked tls_filter [one_target] (pt_Host (pickDetectionTarget [one_target])) 7"
    by (simp add: http_blocked_def tls_filter_def quiet_net_def Let_def probeHTTPHead_def isRSTError_def
        isTimeoutError_def)
  have "\<exists>e. https_of tls_filter [one_target] 7 = Inl e \<and> \<not> certificate_error e"
    by (simp add: https_of_def tls_filter_def quiet_net_def Let_def) code_simp
  with d h detect_block_type [of "[one_target]" tls_filter 7] show ?thesis by blast
qed

text \<open>
  The reason is ''ok'' exactly when there is a target, the dial succeeded, HTTP is not
  blocked and the HTTPS request was answered.
\<close>

theorem detect_ok_iff:
  "d_ReasonCode (Detect env targets m) = ''ok'' \<longleftrightarrow>
     targets \<noteq> [] \<and> fst (dial_of env targets m) = None
     \<and> \<not> http_blocked env targets (pt_Host (pickDetectionTarget targets)) m
     \<and> (\<exists>status. https_of env targets m = Inr status)"
proof (cases rule: Detect_cases [where targets = targets and env = env and m = m])
  case (undialed e el bt reason conf ev)
  then show ?thesis using classifyTCPError_table [OF undialed(3)] by (auto split: if_splits)
next
  case (answered r s s' ok)
  then show ?thesis using answered_block_type(2) [OF answered(4)] by simp
qed (auto simp: Detect_def step_defs)

text \<open>
  The stages of a run come in the order of the sequence, none is skipped, and the verdict
  carries the reason of the last one with a confidence in \<open>(0, 1]\<close>.
\<close>

theorem detect_stages:
  "(map s_Stage (d_StageResults (Detect env targets m)) = [''precheck'']
     \<or> (\<exists>k\<in>{1, 2, 3}. map s_Stage (d_StageResults (Detect env targets m))
          = take k [''tcp_connect'', ''http_head'', ''https_head'']))
   \<and> d_ReasonCode (Detect env targets m) = s_ReasonCode (last (d_StageResults (Detect env targets m)))
   \<and> 0 < d_Confidence (Detect env targets m) \<and> d_Confidence (Detect env targets m) \<le> 1"
proof (cases rule: Detect_cases [where targets = targets and env = env and m = m])
  case no_target
  then show ?thesis by (simp add: Detect_def step_defs fl_lits)
next
  case (undialed e el bt reason conf ev)
  have "0 < conf \<and> conf \<le> 1"
    using classifyTCPError_table [OF undialed(3)] by (auto simp: fl_lits split: if_splits)
  with undialed show ?thesis by auto
next
  case (blocked s s')
  then show ?thesis by (auto simp: fl_lits)
next
  case (answered r s s' ok)
  note res = https_step_result [of env "target_host targets" "target_port targets" m ok r,
      folded answered(4)]
  then have "0 < d_Confidence (Detect env targets m) \<and> d_Confidence (Detect env targets m) \<le> 1"
    by (auto simp: fl_lits)
  moreover obtain s'' where "d_StageResults (Detect env targets m) = [s, s', s'']"
      "s_Stage s'' = ''https_head''" "s_ReasonCode s'' = d_ReasonCode (Detect env targets m)"
    using res answered(5) by auto
  ultimately show ?thesis using answered(6,7) by auto
qed

text \<open>The only reason a protocol verdict has.\<close>

lemma Detect_protocol_reason:
  assumes "d_BlockType (Detect env targets m) = BlockProtocol"
  shows "d_ReasonCode (Detect env targets m) = ''tcp_rst_fast''"
proof (cases rule: Detect_cases [where targets = targets and env = env and m = m])
  case (undialed e el bt reason conf ev)
  then show ?thesis using assms classifyTCPError_table [OF undialed(3)] by (simp split: if_splits)
next
  case (answered r s s' ok)
  then show ?thesis
    using assms answered_block_type(1) [OF answered(4)] by (simp split: sum.splits if_splits)
qed (use assms in \<open>auto simp: Detect_def step_defs\<close>)

end
