(* ===== verification/Dpi_Variants.thy ===== *)
theory Dpi_Variants
  imports Dpi_Detector
begin

text \<open>
  \<open>daemon/internal/dpi/variants.go\<close>: the mutated copies of a tunnel that the switch engine
  tries against DPI. A Go copy of a struct with its pointed-to parts is the value itself, as
  \<open>Dpi_Clones\<close> justifies. The numbers \<open>rnd.Int31()\<close> draws for the headers are the argument
  \<open>draws\<close>, in drawing order.
\<close>

section \<open>Tables\<close>

record awgProfile =
  prof_name :: string
  jc :: int
  jmin :: int
  jmax :: int
  s1 :: int
  s2 :: int
  h1 :: int
  h2 :: int
  h3 :: int
  h4 :: int

definition awgProfiles :: "awgProfile list" where
  "awgProfiles =
     [\<lparr>prof_name = ''mild'', jc = 2, jmin = 20, jmax = 50, s1 = 0, s2 = 0,
       h1 = 0, h2 = 0, h3 = 0, h4 = 0\<rparr>,
      \<lparr>prof_name = ''moderate'', jc = 4, jmin = 40, jmax = 70, s1 = 0, s2 = 0,
       h1 = 1262700631, h2 = 1752251508, h3 = 1346454851, h4 = 1532746439\<rparr>,
      \<lparr>prof_name = ''aggressive'', jc = 7, jmin = 50, jmax = 100, s1 = 10, s2 = 10,
       h1 = 904958478, h2 = 1153565019, h3 = 1750837079, h4 = 1009857588\<rparr>]"

definition mtuVariants :: "int list" where "mtuVariants = [1200, 1280, 1360]"

definition endpointPortVariants :: "int list" where "endpointPortVariants = [443, 80, 53]"

definition vlessFingerprints :: "string list" where
  "vlessFingerprints = [''chrome'', ''firefox'', ''safari'', ''ios'', ''android'', ''360'']"

definition vlessTransports :: "string list" where
  "vlessTransports = [''ws'', ''grpc'', ''httpupgrade'', ''tcp'', ''quic'', ''h3'']"

definition vlessPathVariants :: "string list" where
  "vlessPathVariants = [''/'', ''/cdn-cgi/trace'', ''/api'', ''/v1'', ''grpc'']"

lemmas tables = awgProfiles_def mtuVariants_def endpointPortVariants_def vlessFingerprints_def
  vlessTransports_def vlessPathVariants_def

section \<open>Endpoints and paths\<close>

definition splitEndpointHostPort :: "string \<Rightarrow> string \<times> int \<times> bool" where
  "splitEndpointHostPort endpoint =
     (let hp = (case SplitHostPort endpoint of
                  Some (h, p) \<Rightarrow> Some (h, p)
                | None \<Rightarrow>
                    (let idx = LastIndexByte endpoint (CHR '':'')
                     in if idx \<le> 0 \<or> int (length endpoint) \<le> idx + 1 then None
                        else Some (upto_index idx endpoint, from_index (idx + 1) endpoint)))
      in case hp of
           None \<Rightarrow> ([], 0, False)
         | Some (h, p) \<Rightarrow>
             (let (portNum, err) = Atoi (TrimSpace p)
              in if err \<or> portNum \<le> 0 \<or> 65535 < portNum then ([], 0, False)
                 else (h, portNum, True)))"

definition joinEndpointHostPort :: "string \<Rightarrow> int \<Rightarrow> string" where
  "joinEndpointHostPort host port = JoinHostPort host (Itoa port)"

definition normalizeTransportPath :: "string \<Rightarrow> string \<Rightarrow> string" where
  "normalizeTransportPath transport path =
     (let p = TrimSpace path;
          p = (if p = [] then ''/'' else p)
      in if transport = ''grpc'' then TrimPrefix p ''/''
         else if \<not> HasPrefix p ''/'' then ''/'' @ p else p)"

definition slugPathVariant :: "string \<Rightarrow> string" where
  "slugPathVariant path =
     (let slug = TrimCut path ''/''
      in if slug = [] then ''root''
         else ReplaceAllByte (ReplaceAllByte slug (CHR ''/'') (CHR ''-'')) (CHR ''_'') (CHR ''-''))"

section \<open>Generators\<close>

definition dpi_id :: "TunnelConfig \<Rightarrow> string \<Rightarrow> string" where
  "dpi_id tc suff = ID tc @ '':dpi:'' @ suff"

text \<open>What every generator does to the copy, beside its own parameter.\<close>

definition mark_variant :: "TunnelConfig \<Rightarrow> string \<Rightarrow> TunnelConfig \<Rightarrow> TunnelConfig" where
  "mark_variant tc suff v = v\<lparr>ID := dpi_id tc suff, IsVariant := True, BaseConfigID := ID tc\<rparr>"

definition mtu_variants :: "TunnelConfig \<Rightarrow> TunnelConfig list" where
  "mtu_variants tc =
     map (\<lambda>mtu. mark_variant tc (''mtu'' @ Itoa mtu) (tc\<lparr>MTU := mtu\<rparr>))
       (filter (\<lambda>mtu. mtu \<noteq> MTU tc) mtuVariants)"

definition wgEndpointPortVariants :: "TunnelConfig \<Rightarrow> TunnelConfig list" where
  "wgEndpointPortVariants tc =
     (case WireGuard tc of
        None \<Rightarrow> []
      | Some wg \<Rightarrow>
          if Endpoint wg = [] then []
          else let (host, currentPort, ok) = splitEndpointHostPort (Endpoint wg)
               in if \<not> ok then []
                  else map (\<lambda>p. mark_variant tc (''ep'' @ Itoa p)
                              (tc\<lparr>WireGuard := Some (wg\<lparr>Endpoint := joinEndpointHostPort host p\<rparr>)\<rparr>))
                         (filter (\<lambda>p. p \<noteq> currentPort) endpointPortVariants))"

definition awgEndpointPortVariants :: "TunnelConfig \<Rightarrow> TunnelConfig list" where
  "awgEndpointPortVariants tc =
     (case AmneziaWG tc of
        None \<Rightarrow> []
      | Some awg \<Rightarrow>
          if Endpoint awg = [] then []
          else let (host, currentPort, ok) = splitEndpointHostPort (Endpoint awg)
               in if \<not> ok then []
                  else map (\<lambda>p. mark_variant tc (''ep'' @ Itoa p)
                              (tc\<lparr>AmneziaWG := Some (awg\<lparr>Endpoint := joinEndpointHostPort host p\<rparr>)\<rparr>))
                         (filter (\<lambda>p. p \<noteq> currentPort) endpointPortVariants))"

definition wgVariants :: "TunnelConfig \<Rightarrow> BlockType \<Rightarrow> TunnelConfig list" where
  "wgVariants tc hint =
     mtu_variants tc
     @ (if hint = BlockProtocol \<or> hint = BlockTCP \<or> hint = BlockNone
        then wgEndpointPortVariants tc else [])"

text \<open>The four headers drawn from position \<open>n\<close> on.\<close>

definition randomizeAWGHeaders :: "(nat \<Rightarrow> int) \<Rightarrow> nat \<Rightarrow> AmneziaWGConfig \<Rightarrow> AmneziaWGConfig" where
  "randomizeAWGHeaders draws n awg = awg\<lparr>
     InitPacketMagicHeader := draws n,
     ResponsePacketMagicHeader := draws (n + 1),
     UnderLoadPacketMagicHeader := draws (n + 2),
     TransportPacketMagicHeader := draws (n + 3)\<rparr>"

definition apply_profile :: "awgProfile \<Rightarrow> AmneziaWGConfig \<Rightarrow> AmneziaWGConfig" where
  "apply_profile prof awg = awg\<lparr>
     JunkPacketCount := jc prof,
     JunkPacketMinSize := jmin prof,
     JunkPacketMaxSize := jmax prof,
     InitPacketJunkSize := s1 prof,
     ResponsePacketJunkSize := s2 prof,
     InitPacketMagicHeader := h1 prof,
     ResponsePacketMagicHeader := h2 prof,
     UnderLoadPacketMagicHeader := h3 prof,
     TransportPacketMagicHeader := h4 prof\<rparr>"

definition same_profile :: "AmneziaWGConfig \<Rightarrow> awgProfile \<Rightarrow> bool" where
  "same_profile cur prof \<longleftrightarrow>
     JunkPacketCount cur = jc prof \<and> JunkPacketMinSize cur = jmin prof
     \<and> JunkPacketMaxSize cur = jmax prof \<and> InitPacketMagicHeader cur = h1 prof
     \<and> ResponsePacketMagicHeader cur = h2 prof"

fun awg_profile_loop ::
  "(nat \<Rightarrow> int) \<Rightarrow> TunnelConfig \<Rightarrow> AmneziaWGConfig \<Rightarrow> awgProfile list \<Rightarrow> nat \<Rightarrow> TunnelConfig list" where
  "awg_profile_loop draws tc cur [] n = []"
| "awg_profile_loop draws tc cur (prof # profs) n =
     (if same_profile cur prof then awg_profile_loop draws tc cur profs n
      else mark_variant tc (''awg:'' @ prof_name prof)
             (tc\<lparr>AmneziaWG := Some (randomizeAWGHeaders draws n (apply_profile prof cur))\<rparr>)
           # awg_profile_loop draws tc cur profs (n + 4))"

definition awgVariants :: "(nat \<Rightarrow> int) \<Rightarrow> TunnelConfig \<Rightarrow> BlockType \<Rightarrow> TunnelConfig list" where
  "awgVariants draws tc hint =
     (case AmneziaWG tc of
        None \<Rightarrow> []
      | Some cur \<Rightarrow>
          let profiles = (if hint = BlockProtocol
                then [awgProfiles ! 2, awgProfiles ! 1, awgProfiles ! 0] else awgProfiles)
          in awg_profile_loop draws tc cur profiles 0
             @ mtu_variants tc
             @ (if hint = BlockProtocol \<or> hint = BlockTCP \<or> hint = BlockNone
                then awgEndpointPortVariants tc else []))"

definition vlessFingerprintVariants :: "TunnelConfig \<Rightarrow> VLESSConfig \<Rightarrow> TunnelConfig list" where
  "vlessFingerprintVariants tc vl =
     map (\<lambda>fp. mark_variant tc (''fp:'' @ fp) (tc\<lparr>VLESS := Some (vl\<lparr>Fingerprint := fp\<rparr>)\<rparr>))
       (filter (\<lambda>fp. fp \<noteq> Fingerprint vl) vlessFingerprints)"

definition vlessTransportVariants :: "TunnelConfig \<Rightarrow> VLESSConfig \<Rightarrow> TunnelConfig list" where
  "vlessTransportVariants tc vl =
     map (\<lambda>tr. mark_variant tc (''tr:'' @ tr)
            (tc\<lparr>VLESS := Some (vl\<lparr>Transport := tr, TransportPath :=
               (if TransportPath vl = [] then ''/'' else TransportPath vl)\<rparr>)\<rparr>))
       (filter (\<lambda>tr. tr \<noteq> Transport vl) vlessTransports)"

definition vlessPathVariantsForTransport :: "TunnelConfig \<Rightarrow> VLESSConfig \<Rightarrow> TunnelConfig list" where
  "vlessPathVariantsForTransport tc vl =
     (if Transport vl \<notin> {''ws'', ''httpupgrade'', ''grpc''} then []
      else map (\<lambda>p. mark_variant tc (''path:'' @ slugPathVariant p)
                  (tc\<lparr>VLESS := Some (vl\<lparr>TransportPath := p\<rparr>)\<rparr>))
             (filter (\<lambda>p. p \<noteq> TransportPath vl)
               (map (normalizeTransportPath (Transport vl)) vlessPathVariants)))"

definition vlessECHVariants :: "TunnelConfig \<Rightarrow> VLESSConfig \<Rightarrow> TunnelConfig list" where
  "vlessECHVariants tc vl =
     (if Security vl = ''none'' \<or> ECH vl then []
      else [mark_variant tc ''ech:on'' (tc\<lparr>VLESS := Some (vl\<lparr>ECH := True\<rparr>)\<rparr>)])"

definition vlessPortVariants :: "TunnelConfig \<Rightarrow> VLESSConfig \<Rightarrow> TunnelConfig list" where
  "vlessPortVariants tc vl =
     (if Port vl \<le> 0 then []
      else map (\<lambda>p. mark_variant tc (''port'' @ Itoa p) (tc\<lparr>VLESS := Some (vl\<lparr>Port := p\<rparr>)\<rparr>))
             (filter (\<lambda>p. p \<noteq> Port vl) endpointPortVariants))"

definition vlessVariants :: "TunnelConfig \<Rightarrow> BlockType \<Rightarrow> TunnelConfig list" where
  "vlessVariants tc hint =
     (case VLESS tc of
        None \<Rightarrow> []
      | Some vl \<Rightarrow>
          (if hint = BlockHTTP
           then vlessTransportVariants tc vl @ vlessFingerprintVariants tc vl
           else vlessFingerprintVariants tc vl @ vlessTransportVariants tc vl
                @ vlessECHVariants tc vl)
          @ (if hint = BlockHTTP \<or> hint = BlockTLS \<or> hint = BlockNone
             then vlessPathVariantsForTransport tc vl else [])
          @ (if hint = BlockProtocol \<or> hint = BlockTCP \<or> hint = BlockNone
             then vlessPortVariants tc vl else []))"

definition GenerateVariants ::
  "(nat \<Rightarrow> int) \<Rightarrow> TunnelConfig \<Rightarrow> BlockType \<Rightarrow> int \<Rightarrow> TunnelConfig list" where
  "GenerateVariants draws tc hint maxVariants =
     (let maxVariants = (if maxVariants \<le> 0 then 8 else maxVariants);
          variants = (case Protocol tc of
             ProtocolWireGuard \<Rightarrow> wgVariants tc hint
           | ProtocolAmneziaWG \<Rightarrow> awgVariants draws tc hint
           | ProtocolVLESS \<Rightarrow> vlessVariants tc hint
           | OtherProtocol _ \<Rightarrow> [])
      in take (nat maxVariants) variants)"

section \<open>Lemmas on endpoints\<close>

lemma Itoa_no_colon: "0 \<le> p \<Longrightarrow> CHR '':'' \<notin> set (Itoa p) \<and> CHR ''['' \<notin> set (Itoa p) \<and> CHR '']'' \<notin> set (Itoa p)"
  using Itoa_nonneg_digits [of p] by (auto simp: list_all_iff is_digit_def)

lemma Itoa_nonempty [simp]: "Itoa p \<noteq> []"
  by (simp add: Itoa_def)

lemma TrimSpace_Itoa: "0 \<le> p \<Longrightarrow> TrimSpace (Itoa p) = Itoa p"
  by (intro TrimSpace_digits Itoa_nonneg_digits) simp_all

lemma split_port:
  assumes "splitEndpointHostPort e = (h, q, True)"
  shows "q = fst (Atoi (TrimSpace (from_index (LastIndexByte e (CHR '':'') + 1) e)))
    \<and> 0 < q \<and> q \<le> 65535"
proof -
  have "p = from_index (LastIndexByte e (CHR '':'') + 1) e" if "SplitHostPort e = Some (g, p)" for g p
    using that by (auto simp: SplitHostPort_def Let_def split: if_splits)
  then show ?thesis
    using assms by (auto simp: splitEndpointHostPort_def Let_def
        split: option.splits prod.splits if_splits)
qed

lemma last_colon_join:
  assumes "0 \<le> p"
  shows "from_index (LastIndexByte (joinEndpointHostPort host p) (CHR '':'') + 1)
           (joinEndpointHostPort host p) = Itoa p"
proof -
  have no: "CHR '':'' \<notin> set (Itoa p)" using Itoa_no_colon [OF assms] by blast
  obtain a where a: "joinEndpointHostPort host p = a @ CHR '':'' # Itoa p"
  proof
    show "joinEndpointHostPort host p
        = (if CHR '':'' \<in> set host then CHR ''['' # host @ '']'' else host) @ CHR '':'' # Itoa p"
      by (simp add: joinEndpointHostPort_def JoinHostPort_def)
  qed
  show ?thesis using LastIndexByte_split [OF no, of a] by (simp add: a nat_add_distrib)
qed

lemma join_changes_port:
  assumes "splitEndpointHostPort e = (h, q, True)" and "0 \<le> p" and "p < 2 ^ 63" and "p \<noteq> q"
  shows "joinEndpointHostPort host p \<noteq> e"
proof
  assume "joinEndpointHostPort host p = e"
  then have "q = fst (Atoi (TrimSpace (Itoa p)))"
    using split_port [OF assms(1)] last_colon_join [OF assms(2)] by metis
  then show False using assms(2,3,4) by (simp add: TrimSpace_Itoa Atoi_Itoa)
qed

section \<open>Lemmas on the generators\<close>

text \<open>A variant: the marks, the shape of its id and all that no generator touches.\<close>

definition variant_of :: "TunnelConfig \<Rightarrow> TunnelConfig \<Rightarrow> bool" where
  "variant_of tc v \<longleftrightarrow> IsVariant v \<and> BaseConfigID v = ID tc \<and> HasPrefix (ID v) (ID tc @ '':dpi:'')
     \<and> Name v = Name tc \<and> Protocol v = Protocol tc \<and> Enabled v = Enabled tc
     \<and> InterfaceName v = InterfaceName tc \<and> RoutingTableID v = RoutingTableID tc \<and> DPI v = DPI tc"

text \<open>What identifies the peers and the credentials, apart from the endpoint's port.\<close>

definition wg_identity :: "'a WireGuardConfig_scheme \<Rightarrow> _" where
  "wg_identity wg = (PrivateKey wg, PublicKey wg, PresharedKey wg, AllowedIPs wg,
     PersistentKeepalive wg, DNS wg)"

definition vless_identity :: "VLESSConfig \<Rightarrow> _" where
  "vless_identity vl = (UUID vl, Address vl, Security vl, Flow vl, SNI vl, RealityPublicKey vl,
     RealityShortID vl, LocalPort vl)"

definition same_identity :: "TunnelConfig \<Rightarrow> TunnelConfig \<Rightarrow> bool" where
  "same_identity tc v \<longleftrightarrow>
     map_option wg_identity (WireGuard v) = map_option wg_identity (WireGuard tc)
     \<and> map_option wg_identity (AmneziaWG v) = map_option wg_identity (AmneziaWG tc)
     \<and> map_option vless_identity (VLESS v) = map_option vless_identity (VLESS tc)"

lemmas generator_defs = mtu_variants_def wgEndpointPortVariants_def awgEndpointPortVariants_def
  vlessFingerprintVariants_def vlessTransportVariants_def vlessPathVariantsForTransport_def
  vlessECHVariants_def vlessPortVariants_def

lemma mark_variant_of [simp]:
  "variant_of tc (mark_variant tc suff v) \<longleftrightarrow>
     Name v = Name tc \<and> Protocol v = Protocol tc \<and> Enabled v = Enabled tc
     \<and> InterfaceName v = InterfaceName tc \<and> RoutingTableID v = RoutingTableID tc \<and> DPI v = DPI tc"
  by (auto simp: variant_of_def mark_variant_def dpi_id_def HasPrefix_iff)

lemma mark_identity [simp]: "same_identity tc (mark_variant tc suff v) = same_identity tc v"
  by (simp add: same_identity_def mark_variant_def)

lemma same_identity_simps [simp]:
  "same_identity tc (tc\<lparr>MTU := m\<rparr>)"
  "same_identity tc (tc\<lparr>WireGuard := Some wg\<rparr>)
     \<longleftrightarrow> map_option wg_identity (WireGuard tc) = Some (wg_identity wg)"
  "same_identity tc (tc\<lparr>AmneziaWG := Some awg\<rparr>)
     \<longleftrightarrow> map_option wg_identity (AmneziaWG tc) = Some (wg_identity awg)"
  "same_identity tc (tc\<lparr>VLESS := Some vl\<rparr>)
     \<longleftrightarrow> map_option vless_identity (VLESS tc) = Some (vless_identity vl)"
  by (auto simp: same_identity_def eq_commute [of "Some _"])

lemma identity_simps [simp]:
  "wg_identity (w\<lparr>Endpoint := e\<rparr>) = wg_identity w"
  "wg_identity (apply_profile prof a) = wg_identity a"
  "wg_identity (randomizeAWGHeaders draws n a) = wg_identity a"
  "vless_identity (vl\<lparr>Fingerprint := x\<rparr>) = vless_identity vl"
  "vless_identity (vl\<lparr>Transport := x\<rparr>) = vless_identity vl"
  "vless_identity (vl\<lparr>Transport := x, TransportPath := y\<rparr>) = vless_identity vl"
  "vless_identity (vl\<lparr>TransportPath := x\<rparr>) = vless_identity vl"
  "vless_identity (vl\<lparr>ECH := b\<rparr>) = vless_identity vl"
  "vless_identity (vl\<lparr>Port := p\<rparr>) = vless_identity vl"
  by (simp_all add: wg_identity_def vless_identity_def apply_profile_def randomizeAWGHeaders_def)

lemma profile_loop_all:
  assumes "AmneziaWG tc = Some cur"
  shows "v \<in> set (awg_profile_loop draws tc cur profs n) \<Longrightarrow> variant_of tc v \<and> same_identity tc v"
proof (induction profs arbitrary: n)
  case (Cons a profs)
  let ?w = "mark_variant tc (''awg:'' @ prof_name a)
    (tc\<lparr>AmneziaWG := Some (randomizeAWGHeaders draws n (apply_profile a cur))\<rparr>)"
  have "variant_of tc ?w \<and> same_identity tc ?w" using assms by simp
  moreover have "v = ?w \<or> (\<exists>m. v \<in> set (awg_profile_loop draws tc cur profs m))"
    using Cons.prems by (auto split: if_splits)
  ultimately show ?case using Cons.IH by blast
qed simp

definition good_variant :: "TunnelConfig \<Rightarrow> TunnelConfig \<Rightarrow> bool" where
  "good_variant tc v \<longleftrightarrow> variant_of tc v \<and> same_identity tc v"

lemma wg_generators_good:
  "list_all (good_variant tc) (mtu_variants tc)"
  "list_all (good_variant tc) (wgEndpointPortVariants tc)"
  "list_all (good_variant tc) (awgEndpointPortVariants tc)"
  by (cases "WireGuard tc"; cases "AmneziaWG tc";
      auto simp: generator_defs list_all_iff good_variant_def split: if_splits prod.splits)+

lemma vless_generators_good:
  assumes "VLESS tc = Some vl"
  shows "list_all (good_variant tc) (vlessFingerprintVariants tc vl)"
    "list_all (good_variant tc) (vlessTransportVariants tc vl)"
    "list_all (good_variant tc) (vlessPathVariantsForTransport tc vl)"
    "list_all (good_variant tc) (vlessECHVariants tc vl)"
    "list_all (good_variant tc) (vlessPortVariants tc vl)"
  using assms by (simp_all add: generator_defs list_all_iff good_variant_def)

lemma profile_loop_good:
  "AmneziaWG tc = Some cur \<Longrightarrow> list_all (good_variant tc) (awg_profile_loop draws tc cur profs n)"
  using profile_loop_all by (simp add: list_all_iff good_variant_def)

lemma variants_good:
  "list_all (good_variant tc) (wgVariants tc hint)"
  "list_all (good_variant tc) (awgVariants draws tc hint)"
  "list_all (good_variant tc) (vlessVariants tc hint)"
  by (simp_all add: wgVariants_def awgVariants_def vlessVariants_def Let_def wg_generators_good
      vless_generators_good profile_loop_good del: awg_profile_loop.simps split: option.split)

lemma GenerateVariants_good: "v \<in> set (GenerateVariants draws tc hint n) \<Longrightarrow> good_variant tc v"
  using variants_good(1,3) [of tc hint] variants_good(2) [of tc draws hint]
  by (auto simp: GenerateVariants_def Let_def list_all_iff split: Protocol.splits dest: in_set_takeD)

lemma GenerateVariants_cases:
  assumes "v \<in> set (GenerateVariants draws tc hint n)"
  obtains "Protocol tc = ProtocolWireGuard" "v \<in> set (wgVariants tc hint)"
  | "Protocol tc = ProtocolAmneziaWG" "v \<in> set (awgVariants draws tc hint)"
  | "Protocol tc = ProtocolVLESS" "v \<in> set (vlessVariants tc hint)"
  using assms by (auto simp: GenerateVariants_def Let_def split: Protocol.splits dest: in_set_takeD)

text \<open>
  The ids of a pool: suffixes that are a subsequence of a fixed list without repetition.
\<close>

definition path_slugs :: "string \<Rightarrow> string list" where
  "path_slugs tr =
     map (\<lambda>p. ''path:'' @ slugPathVariant p) (map (normalizeTransportPath tr) vlessPathVariants)"

definition mtu_slugs :: "string list" where "mtu_slugs = map (\<lambda>m. ''mtu'' @ Itoa m) mtuVariants"

definition ids_within :: "TunnelConfig \<Rightarrow> string list \<Rightarrow> TunnelConfig list \<Rightarrow> bool" where
  "ids_within tc F vs \<longleftrightarrow> (\<exists>sufs. map ID vs = map (dpi_id tc) sufs \<and> subseq sufs F)"

lemma ids_within_Nil [simp]: "ids_within tc F []"
  by (simp add: ids_within_def)

lemma ids_within_append: "ids_within tc F xs \<Longrightarrow> ids_within tc G ys \<Longrightarrow> ids_within tc (F @ G) (xs @ ys)"
  unfolding ids_within_def by (metis list_emb_append_mono map_append)

lemma ids_within_map:
  "(\<And>x. ID (f x) = dpi_id tc (g x)) \<Longrightarrow> ids_within tc (map g xs) (map f (filter P xs))"
  unfolding ids_within_def
  by (intro exI [of _ "map g (filter P xs)"]) (simp add: subseq_map subseq_filter_left)

lemma distinct_subseq: "subseq xs ys \<Longrightarrow> distinct ys \<Longrightarrow> distinct xs"
  by (induction rule: list_emb.induct) (auto dest: list_emb_set)

lemma ids_within_distinct:
  assumes "ids_within tc F vs" and "distinct F"
  shows "distinct (map ID vs)"
proof -
  from assms(1) obtain sufs where s: "map ID vs = map (dpi_id tc) sufs" "subseq sufs F"
    by (auto simp: ids_within_def)
  have "inj_on (dpi_id tc) (set sufs)" by (auto simp: inj_on_def dpi_id_def)
  then show ?thesis
    using s distinct_subseq [OF s(2) assms(2)] by (simp add: distinct_map)
qed

lemma ID_mark [simp]: "ID (mark_variant tc suff v) = dpi_id tc suff"
  by (simp add: mark_variant_def)

lemma ids_generators:
  "ids_within tc mtu_slugs (mtu_variants tc)"
  "ids_within tc (map (\<lambda>p. ''ep'' @ Itoa p) endpointPortVariants) (wgEndpointPortVariants tc)"
  "ids_within tc (map (\<lambda>p. ''ep'' @ Itoa p) endpointPortVariants) (awgEndpointPortVariants tc)"
  "ids_within tc (map (\<lambda>fp. ''fp:'' @ fp) vlessFingerprints) (vlessFingerprintVariants tc vl)"
  "ids_within tc (map (\<lambda>tr. ''tr:'' @ tr) vlessTransports) (vlessTransportVariants tc vl)"
  "ids_within tc [''ech:on''] (vlessECHVariants tc vl)"
  "ids_within tc (map (\<lambda>p. ''port'' @ Itoa p) endpointPortVariants) (vlessPortVariants tc vl)"
  by (auto simp: generator_defs mtu_slugs_def intro: ids_within_map split: option.split prod.split)
    (simp add: ids_within_def, rule exI [of _ "[''ech:on'']"], simp)

lemma ids_paths: "ids_within tc (path_slugs (Transport vl)) (vlessPathVariantsForTransport tc vl)"
  unfolding vlessPathVariantsForTransport_def path_slugs_def
  by (split if_split, intro conjI impI ids_within_Nil ids_within_map) simp

lemma ids_profiles:
  "ids_within tc (map (\<lambda>p. ''awg:'' @ prof_name p) profs) (awg_profile_loop draws tc cur profs n)"
proof (induction profs arbitrary: n)
  case (Cons a profs)
  from Cons.IH [of n] Cons.IH [of "n + 4"] show ?case
    unfolding ids_within_def
    by (auto intro: list_emb_Cons)
      (metis (no_types, lifting) list.simps(9) subseq_Cons2)
qed simp

lemma wgVariants_ids:
  "ids_within tc (mtu_slugs @ map (\<lambda>p. ''ep'' @ Itoa p) endpointPortVariants) (wgVariants tc hint)"
  unfolding wgVariants_def by (intro ids_within_append) (simp_all add: ids_generators [simplified])

lemma awgVariants_ids:
  "ids_within tc (map (\<lambda>p. ''awg:'' @ prof_name p)
       (if hint = BlockProtocol then [awgProfiles ! 2, awgProfiles ! 1, awgProfiles ! 0]
        else awgProfiles)
     @ mtu_slugs @ map (\<lambda>p. ''ep'' @ Itoa p) endpointPortVariants) (awgVariants draws tc hint)"
  unfolding awgVariants_def Let_def
  by (cases "AmneziaWG tc")
    (simp_all only: option.case ids_within_Nil, intro ids_within_append ids_profiles,
      simp_all add: ids_generators [simplified])

lemma vlessVariants_ids:
  assumes "VLESS tc = Some vl"
  shows "ids_within tc
    ((if hint = BlockHTTP then map (\<lambda>tr. ''tr:'' @ tr) vlessTransports @ map (\<lambda>fp. ''fp:'' @ fp) vlessFingerprints
      else map (\<lambda>fp. ''fp:'' @ fp) vlessFingerprints @ map (\<lambda>tr. ''tr:'' @ tr) vlessTransports @ [''ech:on''])
     @ path_slugs (Transport vl) @ map (\<lambda>p. ''port'' @ Itoa p) endpointPortVariants)
    (vlessVariants tc hint)"
  unfolding vlessVariants_def assms option.case
  by (intro ids_within_append; (split if_split)+; intro conjI impI)
    (auto intro: ids_within_append ids_generators ids_paths simp del: append.simps map_map)

lemma path_slugs_two: "path_slugs tr = path_slugs (if tr = ''grpc'' then ''grpc'' else ''ws'')"
  by (simp add: path_slugs_def normalizeTransportPath_def)

lemma id_tables_distinct:
  "distinct (mtu_slugs @ map (\<lambda>p. ''ep'' @ Itoa p) endpointPortVariants)"
  "distinct (map (\<lambda>p. ''awg:'' @ prof_name p)
       (if hint = BlockProtocol then [awgProfiles ! 2, awgProfiles ! 1, awgProfiles ! 0]
        else awgProfiles)
     @ mtu_slugs @ map (\<lambda>p. ''ep'' @ Itoa p) endpointPortVariants)"
  "distinct ((if hint = BlockHTTP then map (\<lambda>tr. ''tr:'' @ tr) vlessTransports @ map (\<lambda>fp. ''fp:'' @ fp) vlessFingerprints
      else map (\<lambda>fp. ''fp:'' @ fp) vlessFingerprints @ map (\<lambda>tr. ''tr:'' @ tr) vlessTransports @ [''ech:on''])
     @ path_slugs (if tr = ''grpc'' then ''grpc'' else ''ws'')
     @ map (\<lambda>p. ''port'' @ Itoa p) endpointPortVariants)"
  subgoal by code_simp
  subgoal by (cases "hint = BlockProtocol"; simp only: if_True if_False) code_simp+
  subgoal by (cases "hint = BlockHTTP"; cases "tr = ''grpc''"; simp only: if_True if_False) code_simp+
  done

section \<open>Properties\<close>

text \<open>
  C34: every variant is one. It is marked, names its base and extends the base's id with
  \<open>:dpi:\<close>; name, protocol, interface, routing table and settings are the base's, and so are the
  keys, peers, addresses, DNS and credentials of all three protocols; the cap is respected.
\<close>

theorem variants_well_formed:
  "(\<forall>v\<in>set (GenerateVariants draws tc hint maxVariants). variant_of tc v \<and> same_identity tc v)
   \<and> int (length (GenerateVariants draws tc hint maxVariants))
       \<le> (if maxVariants \<le> 0 then 8 else maxVariants)"
proof
  show "\<forall>v\<in>set (GenerateVariants draws tc hint maxVariants). variant_of tc v \<and> same_identity tc v"
    using GenerateVariants_good by (simp add: good_variant_def)
  have "length (GenerateVariants draws tc hint maxVariants)
      \<le> nat (if maxVariants \<le> 0 then 8 else maxVariants)"
    by (simp add: GenerateVariants_def Let_def)
  then show "int (length (GenerateVariants draws tc hint maxVariants))
      \<le> (if maxVariants \<le> 0 then 8 else maxVariants)"
    by (simp split: if_splits)
qed

definition plain_wg :: TunnelConfig where
  "plain_wg = zero_tc\<lparr>ID := ''home'', Protocol := ProtocolWireGuard, WireGuard := Some zero_wg\<rparr>"

lemma plain_wg_variants: "GenerateVariants (\<lambda>n. 7) plain_wg BlockTLS 2 \<noteq> []"
  by code_simp

lemma variants_well_formed_witness:
  "variant_of plain_wg (hd (GenerateVariants (\<lambda>n. 7) plain_wg BlockTLS 2))
   \<and> length (GenerateVariants (\<lambda>n. 7) plain_wg BlockTLS 2) \<le> 2"
  using variants_well_formed [of "\<lambda>n. 7" plain_wg BlockTLS 2] plain_wg_variants hd_in_set by auto

text \<open>
  No two variants of one pool share an id.
\<close>

theorem variant_ids_distinct: "distinct (map ID (GenerateVariants draws tc hint maxVariants))"
proof -
  have "distinct (map ID (wgVariants tc hint))"
    by (rule ids_within_distinct [OF wgVariants_ids id_tables_distinct(1)])
  moreover have "distinct (map ID (awgVariants draws tc hint))"
    by (rule ids_within_distinct [OF awgVariants_ids id_tables_distinct(2)])
  moreover have "distinct (map ID (vlessVariants tc hint))"
  proof (cases "VLESS tc")
    case (Some vl)
    show ?thesis
      using vlessVariants_ids [OF Some, of hint] id_tables_distinct(3) [of hint "Transport vl"]
      by (intro ids_within_distinct) (simp_all only: path_slugs_two [of "Transport vl"])
  qed (simp add: vlessVariants_def)
  ultimately show ?thesis
    by (auto simp: GenerateVariants_def Let_def intro!: distinct_map_take split: Protocol.split)
qed

text \<open>
  A variant is worth trying: for WireGuard and VLESS it never has the base's parameters,
  whatever the base's endpoint, fingerprint, transport, path and port are.
\<close>

theorem variants_differ:
  assumes "Protocol tc \<noteq> ProtocolAmneziaWG" and "v \<in> set (GenerateVariants draws tc hint n)"
  shows "(MTU v, WireGuard v, VLESS v) \<noteq> (MTU tc, WireGuard tc, VLESS tc)"
  using assms(2)
proof (cases rule: GenerateVariants_cases)
  case 1
  have port: "0 \<le> p \<and> p < 2 ^ 63" if "p \<in> set endpointPortVariants" for p
    using that by (auto simp: endpointPortVariants_def)
  from 1(2) have "v \<in> set (mtu_variants tc) \<or> v \<in> set (wgEndpointPortVariants tc)"
    by (auto simp: wgVariants_def split: if_splits)
  then show ?thesis
  proof
    assume "v \<in> set (mtu_variants tc)"
    then show ?thesis by (auto simp: mtu_variants_def mark_variant_def)
  next
    assume v: "v \<in> set (wgEndpointPortVariants tc)"
    then obtain wg where wg: "WireGuard tc = Some wg"
      by (cases "WireGuard tc") (simp_all add: wgEndpointPortVariants_def)
    from v wg obtain host q p where s: "splitEndpointHostPort (Endpoint wg) = (host, q, True)"
        and p: "p \<in> set endpointPortVariants" "p \<noteq> q"
        and e: "WireGuard v = Some (wg\<lparr>Endpoint := joinEndpointHostPort host p\<rparr>)"
      by (cases "splitEndpointHostPort (Endpoint wg)")
        (auto simp: wgEndpointPortVariants_def mark_variant_def split: if_splits)
    have "joinEndpointHostPort host p \<noteq> Endpoint wg"
      using join_changes_port [OF s] port [OF p(1)] p(2) by blast
    then have "Endpoint (the (WireGuard v)) \<noteq> Endpoint (the (WireGuard tc))"
      by (simp add: wg e)
    then show ?thesis by auto
  qed
next
  case 3
  then obtain vl where vl: "VLESS tc = Some vl"
    by (cases "VLESS tc") (simp_all add: vlessVariants_def)
  have "\<exists>vl'. VLESS v = Some vl' \<and> (Fingerprint vl', Transport vl', TransportPath vl', ECH vl', Port vl')
      \<noteq> (Fingerprint vl, Transport vl, TransportPath vl, ECH vl, Port vl)"
    using 3(2) by (auto simp: vlessVariants_def vl generator_defs mark_variant_def split: if_splits)
  then show ?thesis using vl by auto
qed (use assms(1) in simp)

definition sample_vless :: TunnelConfig where
  "sample_vless = zero_tc\<lparr>ID := ''v'', Protocol := ProtocolVLESS,
     VLESS := Some (zero_vless\<lparr>Fingerprint := ''chrome'', Transport := ''ws'', Port := 443\<rparr>)\<rparr>"

lemma variants_differ_witness:
  "VLESS (hd (GenerateVariants (\<lambda>n. 7) sample_vless BlockTLS 4)) \<noteq> VLESS sample_vless"
proof -
  have "hd (GenerateVariants (\<lambda>n. 7) sample_vless BlockTLS 4)
      \<in> set (GenerateVariants (\<lambda>n. 7) sample_vless BlockTLS 4)" by code_simp
  from variants_differ [OF _ this] show ?thesis
    by (simp add: sample_vless_def zero_tc_def GenerateVariants_def vlessVariants_def generator_defs
        mark_variant_def vlessFingerprints_def zero_vless_def)
qed

text \<open>
  Endpoint rewriting. A host without brackets, IPv6 ones included, and a port in range come
  back from the endpoint they are joined to, so a port variant keeps its host.
\<close>

theorem endpoint_roundtrip:
  assumes "CHR ''['' \<notin> set host" and "CHR '']'' \<notin> set host" and "0 < p" and "p \<le> 65535"
  shows "splitEndpointHostPort (joinEndpointHostPort host p) = (host, p, True)"
proof -
  have "SplitHostPort (joinEndpointHostPort host p) = Some (host, Itoa p)"
    using assms Itoa_no_colon [of p] by (simp add: joinEndpointHostPort_def SplitHostPort_Join)
  then show ?thesis
    using assms(3,4) by (simp add: splitEndpointHostPort_def TrimSpace_Itoa Atoi_Itoa)
qed

lemma endpoint_roundtrip_witness:
  "splitEndpointHostPort (joinEndpointHostPort ''2001:db8::1'' 443) = (''2001:db8::1'', 443, True)"
  by (rule endpoint_roundtrip) simp_all

text \<open>
  Against a protocol signature an AmneziaWG tunnel tries the strongest obfuscation first,
  unless it already runs with it.
\<close>

theorem aggressive_first:
  assumes "Protocol tc = ProtocolAmneziaWG" and "AmneziaWG tc = Some cur"
    and "\<not> same_profile cur (awgProfiles ! 2)"
  shows "\<exists>v awg vs. GenerateVariants draws tc BlockProtocol maxVariants = v # vs
    \<and> ID v = ID tc @ '':dpi:awg:aggressive'' \<and> AmneziaWG v = Some awg
    \<and> JunkPacketCount awg = 7 \<and> JunkPacketMinSize awg = 50 \<and> JunkPacketMaxSize awg = 100
    \<and> InitPacketJunkSize awg = 10 \<and> ResponsePacketJunkSize awg = 10
    \<and> InitPacketMagicHeader awg = draws 0 \<and> TransportPacketMagicHeader awg = draws 3"
proof -
  let ?v = "mark_variant tc (''awg:'' @ prof_name (awgProfiles ! 2))
    (tc\<lparr>AmneziaWG := Some (randomizeAWGHeaders draws 0 (apply_profile (awgProfiles ! 2) cur))\<rparr>)"
  obtain vs where "awgVariants draws tc BlockProtocol = ?v # vs"
    using assms(2,3) by (simp add: awgVariants_def)
  moreover obtain k where "nat (if maxVariants \<le> 0 then 8 else maxVariants) = Suc k"
    by (cases "nat (if maxVariants \<le> 0 then 8 else maxVariants)") (auto split: if_splits)
  ultimately have "GenerateVariants draws tc BlockProtocol maxVariants = ?v # take k vs"
    using assms(1) by (simp add: GenerateVariants_def)
  then show ?thesis
    by (simp add: mark_variant_def dpi_id_def randomizeAWGHeaders_def apply_profile_def awgProfiles_def)
qed

definition sample_awg :: TunnelConfig where
  "sample_awg = zero_tc\<lparr>ID := ''a'', Protocol := ProtocolAmneziaWG, AmneziaWG := Some zero_awg\<rparr>"

lemma aggressive_first_witness:
  "\<exists>v vs. GenerateVariants (\<lambda>n. int n) sample_awg BlockProtocol 3 = v # vs
    \<and> ID v = ''a:dpi:awg:aggressive''"
  using aggressive_first [of sample_awg zero_awg "\<lambda>n. int n" 3]
  by (auto simp: sample_awg_def zero_tc_def zero_awg_def same_profile_def awgProfiles_def)

text \<open>The headers of the profile table never reach a variant: the drawn ones replace them.\<close>

lemma profile_headers_unused:
  "randomizeAWGHeaders draws n (apply_profile (prof\<lparr>h1 := a, h2 := b, h3 := c, h4 := d\<rparr>) awg)
     = randomizeAWGHeaders draws n (apply_profile prof awg)"
  by (simp add: randomizeAWGHeaders_def apply_profile_def)

end
