(* ===== verification/Strategy_Select.thy ===== *)
theory Strategy_Select
  imports Dpi_Variants
begin

text \<open>
  \<open>daemon/internal/strategy/selector.go\<close>: which of the generated variants are tried and in
  which order, by profile, detector reason, block hint and confidence.
\<close>

definition patternsForReason :: "string \<Rightarrow> BlockType \<Rightarrow> bool \<Rightarrow> string list" where
  "patternsForReason reason hint safeOnly =
     (if HasPrefix reason ''tls_'' then
        (if safeOnly then ['':dpi:fp:'', '':dpi:mtu'']
         else ['':dpi:fp:'', '':dpi:path:'', '':dpi:tr:tcp'', '':dpi:tr:ws'', '':dpi:mtu''])
      else if HasPrefix reason ''http_'' then
        (if safeOnly then ['':dpi:path:'', '':dpi:tr:ws'', '':dpi:tr:httpupgrade'', '':dpi:mtu'']
         else ['':dpi:path:'', '':dpi:tr:ws'', '':dpi:tr:httpupgrade'', '':dpi:tr:grpc'', '':dpi:mtu''])
      else if HasPrefix reason ''tcp_'' then
        ['':dpi:ep'', '':dpi:port'', '':dpi:mtu'', '':dpi:awg:mild'']
      else if HasPrefix reason ''protocol_'' \<or> hint = BlockProtocol then
        (if safeOnly then ['':dpi:ep'', '':dpi:port'', '':dpi:awg:mild'', '':dpi:mtu'']
         else ['':dpi:ep'', '':dpi:port'', '':dpi:awg:aggressive'', '':dpi:awg:moderate'',
               '':dpi:awg:mild'', '':dpi:mtu''])
      else if reason = ''low_confidence'' then ['':dpi:mtu'']
      else if safeOnly then ['':dpi:mtu'', '':dpi:fp:'']
      else ['':dpi:mtu'', '':dpi:fp:'', '':dpi:tr:''])"

definition matchByPattern :: "TunnelConfig list \<Rightarrow> string \<Rightarrow> TunnelConfig list" where
  "matchByPattern variants pattern =
     (if pattern = [] then [] else filter (\<lambda>v. Contains (ID v) pattern) variants)"

text \<open>The set \<open>seen\<close> always holds exactly the ids of the result so far.\<close>

fun appendUnique :: "TunnelConfig list \<Rightarrow> TunnelConfig list \<Rightarrow> TunnelConfig list" where
  "appendUnique dst [] = dst"
| "appendUnique dst (s # src) =
     (if ID s \<in> set (map ID dst) then appendUnique dst src else appendUnique (dst @ [s]) src)"

definition capVariants :: "TunnelConfig list \<Rightarrow> int \<Rightarrow> TunnelConfig list" where
  "capVariants xs n = (if n \<le> 0 \<or> int (length xs) \<le> n then xs else take (nat n) xs)"

definition by_patterns :: "TunnelConfig list \<Rightarrow> string list \<Rightarrow> TunnelConfig list \<Rightarrow> TunnelConfig list" where
  "by_patterns variants patterns out =
     foldl (\<lambda>out p. appendUnique out (matchByPattern variants p)) out patterns"

definition compatSelect :: "string \<Rightarrow> BlockType \<Rightarrow> TunnelConfig list \<Rightarrow> TunnelConfig list" where
  "compatSelect reason hint variants =
     (let out = by_patterns variants (patternsForReason reason hint True) [];
          out = (if out = [] then by_patterns variants ['':dpi:mtu'', '':dpi:awg:mild''] out else out);
          out = (if out = [] then out @ [hd variants] else out)
      in capVariants out 3)"

definition balancedSelect :: "string \<Rightarrow> BlockType \<Rightarrow> TunnelConfig list \<Rightarrow> TunnelConfig list" where
  "balancedSelect reason hint variants =
     (let out = by_patterns variants (patternsForReason reason hint False) [];
          out = appendUnique out
            (filter (\<lambda>v. \<not> (Contains (ID v) '':dpi:awg:aggressive'' \<and> hint \<noteq> BlockProtocol)) variants)
      in capVariants out 6)"

definition aggressiveSelect :: "string \<Rightarrow> BlockType \<Rightarrow> TunnelConfig list \<Rightarrow> TunnelConfig list" where
  "aggressiveSelect reason hint variants =
     (let out = by_patterns variants (patternsForReason reason hint False) []
      in appendUnique out variants)"

definition SelectVariants ::
  "string \<Rightarrow> string \<Rightarrow> BlockType \<Rightarrow> float64 \<Rightarrow> TunnelConfig list \<Rightarrow> TunnelConfig list" where
  "SelectVariants profile reason hint confidence variants =
     (if variants = [] then variants
      else let profile = (if profile = [] then ''balanced'' else profile);
               (profile, reason) =
                 (if confidence < fl 0.4 then (''compat'', ''low_confidence'') else (profile, reason))
           in if profile = ''compat'' then compatSelect reason hint variants
              else if profile = ''aggressive'' then aggressiveSelect reason hint variants
              else balancedSelect reason hint variants)"

section \<open>Lemmas\<close>

definition distinct_ids :: "TunnelConfig list \<Rightarrow> bool" where
  "distinct_ids vs \<longleftrightarrow> distinct (map ID vs)"

lemma appendUnique_props:
  "distinct_ids dst \<Longrightarrow> distinct_ids (appendUnique dst src)
   \<and> set (appendUnique dst src) \<subseteq> set dst \<union> set src
   \<and> set (map ID (appendUnique dst src)) = set (map ID dst) \<union> set (map ID src)
   \<and> (\<exists>new. appendUnique dst src = dst @ new)"
proof (induction src arbitrary: dst)
  case (Cons s src)
  show ?case
  proof (cases "ID s \<in> set (map ID dst)")
    case True
    with Cons.IH [OF Cons.prems] show ?thesis by auto
  next
    case False
    then have "distinct_ids (dst @ [s])" using Cons.prems by (simp add: distinct_ids_def)
    from Cons.IH [OF this] False show ?thesis by auto
  qed
qed simp

lemma distinct_ids_Nil [simp]: "distinct_ids []"
  by (simp add: distinct_ids_def)

lemma matchByPattern_subset: "set (matchByPattern variants p) \<subseteq> set variants"
  by (auto simp: matchByPattern_def)

lemma by_patterns_props:
  "distinct_ids out \<Longrightarrow> set out \<subseteq> set variants \<Longrightarrow>
   distinct_ids (by_patterns variants ps out) \<and> set (by_patterns variants ps out) \<subseteq> set variants
   \<and> (\<exists>new. by_patterns variants ps out = out @ new)
   \<and> (\<forall>v\<in>set (by_patterns variants ps out). v \<in> set out \<or> (\<exists>p\<in>set ps. Contains (ID v) p))"
proof (induction ps arbitrary: out)
  case (Cons p ps)
  let ?out = "appendUnique out (matchByPattern variants p)"
  have o: "distinct_ids ?out" "set ?out \<subseteq> set out \<union> set (matchByPattern variants p)"
      "\<exists>new. ?out = out @ new"
    using appendUnique_props [OF Cons.prems(1), of "matchByPattern variants p"] by blast+
  then have "set ?out \<subseteq> set variants" using Cons.prems(2) matchByPattern_subset by blast
  from Cons.IH [OF o(1) this] o show ?case
    by (auto simp: by_patterns_def matchByPattern_def split: if_splits)
qed (simp add: by_patterns_def)

lemma capVariants_take: "\<exists>k. capVariants xs n = take k xs \<and> (xs \<noteq> [] \<longrightarrow> k \<noteq> 0)"
  by (cases "n \<le> 0 \<or> int (length xs) \<le> n")
    (auto simp: capVariants_def intro: exI [of _ "length xs"] exI [of _ "nat n"])

lemma capVariants_props:
  "distinct_ids xs \<Longrightarrow> distinct_ids (capVariants xs n)"
  "set (capVariants xs n) \<subseteq> set xs"
  "0 < n \<Longrightarrow> int (length (capVariants xs n)) \<le> n"
  by (auto simp: capVariants_def distinct_ids_def distinct_map_take dest: in_set_takeD)

lemma select_cases:
  assumes "variants \<noteq> []"
  obtains
    (compat) r where "profile = ''compat'' \<or> confidence < fl 0.4"
      "SelectVariants profile reason hint confidence variants = compatSelect r hint variants"
      "r = (if confidence < fl 0.4 then ''low_confidence'' else reason)"
  | (aggressive) "profile = ''aggressive''" "\<not> confidence < fl 0.4"
      "SelectVariants profile reason hint confidence variants = aggressiveSelect reason hint variants"
  | (balanced) "profile \<noteq> ''compat''" "profile \<noteq> ''aggressive''" "\<not> confidence < fl 0.4"
      "SelectVariants profile reason hint confidence variants = balancedSelect reason hint variants"
  using assms by (cases "confidence < fl 0.4"; cases "profile = []")
    (auto simp: SelectVariants_def Let_def split: if_splits)

lemma select_bodies:
  "variants \<noteq> [] \<Longrightarrow> distinct_ids (compatSelect reason hint variants)
     \<and> set (compatSelect reason hint variants) \<subseteq> set variants
     \<and> compatSelect reason hint variants \<noteq> []"
  "distinct_ids (balancedSelect reason hint variants)
     \<and> set (balancedSelect reason hint variants) \<subseteq> set variants"
  "distinct_ids (aggressiveSelect reason hint variants)
     \<and> set (aggressiveSelect reason hint variants) \<subseteq> set variants
     \<and> ID ` set (aggressiveSelect reason hint variants) = ID ` set variants"
proof -
  assume ne: "variants \<noteq> []"
  define a where "a = by_patterns variants (patternsForReason reason hint True) []"
  define b where "b = (if a = [] then by_patterns variants ['':dpi:mtu'', '':dpi:awg:mild''] a else a)"
  define c where "c = (if b = [] then b @ [hd variants] else b)"
  have "distinct_ids a" "set a \<subseteq> set variants"
    unfolding a_def using by_patterns_props [of "[]" variants] by auto
  then have "distinct_ids b" "set b \<subseteq> set variants"
    unfolding b_def using by_patterns_props [of "[]" variants] by auto
  then have c: "distinct_ids c" "set c \<subseteq> set variants" "c \<noteq> []"
    unfolding c_def using ne by (auto simp: distinct_ids_def)
  have eq: "compatSelect reason hint variants = capVariants c 3"
    by (simp add: compatSelect_def Let_def a_def b_def c_def)
  show "distinct_ids (compatSelect reason hint variants)
     \<and> set (compatSelect reason hint variants) \<subseteq> set variants
     \<and> compatSelect reason hint variants \<noteq> []"
    unfolding eq using c capVariants_props [where xs = c and n = 3] capVariants_take [of c 3] by auto
next
  define a where "a = by_patterns variants (patternsForReason reason hint False) []"
  let ?f = "filter (\<lambda>v. \<not> (Contains (ID v) '':dpi:awg:aggressive'' \<and> hint \<noteq> BlockProtocol)) variants"
  have a: "distinct_ids a" "set a \<subseteq> set variants"
    unfolding a_def using by_patterns_props [of "[]" variants] by auto
  have "distinct_ids (appendUnique a ?f)" "set (appendUnique a ?f) \<subseteq> set variants"
    using appendUnique_props [OF a(1), of ?f] a(2) by auto
  then show "distinct_ids (balancedSelect reason hint variants)
     \<and> set (balancedSelect reason hint variants) \<subseteq> set variants"
    unfolding balancedSelect_def Let_def a_def [symmetric]
    using capVariants_props [where xs = "appendUnique a ?f" and n = 6] by blast
  show "distinct_ids (aggressiveSelect reason hint variants)
     \<and> set (aggressiveSelect reason hint variants) \<subseteq> set variants
     \<and> ID ` set (aggressiveSelect reason hint variants) = ID ` set variants"
    unfolding aggressiveSelect_def Let_def a_def [symmetric]
    using appendUnique_props [OF a(1), of variants] a(2) by auto
qed

lemma by_patterns_hd:
  assumes "matchByPattern variants p = v # vs"
  shows "\<exists>new. by_patterns variants (p # ps) [] = v # new"
proof -
  obtain n1 where n1: "appendUnique [v] vs = v # n1"
    using appendUnique_props [of "[v]" vs] by (auto simp: distinct_ids_def)
  have eq: "by_patterns variants (p # ps) [] = by_patterns variants ps (v # n1)"
    by (simp add: by_patterns_def assms n1)
  have "distinct_ids (v # n1)"
    using appendUnique_props [of "[v]" vs] n1 by (simp add: distinct_ids_def)
  moreover have "set (v # n1) \<subseteq> set variants"
    using appendUnique_props [of "[v]" vs] n1 matchByPattern_subset [of variants p] assms
    by (fastforce simp: distinct_ids_def)
  ultimately show ?thesis
    unfolding eq using by_patterns_props [of "v # n1" variants ps] by auto
qed

lemma capVariants_Cons: "\<exists>new. capVariants (v # vs) n = v # new"
proof -
  obtain k where "capVariants (v # vs) n = take k (v # vs)" "k \<noteq> 0"
    using capVariants_take [of "v # vs" n] by auto
  then show ?thesis by (cases k) auto
qed

lemma find_filter: "find P xs = Some v \<Longrightarrow> \<exists>vs. filter P xs = v # vs"
  by (induction xs) (auto split: if_splits)

lemma Contains_skip:
  assumes "c \<notin> set base"
  shows "Contains (base @ x) (c # pat) \<longleftrightarrow> Contains x (c # pat)"
  using assms by (induction base) (auto simp: HasPrefix_def)

section \<open>Properties\<close>

text \<open>
  C35: the selection is safe. It only takes variants of the pool, each id once, three at most in
  the compat profile or at low confidence and six at most in every profile but aggressive; it
  is never empty for a non-empty pool in the compat and aggressive profiles.
\<close>

theorem SelectVariants_sound:
  assumes "variants \<noteq> []"
  shows "set (SelectVariants profile reason hint confidence variants) \<subseteq> set variants
    \<and> distinct (map ID (SelectVariants profile reason hint confidence variants))
    \<and> (profile = ''compat'' \<or> confidence < fl 0.4 \<longrightarrow>
        length (SelectVariants profile reason hint confidence variants) \<in> {1, 2, 3})
    \<and> (profile \<noteq> ''aggressive'' \<longrightarrow>
        length (SelectVariants profile reason hint confidence variants) \<le> 6)
    \<and> (profile = ''aggressive'' \<longrightarrow> SelectVariants profile reason hint confidence variants \<noteq> [])"
proof -
  have cap3: "length (compatSelect r hint variants) \<le> 3" for r
    using capVariants_props(3) [where n = 3] by (simp add: compatSelect_def Let_def)
  have cap6: "length (balancedSelect reason hint variants) \<le> 6"
    using capVariants_props(3) [where n = 6] by (simp add: balancedSelect_def Let_def)
  show ?thesis
    using assms
  proof (cases rule: select_cases [of variants profile confidence reason hint])
    case (compat r)
    have "length (compatSelect r hint variants) \<noteq> 0" using select_bodies(1) [OF assms] by simp
    with cap3 [of r] have "length (compatSelect r hint variants) \<in> {1, 2, 3}"
      by (simp add: numeral_eq_Suc le_Suc_eq)
    then show ?thesis
      using select_bodies(1) [OF assms, of r hint] compat(2) by (auto simp: distinct_ids_def)
  next
    case aggressive
    then show ?thesis
      using select_bodies(3) [of reason hint variants] assms by (auto simp: distinct_ids_def)
  next
    case balanced
    then show ?thesis
      using select_bodies(2) [of reason hint variants] cap6 by (simp add: distinct_ids_def)
  qed
qed

lemma SelectVariants_sound_witness:
  "length (SelectVariants ''balanced'' ''tls_rst'' BlockTLS (fl 0.1) [sample_vless, sample_awg]) \<in> {1, 2, 3}"
  using SelectVariants_sound [of "[sample_vless, sample_awg]" "''balanced''" "''tls_rst''" BlockTLS "fl 0.1"]
  by (simp add: fl_lits)

text \<open>
  The aggressive profile only reorders. On a pool with distinct ids and at sufficient
  confidence its result is a permutation of the pool.
\<close>

theorem aggressive_permutes:
  assumes "distinct (map ID variants)" and "fl 0.4 \<le> confidence"
  shows "mset (SelectVariants ''aggressive'' reason hint confidence variants) = mset variants"
proof (cases "variants = []")
  case False
  have eq: "SelectVariants ''aggressive'' reason hint confidence variants
      = aggressiveSelect reason hint variants"
    using False assms(2) by (simp add: SelectVariants_def)
  have b: "distinct_ids (aggressiveSelect reason hint variants)"
      "set (aggressiveSelect reason hint variants) \<subseteq> set variants"
      "ID ` set (aggressiveSelect reason hint variants) = ID ` set variants"
    using select_bodies(3) by blast+
  have inj: "inj_on ID (set variants)" using assms(1) by (simp add: distinct_map)
  have "set (aggressiveSelect reason hint variants) = set variants"
    using inj_on_image_eq_iff [OF inj b(2)] b(3) by blast
  moreover have "distinct variants" "distinct (aggressiveSelect reason hint variants)"
    using assms(1) b(1) by (auto simp: distinct_ids_def distinct_map)
  ultimately show ?thesis unfolding eq by (metis set_eq_iff_mset_eq_distinct)
qed (simp add: SelectVariants_def)

lemma aggressive_permutes_witness:
  "mset (SelectVariants ''aggressive'' ''tls_rst'' BlockTLS 1 [sample_vless, sample_awg])
     = mset [sample_vless, sample_awg]"
  by (rule aggressive_permutes) (simp_all add: sample_vless_def sample_awg_def fl_lits)

text \<open>
  The first choice. With a reason that is trusted, the first variant tried is the first one
  of the pool whose id has the reason's first pattern, in every profile.
\<close>

theorem first_choice:
  assumes "fl 0.4 \<le> confidence"
    and "patternsForReason reason hint (profile = ''compat'') = p # ps"
    and "find (\<lambda>v. Contains (ID v) p) variants = Some v"
  shows "\<exists>rest. SelectVariants profile reason hint confidence variants = v # rest"
proof -
  have p: "p \<noteq> []" using assms(2) by (auto simp: patternsForReason_def split: if_splits)
  obtain vs where m: "matchByPattern variants p = v # vs"
    using find_filter [OF assms(3)] p by (auto simp: matchByPattern_def)
  have ne: "variants \<noteq> []" using assms(3) by auto
  from ne show ?thesis
  proof (cases rule: select_cases [of variants profile confidence reason hint])
    case (compat r)
    with assms(1,2) have "patternsForReason r hint True = p # ps" by auto
    moreover obtain new where "by_patterns variants (p # ps) [] = v # new"
      using by_patterns_hd [OF m] by blast
    ultimately have "compatSelect r hint variants = capVariants (v # new) 3"
      by (simp add: compatSelect_def)
    then show ?thesis using compat(2) capVariants_Cons by simp
  next
    case aggressive
    obtain new where new: "by_patterns variants (p # ps) [] = v # new"
      using by_patterns_hd [OF m] by blast
    have "distinct_ids (v # new)" using by_patterns_props [of "[]" variants "p # ps"] new by simp
    then obtain rest where "appendUnique (v # new) variants = (v # new) @ rest"
      using appendUnique_props by blast
    moreover have "aggressiveSelect reason hint variants = appendUnique (v # new) variants"
      using assms(2) aggressive(1) new by (simp add: aggressiveSelect_def)
    ultimately show ?thesis using aggressive(3) by simp
  next
    case balanced
    obtain new where new: "by_patterns variants (p # ps) [] = v # new"
      using by_patterns_hd [OF m] by blast
    let ?f = "filter (\<lambda>v. \<not> (Contains (ID v) '':dpi:awg:aggressive'' \<and> hint \<noteq> BlockProtocol)) variants"
    have "distinct_ids (v # new)" using by_patterns_props [of "[]" variants "p # ps"] new by simp
    then obtain rest where "appendUnique (v # new) ?f = (v # new) @ rest"
      using appendUnique_props by blast
    moreover have "balancedSelect reason hint variants = capVariants (appendUnique (v # new) ?f) 6"
      using assms(2) balanced(1) new by (simp add: balancedSelect_def)
    ultimately show ?thesis using balanced(4) capVariants_Cons by simp
  qed
qed

lemma first_choice_witness:
  "\<exists>rest. SelectVariants ''balanced'' ''tls_rst'' BlockTLS 1
      [sample_awg, sample_vless\<lparr>ID := ''v:dpi:fp:ios''\<rparr>] = sample_vless\<lparr>ID := ''v:dpi:fp:ios''\<rparr> # rest"
proof (rule first_choice)
  show "patternsForReason ''tls_rst'' BlockTLS (''balanced'' = ''compat'')
      = '':dpi:fp:'' # ['':dpi:path:'', '':dpi:tr:tcp'', '':dpi:tr:ws'', '':dpi:mtu'']"
    by code_simp
  show "find (\<lambda>v. Contains (ID v) '':dpi:fp:'') [sample_awg, sample_vless\<lparr>ID := ''v:dpi:fp:ios''\<rparr>]
      = Some (sample_vless\<lparr>ID := ''v:dpi:fp:ios''\<rparr>)"
    by code_simp
qed (simp add: fl_lits)

lemma aggressive_id_patterns:
  assumes "CHR '':'' \<notin> set base"
    and "p \<in> {'':dpi:fp:'', '':dpi:mtu'', '':dpi:path:'', '':dpi:tr:tcp'', '':dpi:tr:ws'',
      '':dpi:tr:httpupgrade'', '':dpi:tr:grpc'', '':dpi:ep'', '':dpi:port'', '':dpi:awg:mild'', '':dpi:tr:''}"
  shows "\<not> Contains (base @ '':dpi:awg:aggressive'') p"
proof -
  have "\<not> Contains '':dpi:awg:aggressive'' p \<and> p = CHR '':'' # tl p"
    using assms(2) by (elim insertE emptyE) (simp_all only:, code_simp+)
  with Contains_skip [OF assms(1), of _ "tl p"] show ?thesis by metis
qed

text \<open>
  The balanced profile holds the strongest obfuscation back. Of the pool generated for a
  tunnel, the aggressive AmneziaWG variant is only selected when the hint is a protocol block
  or the reason says protocol.
\<close>

theorem balanced_holds_back:
  assumes "CHR '':'' \<notin> set (ID tc)" and "v \<in> set (SelectVariants ''balanced'' reason hint confidence variants)"
    and "fl 0.4 \<le> confidence" and "hint \<noteq> BlockProtocol" and "\<not> HasPrefix reason ''protocol_''"
  shows "ID v \<noteq> ID tc @ '':dpi:awg:aggressive''"
proof
  assume id: "ID v = ID tc @ '':dpi:awg:aggressive''"
  let ?ps = "patternsForReason reason hint False"
  let ?a = "by_patterns variants ?ps []"
  have "variants \<noteq> []" using assms(2) by (auto simp: SelectVariants_def)
  then have "v \<in> set (balancedSelect reason hint variants)"
    using assms(2,3) by (simp add: SelectVariants_def)
  moreover have "distinct_ids ?a" using by_patterns_props [of "[]" variants ?ps] by simp
  moreover have "Contains (ID v) '':dpi:awg:aggressive''"
    unfolding id by (metis Contains_infix append_Nil2)
  ultimately have "v \<in> set ?a"
    using appendUnique_props [of ?a "filter (\<lambda>v. \<not> (Contains (ID v) '':dpi:awg:aggressive''
        \<and> hint \<noteq> BlockProtocol)) variants"] capVariants_props(2) assms(4)
    by (fastforce simp: balancedSelect_def Let_def)
  then obtain p where "p \<in> set ?ps" "Contains (ID v) p"
    using by_patterns_props [of "[]" variants ?ps] by auto
  moreover have "set ?ps \<subseteq> {'':dpi:fp:'', '':dpi:mtu'', '':dpi:path:'', '':dpi:tr:tcp'', '':dpi:tr:ws'',
      '':dpi:tr:httpupgrade'', '':dpi:tr:grpc'', '':dpi:ep'', '':dpi:port'', '':dpi:awg:mild'', '':dpi:tr:''}"
    using assms(4,5) by (auto simp: patternsForReason_def)
  ultimately show False using aggressive_id_patterns [OF assms(1)] id by auto
qed

lemma balanced_holds_back_witness:
  "sample_awg \<in> set (SelectVariants ''balanced'' ''tls_rst'' BlockTLS 1
      [sample_awg\<lparr>ID := ''a:dpi:awg:aggressive''\<rparr>, sample_awg])
   \<and> ID sample_awg \<noteq> ID sample_awg @ '':dpi:awg:aggressive''"
proof -
  let ?vs = "[sample_awg\<lparr>ID := ''a:dpi:awg:aggressive''\<rparr>, sample_awg]"
  have "SelectVariants ''balanced'' ''tls_rst'' BlockTLS 1 ?vs = balancedSelect ''tls_rst'' BlockTLS ?vs"
    by (simp add: SelectVariants_def fl_lits)
  moreover have "sample_awg \<in> set (balancedSelect ''tls_rst'' BlockTLS ?vs)" by code_simp
  ultimately have m: "sample_awg \<in> set (SelectVariants ''balanced'' ''tls_rst'' BlockTLS 1 ?vs)" by simp
  have "ID sample_awg \<noteq> ID sample_awg @ '':dpi:awg:aggressive''"
    by (rule balanced_holds_back [OF _ m]) (simp_all add: sample_awg_def fl_lits HasPrefix_def)
  with m show ?thesis ..
qed

text \<open>
  What a protocol verdict leads to. The detector's only protocol verdict carries a reason
  with the prefix of the TCP reasons, so the selection tries the TCP patterns and never the
  stronger obfuscation patterns that stand under the protocol case.
\<close>

theorem protocol_verdict_patterns:
  assumes "d_BlockType (Detect env targets m) = BlockProtocol"
  shows "patternsForReason (d_ReasonCode (Detect env targets m)) (d_BlockType (Detect env targets m)) safe
    = ['':dpi:ep'', '':dpi:port'', '':dpi:mtu'', '':dpi:awg:mild'']"
  by (simp only: Detect_protocol_reason [OF assms]) (simp add: patternsForReason_def HasPrefix_def)

definition rst_injection :: detect_env where
  "rst_injection = \<lparr>dt_now = 1, dt_dial = (\<lambda>m a. (Some (OpError (Errno ECONNRESET ''reset'') ''dial: reset''),
     5 * millisecond)), dt_http = (\<lambda>m u. None), dt_https = (\<lambda>m u. Inr 200)\<rparr>"

lemma protocol_verdict_patterns_witness:
  "patternsForReason (d_ReasonCode (Detect rst_injection [one_target] 0)) BlockProtocol False
     = ['':dpi:ep'', '':dpi:port'', '':dpi:mtu'', '':dpi:awg:mild'']"
proof -
  have "d_BlockType (Detect rst_injection [one_target] 0) = BlockProtocol"
    by (simp add: Detect_def rst_injection_def classifyTCPError_def step_defs isRSTError_def
        as_op_error_def errors_Is_def unit_defs Let_def)
  from protocol_verdict_patterns [OF this, of False] this show ?thesis by simp
qed

end
