(* ===== verification/Dpi_Learned.thy ===== *)
theory Dpi_Learned
  imports Dpi_Variants
begin

text \<open>
  \<open>daemon/internal/dpi/persist.go\<close>: the database of variants that have worked. It lives in a
  map from variant ids, in the runtime file and in the copy that survives a reboot; both
  files are part of the state here.
\<close>

section \<open>State\<close>

record LearnedEntry =
  le_BaseConfigID :: string
  VariantSuffix :: string
  EffectiveMTU :: int
  EffectiveFP :: string
  EffectiveTrans :: string
  AWGProfile :: string
  SuccessCount :: int
  LastSuccess :: gotime

record LearnedDB =
  l_entries :: "(string \<times> LearnedEntry) list"
  runtimeFile :: "LearnedEntry list json_file"
  persFile :: "LearnedEntry list json_file"
  runtimeWritable :: bool
  persWritable :: bool

section \<open>Helpers\<close>

definition extractVariantSuffix :: "string \<Rightarrow> string \<Rightarrow> string" where
  "extractVariantSuffix variantID baseID =
     (let pre = baseID @ '':''
      in if length pre < length variantID \<and> take (length pre) variantID = pre
         then drop (length pre) variantID else variantID)"

definition extractAWGProfile :: "string \<Rightarrow> string" where
  "extractAWGProfile variantID =
     (case find (\<lambda>p. length p \<le> length variantID
                   \<and> drop (length variantID - length p) variantID = p)
             [''mild'', ''moderate'', ''aggressive''] of
        None \<Rightarrow> [] | Some p \<Rightarrow> p)"

definition learned_id :: "LearnedEntry \<Rightarrow> string" where
  "learned_id e = le_BaseConfigID e @ '':'' @ VariantSuffix e"

text \<open>The three updates of the copy, each behind the code's guard.\<close>

definition apply_vless :: "LearnedEntry \<Rightarrow> VLESSConfig \<Rightarrow> VLESSConfig" where
  "apply_vless e vl =
     (let vl = (if EffectiveFP e \<noteq> [] then vl\<lparr>Fingerprint := EffectiveFP e\<rparr> else vl)
      in if EffectiveTrans e \<noteq> [] then vl\<lparr>Transport := EffectiveTrans e\<rparr> else vl)"

definition apply_awg :: "LearnedEntry \<Rightarrow> AmneziaWGConfig \<Rightarrow> AmneziaWGConfig" where
  "apply_awg e awg =
     (if AWGProfile e = [] then awg
      else case find (\<lambda>p. prof_name p = AWGProfile e) awgProfiles of
        None \<Rightarrow> awg
      | Some p \<Rightarrow> awg\<lparr>JunkPacketCount := jc p, JunkPacketMinSize := jmin p,
                      JunkPacketMaxSize := jmax p, InitPacketJunkSize := s1 p,
                      ResponsePacketJunkSize := s2 p\<rparr>)"

definition rebuildVariant :: "TunnelConfig option \<Rightarrow> LearnedEntry \<Rightarrow> TunnelConfig option" where
  "rebuildVariant base e =
     (case base of
        None \<Rightarrow> None
      | Some b \<Rightarrow>
          (case Protocol b of
             OtherProtocol _ \<Rightarrow> None
           | _ \<Rightarrow>
               let v = b\<lparr>ID := learned_id e, IsVariant := True, BaseConfigID := le_BaseConfigID e\<rparr>;
                   v = (if 0 < EffectiveMTU e then v\<lparr>MTU := EffectiveMTU e\<rparr> else v);
                   v = v\<lparr>VLESS := map_option (apply_vless e) (VLESS v)\<rparr>
               in Some (v\<lparr>AmneziaWG := map_option (apply_awg e) (AmneziaWG v)\<rparr>)))"

section \<open>Operations\<close>

definition save_learned :: "LearnedDB \<Rightarrow> LearnedDB" where
  "save_learned db =
     (let list = map snd (l_entries db);
          db = (if runtimeWritable db then db\<lparr>runtimeFile := JSON list\<rparr> else db)
      in if persWritable db then db\<lparr>persFile := JSON list\<rparr> else db)"

definition loadFrom :: "LearnedEntry list json_file \<Rightarrow> LearnedDB \<Rightarrow> bool \<times> LearnedDB" where
  "loadFrom file db =
     (case file of
        JSON list \<Rightarrow>
          (True, db\<lparr>l_entries := index_by learned_id (l_entries db) list\<rparr>)
      | _ \<Rightarrow> (False, db))"

definition load_learned :: "LearnedDB \<Rightarrow> LearnedDB" where
  "load_learned db =
     (case loadFrom (persFile db) db of
        (True, db) \<Rightarrow> db
      | (False, db) \<Rightarrow> snd (loadFrom (runtimeFile db) db))"

definition NewLearnedDB ::
  "LearnedEntry list json_file \<Rightarrow> LearnedEntry list json_file \<Rightarrow> bool \<Rightarrow> bool \<Rightarrow> LearnedDB" where
  "NewLearnedDB runtime pers rw pw =
     load_learned \<lparr>l_entries = [], runtimeFile = runtime, persFile = pers,
       runtimeWritable = rw, persWritable = pw\<rparr>"

definition capture :: "TunnelConfig \<Rightarrow> gotime \<Rightarrow> LearnedEntry \<Rightarrow> LearnedEntry" where
  "capture variant now e =
     (let e = e\<lparr>SuccessCount := SuccessCount e + 1, LastSuccess := now\<rparr>;
          e = (if 0 < MTU variant then e\<lparr>EffectiveMTU := MTU variant\<rparr> else e);
          e = (case VLESS variant of
                 None \<Rightarrow> e
               | Some vl \<Rightarrow> e\<lparr>EffectiveFP := Fingerprint vl, EffectiveTrans := Transport vl\<rparr>)
      in case AmneziaWG variant of
           None \<Rightarrow> e
         | Some _ \<Rightarrow> e\<lparr>AWGProfile := extractAWGProfile (ID variant)\<rparr>)"

definition new_entry :: "TunnelConfig \<Rightarrow> LearnedEntry" where
  "new_entry variant =
     \<lparr>le_BaseConfigID = BaseConfigID variant,
      VariantSuffix = extractVariantSuffix (ID variant) (BaseConfigID variant),
      EffectiveMTU = 0, EffectiveFP = [], EffectiveTrans = [], AWGProfile = [],
      SuccessCount = 0, LastSuccess = 0\<rparr>"

definition RecordLearned :: "gotime \<Rightarrow> TunnelConfig \<Rightarrow> LearnedDB \<Rightarrow> LearnedDB" where
  "RecordLearned now variant db =
     (if \<not> IsVariant variant then db
      else let e = (case map_of (l_entries db) (ID variant) of
                      None \<Rightarrow> new_entry variant | Some e \<Rightarrow> e)
           in save_learned (db\<lparr>l_entries :=
                AList.update (ID variant) (capture variant now e) (l_entries db)\<rparr>))"

text \<open>
  \<open>sort.Slice\<close> by descending count. It is not stable, but the order in which the map is
  visited is open, so a stable sort of an arbitrary order has every outcome it can have.
\<close>

definition matched :: "string \<Rightarrow> LearnedDB \<Rightarrow> LearnedEntry list" where
  "matched baseID db =
     sort_key (\<lambda>e. - SuccessCount e)
       (filter (\<lambda>e. le_BaseConfigID e = baseID \<and> 0 < SuccessCount e) (map snd (l_entries db)))"

definition GetCandidates :: "LearnedDB \<Rightarrow> string \<Rightarrow> TunnelConfig option \<Rightarrow> TunnelConfig list" where
  "GetCandidates db baseID baseConfig = List.map_filter (rebuildVariant baseConfig) (matched baseID db)"

definition CountLearned :: "LearnedDB \<Rightarrow> nat" where
  "CountLearned db = length (l_entries db)"

section \<open>Lemmas\<close>

text \<open>
  The invariant: distinct keys, each the id its entry spells.
\<close>

definition learned_inv :: "LearnedDB \<Rightarrow> bool" where
  "learned_inv db \<longleftrightarrow> keys_distinct (l_entries db)
     \<and> (\<forall>(k, e)\<in>set (l_entries db). k = learned_id e)"

lemma capture_frame [simp]:
  "le_BaseConfigID (capture v now e) = le_BaseConfigID e"
  "VariantSuffix (capture v now e) = VariantSuffix e"
  "SuccessCount (capture v now e) = SuccessCount e + 1"
  "LastSuccess (capture v now e) = now"
  "learned_id (capture v now e) = learned_id e"
  by (simp_all add: capture_def Let_def learned_id_def split: option.split)

lemma save_learned_frame [simp]: "l_entries (save_learned db) = l_entries db"
  by (simp add: save_learned_def Let_def)

lemma suffix_roundtrip:
  "suf \<noteq> [] \<Longrightarrow> extractVariantSuffix (base @ '':'' @ suf) base = suf"
  by (simp add: extractVariantSuffix_def Let_def)

lemma new_entry_id:
  assumes "ID v = BaseConfigID v @ '':'' @ suf" and "suf \<noteq> []"
  shows "learned_id (new_entry v) = ID v"
  using assms suffix_roundtrip [OF assms(2), of "BaseConfigID v"]
  by (simp add: learned_id_def new_entry_def)

lemma learned_inv_get:
  "learned_inv db \<Longrightarrow> map_of (l_entries db) k = Some e \<Longrightarrow> learned_id e = k"
  unfolding learned_inv_def by (drule map_of_SomeD) fastforce

lemma RecordLearned_entries:
  assumes "IsVariant v"
  shows "map_of (l_entries (RecordLearned now v db))
    = (map_of (l_entries db))(ID v \<mapsto>
        capture v now (case map_of (l_entries db) (ID v) of None \<Rightarrow> new_entry v | Some e \<Rightarrow> e))"
  using assms by (simp add: RecordLearned_def Let_def update_conv')

lemma RecordLearned_inv:
  assumes "learned_inv db" and "ID v = BaseConfigID v @ '':'' @ suf" and "suf \<noteq> []"
  shows "learned_inv (RecordLearned now v db)"
proof (cases "IsVariant v")
  case True
  let ?e = "case map_of (l_entries db) (ID v) of None \<Rightarrow> new_entry v | Some e \<Rightarrow> e"
  have kd: "keys_distinct (l_entries db)" using assms(1) by (simp add: learned_inv_def)
  have "learned_id ?e = ID v"
    using learned_inv_get [OF assms(1)] new_entry_id [OF assms(2,3)] by (simp split: option.split)
  then have id: "learned_id (capture v now ?e) = ID v" by simp
  have kd': "keys_distinct (AList.update (ID v) (capture v now ?e) (l_entries db))"
    using kd by (rule gomap.put_ok)
  have "k = learned_id e" if "(k, e) \<in> set (AList.update (ID v) (capture v now ?e) (l_entries db))"
    for k e
  proof -
    have "map_of (AList.update (ID v) (capture v now ?e) (l_entries db)) k = Some e"
      using that kd' by (simp add: keys_distinct_def)
    then have "k = ID v \<and> e = capture v now ?e \<or> map_of (l_entries db) k = Some e"
      by (simp only: gomap.get_put split: if_splits) auto
    then show ?thesis using id learned_inv_get [OF assms(1)] by auto
  qed
  with kd' True show ?thesis by (auto simp: learned_inv_def RecordLearned_def Let_def)
qed (use assms(1) in \<open>simp add: RecordLearned_def\<close>)

lemma load_inv: "learned_inv (NewLearnedDB runtime pers rw pw)"
proof -
  have k: "k = learned_id e" if "(k, e) \<in> set (index_by learned_id [] es)" for k e es
  proof -
    have "map_of (index_by learned_id [] es) k = Some e"
      using that index_by_distinct [of "[]" learned_id es] by (simp add: keys_distinct_def)
    then show ?thesis by (auto dest: index_by_get)
  qed
  then show ?thesis
    by (auto intro!: index_by_distinct simp: learned_inv_def NewLearnedDB_def load_learned_def loadFrom_def split: json_file.split)
qed

lemma rebuild_known:
  assumes "Protocol b \<in> {ProtocolWireGuard, ProtocolAmneziaWG, ProtocolVLESS}"
  shows "rebuildVariant (Some b) e = Some (b\<lparr>ID := learned_id e, IsVariant := True,
      BaseConfigID := le_BaseConfigID e, MTU := (if 0 < EffectiveMTU e then EffectiveMTU e else MTU b),
      VLESS := map_option (apply_vless e) (VLESS b),
      AmneziaWG := map_option (apply_awg e) (AmneziaWG b)\<rparr>)"
  using assms by (auto simp: rebuildVariant_def Let_def)

lemma apply_awg_endpoint [simp]: "Endpoint (apply_awg e a) = Endpoint a"
  by (simp add: apply_awg_def split: option.split)

lemma apply_vless_fields [simp]:
  "TransportPath (apply_vless e vl) = TransportPath vl" "ECH (apply_vless e vl) = ECH vl"
  "Port (apply_vless e vl) = Port vl"
  by (simp_all add: apply_vless_def Let_def)

section \<open>Properties\<close>

text \<open>
  A success is counted. Recording a variant raises its count by one and stamps it, starts
  at one for a new variant, touches no other entry, keeps the keys spelling their entries, and
  leaves both files holding the new map when they can be written.
\<close>

theorem RecordLearned_counts:
  assumes "learned_inv db" and "IsVariant v" and "ID v = BaseConfigID v @ '':'' @ suf" and "suf \<noteq> []"
  shows "\<exists>e. map_of (l_entries (RecordLearned now v db)) (ID v) = Some e
    \<and> SuccessCount e = (case map_of (l_entries db) (ID v) of None \<Rightarrow> 1 | Some e' \<Rightarrow> SuccessCount e' + 1)
    \<and> LastSuccess e = now \<and> learned_id e = ID v
    \<and> (\<forall>k. k \<noteq> ID v \<longrightarrow> map_of (l_entries (RecordLearned now v db)) k = map_of (l_entries db) k)
    \<and> learned_inv (RecordLearned now v db)
    \<and> (persWritable db \<longrightarrow> persFile (RecordLearned now v db)
          = JSON (map snd (l_entries (RecordLearned now v db))))"
proof -
  let ?e = "case map_of (l_entries db) (ID v) of None \<Rightarrow> new_entry v | Some e \<Rightarrow> e"
  have "learned_id ?e = ID v"
    using learned_inv_get [OF assms(1)] new_entry_id [OF assms(3,4)] by (simp split: option.split)
  moreover have "SuccessCount (new_entry v) = 0" by (simp add: new_entry_def)
  moreover have "persFile (RecordLearned now v db) = JSON (map snd (l_entries (RecordLearned now v db)))"
    if "persWritable db" using that assms(2) by (simp add: RecordLearned_def save_learned_def Let_def)
  ultimately show ?thesis
    using RecordLearned_inv [OF assms(1,3,4)]
    by (intro exI [of _ "capture v now ?e"])
      (auto simp: RecordLearned_entries [OF assms(2)] split: option.split)
qed

definition empty_learned :: LearnedDB where
  "empty_learned = NewLearnedDB NoFile NoFile True True"

definition learned_sample :: TunnelConfig where
  "learned_sample = sample_vless\<lparr>ID := ''v:dpi:fp:ios'', IsVariant := True, BaseConfigID := ''v'',
     VLESS := Some (zero_vless\<lparr>Fingerprint := ''ios'', Transport := ''ws'', Port := 443\<rparr>)\<rparr>"

lemma RecordLearned_counts_witness:
  "\<exists>e. map_of (l_entries (RecordLearned 9 learned_sample empty_learned)) ''v:dpi:fp:ios'' = Some e
    \<and> SuccessCount e = 1"
proof -
  have none: "map_of (l_entries empty_learned) ''v:dpi:fp:ios'' = None" by code_simp
  show ?thesis
    using RecordLearned_counts [of empty_learned learned_sample "''dpi:fp:ios''" 9] none load_inv
    by (simp add: learned_sample_def empty_learned_def) blast
qed

text \<open>
  What is learned is durable: a recorded variant is a variant generated from its base, and the
  persistent file, which is read first, holds the map after each recording.
\<close>

fun record_step :: "gotime \<times> TunnelConfig \<Rightarrow> LearnedDB \<Rightarrow> LearnedDB" where
  "record_step (now, v) db = RecordLearned now v db"

fun named_variant :: "gotime \<times> TunnelConfig \<Rightarrow> bool" where
  "named_variant (now, v) \<longleftrightarrow>
     (let p = BaseConfigID v @ '':'' in HasPrefix (ID v) p \<and> length p < length (ID v))"

lemma named_variant_suffix:
  "named_variant (now, v) \<Longrightarrow> \<exists>suf. ID v = BaseConfigID v @ '':'' @ suf \<and> suf \<noteq> []"
  by (auto simp: HasPrefix_iff Let_def)

lemma reopen_learned:
  assumes "learned_inv db"
  shows "map_of (l_entries (NewLearnedDB runtime (JSON (map snd (l_entries db))) rw pw)) = map_of (l_entries db)"
proof -
  have "map_of (index_by learned_id [] (map snd (l_entries db))) = map_of (l_entries db)"
    using assms by (intro index_by_values) (auto simp: learned_inv_def)
  then show ?thesis by (simp add: NewLearnedDB_def load_learned_def loadFrom_def)
qed

interpretation ln: durable record_step named_variant "\<lambda>db. learned_inv db \<and> persWritable db"
    "\<lambda>db. NewLearnedDB (runtimeFile db) (persFile db) True True" "\<lambda>db. map_of (l_entries db)"
proof
  fix db and e :: "gotime \<times> TunnelConfig"
  assume db: "learned_inv db \<and> persWritable db" and "named_variant e"
  obtain now v where e: "e = (now, v)" by (cases e)
  obtain suf where "ID v = BaseConfigID v @ '':'' @ suf" "suf \<noteq> []"
    using named_variant_suffix \<open>named_variant e\<close> e by blast
  then have inv: "learned_inv (RecordLearned now v db)" using RecordLearned_inv db by blast
  with db show sound: "learned_inv (record_step e db) \<and> persWritable (record_step e db)"
    by (simp add: e RecordLearned_def save_learned_def Let_def)
  assume same: "map_of (l_entries (NewLearnedDB (runtimeFile db) (persFile db) True True))
      = map_of (l_entries db)"
  show "map_of (l_entries (NewLearnedDB (runtimeFile (record_step e db)) (persFile (record_step e db)) True True))
      = map_of (l_entries (record_step e db))"
  proof (cases "IsVariant v")
    case True
    with db have "persFile (RecordLearned now v db) = JSON (map snd (l_entries (RecordLearned now v db)))"
      by (simp add: RecordLearned_def save_learned_def Let_def)
    then show ?thesis using reopen_learned [OF inv] by (simp add: e)
  qed (use same in \<open>simp add: e RecordLearned_def\<close>)
qed

text \<open>
  C37: what was learned survives restarts. Whatever the two files held at the first start, with
  a persistent file that can be written, after any sequence of recordings of generated variants
  the database read back has the same entry under every id.
\<close>

theorem learned_restart:
  assumes "list_all named_variant vs"
  shows "map_of (l_entries (NewLearnedDB (runtimeFile (fold record_step vs (NewLearnedDB r p rw True)))
        (persFile (fold record_step vs (NewLearnedDB r p rw True))) True True))
    = map_of (l_entries (fold record_step vs (NewLearnedDB r p rw True)))"
  using assms
  by (intro ln.restart_lossless)
    (simp_all add: load_inv, simp_all add: NewLearnedDB_def load_learned_def loadFrom_def split: json_file.split)

lemma learned_restart_witness:
  "map_of (l_entries (NewLearnedDB (runtimeFile (fold record_step [(9, learned_sample), (11, learned_sample)]
        (NewLearnedDB Garbage NoFile True True)))
      (persFile (fold record_step [(9, learned_sample), (11, learned_sample)]
        (NewLearnedDB Garbage NoFile True True))) True True))
     = map_of (l_entries (fold record_step [(9, learned_sample), (11, learned_sample)]
        (NewLearnedDB Garbage NoFile True True)))"
  by (rule learned_restart) (simp add: learned_sample_def HasPrefix_iff)

lemma candidates_map:
  assumes "Protocol b \<in> {ProtocolWireGuard, ProtocolAmneziaWG, ProtocolVLESS}"
  shows "map ID (GetCandidates db baseID (Some b)) = map learned_id (matched baseID db)
    \<and> (\<forall>v\<in>set (GetCandidates db baseID (Some b)). IsVariant v \<and> BaseConfigID v = baseID)"
proof -
  have m: "map ID (List.map_filter (rebuildVariant (Some b)) es) = map learned_id es" for es
    by (induction es) (simp_all add: List.map_filter_simps rebuild_known [OF assms])
  have b: "\<forall>v\<in>set (List.map_filter (rebuildVariant (Some b)) es). IsVariant v \<and> BaseConfigID v = baseID"
    if "\<forall>e\<in>set es. le_BaseConfigID e = baseID" for es
    using that by (induction es) (simp_all add: List.map_filter_simps rebuild_known [OF assms])
  show ?thesis
    using m [of "matched baseID db"] b [of "matched baseID db"]
    by (simp add: GetCandidates_def matched_def)
qed

text \<open>
  C36: the candidates of a base. They are rebuilt from exactly the base's entries that have a
  success, each id once, the most successful ones first.
\<close>

theorem candidates_ranked:
  assumes "learned_inv db" and "Protocol b \<in> {ProtocolWireGuard, ProtocolAmneziaWG, ProtocolVLESS}"
  shows "\<exists>es. map ID (GetCandidates db baseID (Some b)) = map learned_id es
    \<and> distinct (map ID (GetCandidates db baseID (Some b)))
    \<and> sorted_wrt (\<lambda>x y. SuccessCount y \<le> SuccessCount x) es
    \<and> (\<forall>e. e \<in> set es \<longleftrightarrow> map_of (l_entries db) (learned_id e) = Some e
          \<and> le_BaseConfigID e = baseID \<and> 0 < SuccessCount e)
    \<and> (\<forall>v\<in>set (GetCandidates db baseID (Some b)). IsVariant v \<and> BaseConfigID v = baseID)"
proof -
  let ?es = "matched baseID db"
  have d: "distinct (map fst (l_entries db))" using assms(1) by (simp add: learned_inv_def keys_distinct_def)
  have keys: "map fst (l_entries db) = map learned_id (map snd (l_entries db))"
    using assms(1) by (auto simp: learned_inv_def)
  then have "distinct (map learned_id (map snd (l_entries db)))" using d by metis
  then have "distinct (map learned_id (filter (\<lambda>e. le_BaseConfigID e = baseID \<and> 0 < SuccessCount e)
      (map snd (l_entries db))))"
    by (rule distinct_map_filter)
  then have "distinct (map learned_id ?es)"
    by (simp add: matched_def distinct_map)
  moreover have "sorted_wrt (\<lambda>x y. SuccessCount y \<le> SuccessCount x) ?es"
  proof -
    have "sorted (map (\<lambda>e. - SuccessCount e) ?es)" by (simp add: matched_def)
    then show ?thesis by (simp add: sorted_wrt_map)
  qed
  moreover have "e \<in> set (map snd (l_entries db)) \<longleftrightarrow> map_of (l_entries db) (learned_id e) = Some e" for e
  proof
    assume "e \<in> set (map snd (l_entries db))"
    then obtain k where "(k, e) \<in> set (l_entries db)" by auto
    then show "map_of (l_entries db) (learned_id e) = Some e"
      using d learned_inv_get [OF assms(1)] by (metis map_of_is_SomeI)
  qed (force dest: map_of_SomeD)
  ultimately show ?thesis
    using candidates_map [OF assms(2), of db baseID]
    by (intro exI [of _ ?es]) (auto simp: matched_def)
qed

lemma candidates_ranked_witness:
  "\<exists>es. map ID (GetCandidates (RecordLearned 9 learned_sample empty_learned) ''v'' (Some sample_vless))
     = map learned_id es"
proof -
  have "learned_inv empty_learned" by (simp add: empty_learned_def load_inv)
  then have "learned_inv (RecordLearned 9 learned_sample empty_learned)"
    by (rule RecordLearned_inv [where suf = "''dpi:fp:ios''"]) (simp_all add: learned_sample_def)
  from candidates_ranked [OF this, of sample_vless "''v''"] show ?thesis
    by (simp add: sample_vless_def) blast
qed

lemma dpi_suffix:
  "extractVariantSuffix (dpi_id tc suf) (ID tc) = ''dpi:'' @ suf"
  using suffix_roundtrip [of "''dpi:'' @ suf" "ID tc"] by (simp add: dpi_id_def)

lemma learned_id_marked:
  "learned_id (new_entry (mark_variant tc suf v)) = dpi_id tc suf
   \<and> le_BaseConfigID (new_entry (mark_variant tc suf v)) = ID tc"
  by (simp add: new_entry_def mark_variant_def learned_id_def dpi_suffix) (simp add: dpi_id_def)

lemma capture_fields:
  "EffectiveMTU (capture v now (new_entry w)) = (if 0 < MTU v then MTU v else 0)"
  "VLESS v = Some vl \<Longrightarrow> EffectiveFP (capture v now (new_entry w)) = Fingerprint vl
     \<and> EffectiveTrans (capture v now (new_entry w)) = Transport vl"
  "VLESS v = None \<Longrightarrow> EffectiveFP (capture v now (new_entry w)) = []
     \<and> EffectiveTrans (capture v now (new_entry w)) = []"
  by (simp_all add: capture_def new_entry_def Let_def split: option.split)

lemma replay_shapes:
  "v \<in> set (mtu_variants tc) \<Longrightarrow>
     \<exists>m. 0 < m \<and> v = mark_variant tc (''mtu'' @ Itoa m) (tc\<lparr>MTU := m\<rparr>)"
  "v \<in> set (vlessFingerprintVariants tc vl) \<Longrightarrow>
     \<exists>fp. fp \<noteq> [] \<and> v = mark_variant tc (''fp:'' @ fp) (tc\<lparr>VLESS := Some (vl\<lparr>Fingerprint := fp\<rparr>)\<rparr>)"
  "v \<in> set (vlessTransportVariants tc vl) \<Longrightarrow> TransportPath vl \<noteq> [] \<Longrightarrow>
     \<exists>tr. tr \<noteq> [] \<and> v = mark_variant tc (''tr:'' @ tr) (tc\<lparr>VLESS := Some (vl\<lparr>Transport := tr\<rparr>)\<rparr>)"
proof -
  have t: "\<forall>m\<in>set mtuVariants. 0 < m" "\<forall>fp\<in>set vlessFingerprints. fp \<noteq> []"
      "\<forall>tr\<in>set vlessTransports. tr \<noteq> []"
    by (simp_all add: tables)
  show "v \<in> set (mtu_variants tc) \<Longrightarrow>
     \<exists>m. 0 < m \<and> v = mark_variant tc (''mtu'' @ Itoa m) (tc\<lparr>MTU := m\<rparr>)"
    using t(1) by (auto simp: mtu_variants_def)
  show "v \<in> set (vlessFingerprintVariants tc vl) \<Longrightarrow>
     \<exists>fp. fp \<noteq> [] \<and> v = mark_variant tc (''fp:'' @ fp) (tc\<lparr>VLESS := Some (vl\<lparr>Fingerprint := fp\<rparr>)\<rparr>)"
    using t(2) by (auto simp: vlessFingerprintVariants_def)
  show "\<exists>tr. tr \<noteq> [] \<and> v = mark_variant tc (''tr:'' @ tr) (tc\<lparr>VLESS := Some (vl\<lparr>Transport := tr\<rparr>)\<rparr>)"
    if "v \<in> set (vlessTransportVariants tc vl)" "TransportPath vl \<noteq> []"
  proof -
    have "vl\<lparr>Transport := tr, TransportPath := TransportPath vl\<rparr> = vl\<lparr>Transport := tr\<rparr>" for tr by simp
    then show ?thesis using that t(3) by (auto simp: vlessTransportVariants_def)
  qed
qed

lemma replay_mtu:
  assumes "Protocol tc \<in> {ProtocolWireGuard, ProtocolAmneziaWG, ProtocolVLESS}" and "AmneziaWG tc = None"
    and "0 < m" and "v = mark_variant tc (''mtu'' @ Itoa m) (tc\<lparr>MTU := m\<rparr>)"
  shows "rebuildVariant (Some tc) (capture v now (new_entry v)) = Some v"
proof -
  have "map_option (apply_vless (capture v now (new_entry v))) (VLESS tc) = VLESS tc"
    using capture_fields(2) [of v _ now v]
    by (cases "VLESS tc") (simp_all add: apply_vless_def Let_def assms(4) mark_variant_def)
  then show ?thesis
    using assms(3) learned_id_marked [of tc "''mtu'' @ Itoa m" "tc\<lparr>MTU := m\<rparr>"]
    unfolding rebuild_known [OF assms(1)]
    by (simp add: capture_fields assms(2,4)) (simp add: mark_variant_def assms(2))
qed

lemma replay_vless:
  assumes "Protocol tc \<in> {ProtocolWireGuard, ProtocolAmneziaWG, ProtocolVLESS}" and "AmneziaWG tc = None"
    and "VLESS tc = Some vl" and "v = mark_variant tc suf (tc\<lparr>VLESS := Some vl'\<rparr>)"
    and "apply_vless (capture v now (new_entry v)) vl = vl'"
  shows "rebuildVariant (Some tc) (capture v now (new_entry v)) = Some v"
  using learned_id_marked [of tc suf "tc\<lparr>VLESS := Some vl'\<rparr>"] assms(2-5)
  unfolding rebuild_known [OF assms(1)]
  by (simp add: capture_fields) (simp add: mark_variant_def)

lemma replay_apply:
  assumes "v = mark_variant tc suf (tc\<lparr>VLESS := Some vl'\<rparr>)"
  shows "apply_vless (capture v now (new_entry v)) vl
    = vl\<lparr>Fingerprint := (if Fingerprint vl' \<noteq> [] then Fingerprint vl' else Fingerprint vl),
         Transport := (if Transport vl' \<noteq> [] then Transport vl' else Transport vl)\<rparr>"
  using capture_fields(2) [of v vl' now v] assms
  by (simp add: apply_vless_def Let_def mark_variant_def)

text \<open>
  Faithful replay. A fingerprint or MTU variant, and a transport variant of a base with a
  path, is rebuilt from what its first success recorded exactly as it was tried.
\<close>

theorem learned_replay:
  assumes "Protocol tc \<in> {ProtocolWireGuard, ProtocolVLESS}" and "AmneziaWG tc = None"
    and "v \<in> set (mtu_variants tc)
      \<or> (\<exists>vl. VLESS tc = Some vl \<and> (v \<in> set (vlessFingerprintVariants tc vl)
            \<or> v \<in> set (vlessTransportVariants tc vl) \<and> TransportPath vl \<noteq> []))"
  shows "rebuildVariant (Some tc) (capture v now (new_entry v)) = Some v"
proof -
  have p: "Protocol tc \<in> {ProtocolWireGuard, ProtocolAmneziaWG, ProtocolVLESS}" using assms(1) by auto
  from assms(3) consider
    (mtu) "v \<in> set (mtu_variants tc)"
  | (fp) vl where "VLESS tc = Some vl" "v \<in> set (vlessFingerprintVariants tc vl)"
  | (tr) vl where "VLESS tc = Some vl" "v \<in> set (vlessTransportVariants tc vl)" "TransportPath vl \<noteq> []"
    by (elim disjE exE conjE)
  then show ?thesis
  proof cases
    case mtu
    from replay_shapes(1) [OF this] show ?thesis using replay_mtu [OF p assms(2)] by blast
  next
    case fp
    from replay_shapes(2) [OF fp(2)] obtain f where f: "f \<noteq> []"
      "v = mark_variant tc (''fp:'' @ f) (tc\<lparr>VLESS := Some (vl\<lparr>Fingerprint := f\<rparr>)\<rparr>)" by blast
    show ?thesis
      by (rule replay_vless [OF p assms(2) fp(1) f(2)]) (simp add: replay_apply [OF f(2)] f(1))
  next
    case tr
    from replay_shapes(3) [OF tr(2,3)] obtain t where t: "t \<noteq> []"
      "v = mark_variant tc (''tr:'' @ t) (tc\<lparr>VLESS := Some (vl\<lparr>Transport := t\<rparr>)\<rparr>)" by blast
    show ?thesis
      by (rule replay_vless [OF p assms(2) tr(1) t(2)]) (simp add: replay_apply [OF t(2)] t(1))
  qed
qed

lemma learned_replay_witness:
  "rebuildVariant (Some sample_vless)
     (capture (hd (vlessFingerprintVariants sample_vless (the (VLESS sample_vless)))) 9
       (new_entry (hd (vlessFingerprintVariants sample_vless (the (VLESS sample_vless))))))
   = Some (hd (vlessFingerprintVariants sample_vless (the (VLESS sample_vless))))"
proof (rule learned_replay)
  show "Protocol sample_vless \<in> {ProtocolWireGuard, ProtocolVLESS}" by (simp add: sample_vless_def)
  show "AmneziaWG sample_vless = None" by (simp add: sample_vless_def zero_tc_def)
  have "hd (vlessFingerprintVariants sample_vless (the (VLESS sample_vless)))
      \<in> set (vlessFingerprintVariants sample_vless (the (VLESS sample_vless)))"
    by (intro hd_in_set) code_simp
  moreover have "VLESS sample_vless = Some (the (VLESS sample_vless))" by (simp add: sample_vless_def)
  ultimately show "hd (vlessFingerprintVariants sample_vless (the (VLESS sample_vless)))
      \<in> set (mtu_variants sample_vless)
    \<or> (\<exists>vl. VLESS sample_vless = Some vl \<and>
        (hd (vlessFingerprintVariants sample_vless (the (VLESS sample_vless)))
            \<in> set (vlessFingerprintVariants sample_vless vl)
         \<or> hd (vlessFingerprintVariants sample_vless (the (VLESS sample_vless)))
            \<in> set (vlessTransportVariants sample_vless vl) \<and> TransportPath vl \<noteq> []))"
    by blast
qed

text \<open>
  What the entries cannot hold. A port, path or ECH variant of a VLESS tunnel is rebuilt
  with the base's own VLESS settings, and an endpoint variant with the base's endpoint: the
  candidate carries the variant's id but replays the base.
\<close>

theorem learned_loses_port:
  assumes "Protocol tc = ProtocolVLESS" and "VLESS tc = Some vl"
    and "v \<in> set (vlessPortVariants tc vl) \<union> set (vlessPathVariantsForTransport tc vl)
      \<union> set (vlessECHVariants tc vl)"
  shows "\<exists>w. rebuildVariant (Some tc) (capture v now (new_entry v)) = Some w
    \<and> ID w = ID v \<and> VLESS w = VLESS tc \<and> VLESS v \<noteq> VLESS tc"
proof -
  have p: "Protocol tc \<in> {ProtocolWireGuard, ProtocolAmneziaWG, ProtocolVLESS}" using assms(1) by simp
  obtain suf vl' where v: "v = mark_variant tc suf (tc\<lparr>VLESS := Some vl'\<rparr>)"
      and vl': "Fingerprint vl' = Fingerprint vl" "Transport vl' = Transport vl"
        "(TransportPath vl', ECH vl', Port vl') \<noteq> (TransportPath vl, ECH vl, Port vl)"
    using assms(3) by (auto simp: generator_defs split: if_splits)
  have c: "EffectiveFP (capture v now (new_entry v)) = Fingerprint vl"
      "EffectiveTrans (capture v now (new_entry v)) = Transport vl"
    using capture_fields(2) [of v vl' now v] v vl' by (simp_all add: mark_variant_def)
  have "apply_vless (capture v now (new_entry v)) vl = vl" by (simp add: apply_vless_def Let_def c)
  moreover have "VLESS v \<noteq> VLESS tc" using v vl'(3) assms(2) by (auto simp: mark_variant_def)
  moreover have "learned_id (new_entry v) = ID v"
    unfolding v using learned_id_marked by simp
  ultimately show ?thesis using assms(2) by (simp add: rebuild_known [OF p])
qed

lemma learned_loses_port_witness:
  "\<exists>v w. rebuildVariant (Some sample_vless) (capture v 9 (new_entry v)) = Some w
     \<and> VLESS w = VLESS sample_vless \<and> VLESS v \<noteq> VLESS sample_vless"
proof -
  have s: "Protocol sample_vless = ProtocolVLESS" "VLESS sample_vless = Some (the (VLESS sample_vless))"
    by (simp_all add: sample_vless_def)
  have "hd (vlessPortVariants sample_vless (the (VLESS sample_vless)))
      \<in> set (vlessPortVariants sample_vless (the (VLESS sample_vless)))"
    by (intro hd_in_set) code_simp
  with learned_loses_port [OF s] show ?thesis by blast
qed

end
