(* ===== verification/Scoring_DB.thy ===== *)
theory Scoring_DB
  imports Probe_Engine
begin

text \<open>
  \<open>daemon/internal/scoring/scoring.go\<close>: the scores of the configurations. Every float64
  operation of the source is one \<open>fl\<close> here, in the order of the source and without fused
  multiply-add; \<open>math.Exp\<close> is taken as correctly rounded. Constant expressions such as
  \<open>1-ewmaAlpha\<close> are exact and rounded once, as Go does.
\<close>

section \<open>Data\<close>

record Session =
  ss_ConfigID :: string
  ss_StartedAt :: gotime
  ss_Success :: bool
  ss_RTT :: duration
  ss_Loss :: float64

record Entry =
  e_ConfigID :: string
  EWMARTZ :: float64
  EWMALoss :: float64
  SessionSuccess :: float64
  LastUsed :: gotime
  Sessions :: int
  DPIBypassSuccess :: float64
  LastBlockType :: string

definition new_score :: "string \<Rightarrow> Entry" where
  "new_score cid = \<lparr>e_ConfigID = cid, EWMARTZ = 0, EWMALoss = 0, SessionSuccess = 1 / 2,
     LastUsed = 0, Sessions = 0, DPIBypassSuccess = 0, LastBlockType = []\<rparr>"

record scoreDB =
  sc_entries :: "(string \<times> Entry) list"
  sc_file :: "Entry list json_file"
  sc_writable :: bool

section \<open>Scores\<close>

definition clamp01 :: "float64 \<Rightarrow> float64" where
  "clamp01 v = (if v < 0 then 0 else if 1 < v then 1 else v)"

definition protocolSecurity :: "TunnelConfig option \<Rightarrow> float64" where
  "protocolSecurity tc =
     (case tc of
        None \<Rightarrow> fl 0.6
      | Some tc \<Rightarrow>
          (case Protocol tc of
             ProtocolAmneziaWG \<Rightarrow> fl 0.92
           | ProtocolWireGuard \<Rightarrow> fl 0.88
           | ProtocolVLESS \<Rightarrow>
               (case VLESS tc of
                  None \<Rightarrow> fl 0.7
                | Some vl \<Rightarrow> if Security vl = ''reality'' then fl 0.95
                            else if Security vl = ''tls'' then fl 0.85 else fl 0.65)
           | OtherProtocol _ \<Rightarrow> fl 0.6))"

definition Score :: "Entry \<Rightarrow> float64" where
  "Score e =
     (let rttMs = (if EWMARTZ e \<le> 0 then 1000 else EWMARTZ e);
          loss = min (EWMALoss e) 1;
          sw = (if SessionSuccess e = 0 then 1 / 2 else SessionSuccess e);
          dpiBonus = fl (1 + fl (DPIBypassSuccess e * (1 / 2)))
      in fl (fl (fl (fl (fl (1 - loss) * 1000) / rttMs) * sw) * dpiBonus))"

definition Exp :: "float64 \<Rightarrow> float64" where
  "Exp x = fl (exp x)"

definition performance_of :: "float64 \<Rightarrow> float64 \<Rightarrow> float64" where
  "performance_of loss rttMs =
     (let rttNorm = fl (1 / fl (1 + fl (rttMs / 120)))
      in clamp01 (fl (fl (1 - loss) * rttNorm)))"

definition availability_of :: "float64 \<Rightarrow> float64 \<Rightarrow> float64" where
  "availability_of dpi session = clamp01 (fl (fl (fl 0.6 * dpi) + fl (fl 0.4 * session)))"

definition reliability_of :: "float64 \<Rightarrow> int \<Rightarrow> float64" where
  "reliability_of session n =
     (let sampleConf = fl (1 - Exp (fl (- fl (of_int n) / 6)))
      in clamp01 (fl (fl (session * sampleConf) + fl (1 / 2 * fl (1 - sampleConf)))))"

definition weighted :: "float64 \<Rightarrow> float64 \<Rightarrow> float64 \<Rightarrow> float64 \<Rightarrow> float64" where
  "weighted availability performance security reliability =
     fl (100 * fl (fl (fl (fl (fl 0.4 * availability) + fl (fl 0.35 * performance))
                    + fl (fl 0.15 * security)) + fl (fl 0.1 * reliability)))"

definition CompositeScore :: "Entry \<Rightarrow> TunnelConfig option \<Rightarrow> float64" where
  "CompositeScore e tc =
     (let rttMs = (if EWMARTZ e \<le> 0 then 1000 else EWMARTZ e);
          loss = clamp01 (EWMALoss e);
          session = (if SessionSuccess e \<le> 0 then 1 / 2 else SessionSuccess e);
          performance = performance_of loss rttMs;
          dpi = (if LastBlockType e = [] \<and> DPIBypassSuccess e = 0 then 1 / 2 else DPIBypassSuccess e);
          availability = availability_of dpi session;
          reliability = reliability_of session (Sessions e);
          security = protocolSecurity tc
      in weighted availability performance security reliability)"

section \<open>The database\<close>

definition load_scores :: "Entry list json_file \<Rightarrow> (string \<times> Entry) list" where
  "load_scores f =
     (case f of JSON list \<Rightarrow> index_by e_ConfigID [] list | _ \<Rightarrow> [])"

definition NewDB :: "Entry list json_file \<Rightarrow> bool \<Rightarrow> scoreDB" where
  "NewDB f w = \<lparr>sc_entries = load_scores f, sc_file = f, sc_writable = w\<rparr>"

definition save_scores :: "scoreDB \<Rightarrow> scoreDB" where
  "save_scores db =
     (if sc_writable db then db\<lparr>sc_file := JSON (map snd (sc_entries db))\<rparr> else db)"

definition entryOrDefault :: "scoreDB \<Rightarrow> string \<Rightarrow> Entry" where
  "entryOrDefault db cid = (case map_of (sc_entries db) cid of Some e \<Rightarrow> e | None \<Rightarrow> new_score cid)"

text \<open>\<open>entry\<close> creates the entry it does not find; the caller then changes it in place.\<close>

definition with_entry :: "string \<Rightarrow> (Entry \<Rightarrow> Entry) \<Rightarrow> scoreDB \<Rightarrow> scoreDB" where
  "with_entry cid f db =
     db\<lparr>sc_entries := AList.update cid (f (entryOrDefault db cid)) (sc_entries db)\<rparr>"

definition ewma :: "float64 \<Rightarrow> float64 \<Rightarrow> float64" where
  "ewma val old = fl (fl (fl 0.3 * val) + fl (fl 0.7 * old))"

definition probe_entry :: "AggResult \<Rightarrow> Entry \<Rightarrow> Entry" where
  "probe_entry res e =
     (let rttMs = fl (of_int (Milliseconds (AvgRTT res)));
          rttMs = (if rttMs \<le> 0 then 5000 else rttMs)
      in if EWMARTZ e = 0 then e\<lparr>EWMARTZ := rttMs, EWMALoss := PacketLoss res\<rparr>
         else e\<lparr>EWMARTZ := ewma rttMs (EWMARTZ e), EWMALoss := ewma (PacketLoss res) (EWMALoss e)\<rparr>)"

definition RecordProbeResult :: "string \<Rightarrow> AggResult \<Rightarrow> scoreDB \<Rightarrow> scoreDB" where
  "RecordProbeResult cid res db = save_scores (with_entry cid (probe_entry res) db)"

definition session_entry :: "Session \<Rightarrow> Entry \<Rightarrow> Entry" where
  "session_entry sess e =
     (let success = (if ss_Success sess then 1 else 0)
      in e\<lparr>SessionSuccess := ewma success (SessionSuccess e), Sessions := Sessions e + 1,
           LastUsed := ss_StartedAt sess\<rparr>)"

definition RecordSession :: "Session \<Rightarrow> scoreDB \<Rightarrow> scoreDB" where
  "RecordSession sess db = save_scores (with_entry (ss_ConfigID sess) (session_entry sess) db)"

definition dpi_entry :: "string \<Rightarrow> bool \<Rightarrow> Entry \<Rightarrow> Entry" where
  "dpi_entry blockType succeeded e =
     (let e = e\<lparr>LastBlockType := blockType\<rparr>;
          val = (if succeeded then 1 else 0)
      in e\<lparr>DPIBypassSuccess := ewma val (DPIBypassSuccess e)\<rparr>)"

definition RecordDPIResult :: "string \<Rightarrow> string \<Rightarrow> bool \<Rightarrow> scoreDB \<Rightarrow> scoreDB" where
  "RecordDPIResult cid blockType succeeded db = save_scores (with_entry cid (dpi_entry blockType succeeded) db)"

definition GetEntry :: "string \<Rightarrow> scoreDB \<Rightarrow> Entry \<times> scoreDB" where
  "GetEntry cid db = (entryOrDefault db cid, with_entry cid (\<lambda>e. e) db)"

text \<open>
  \<open>sort.Slice\<close> by descending score; equal scores keep their order, as Go's insertion sort of
  short slices does.
\<close>

definition Rank :: "scoreDB \<Rightarrow> TunnelConfig list \<Rightarrow> TunnelConfig list" where
  "Rank db configs =
     sort_key (\<lambda>tc. - CompositeScore (entryOrDefault db (ID tc)) (Some tc)) configs"

section \<open>The ranking contract\<close>

text \<open>
  What the switch engine relies on: a ranking is a permutation in which no configuration
  stands behind a worse one. The lemmas hold for every implementation of the contract.
\<close>

locale ranking =
  fixes score :: "'s \<Rightarrow> 'c \<Rightarrow> float64" and rank :: "'s \<Rightarrow> 'c list \<Rightarrow> 'c list"
  assumes rank_mset: "mset (rank s cs) = mset cs"
    and rank_sorted: "sorted_wrt (\<lambda>a b. score s b \<le> score s a) (rank s cs)"
begin

lemma rank_set: "set (rank s cs) = set cs"
  by (metis rank_mset set_mset_mset)

lemma rank_length: "length (rank s cs) = length cs"
  by (metis rank_mset size_mset)

lemma rank_best:
  assumes "cs \<noteq> []" and "c \<in> set cs"
  shows "score s c \<le> score s (hd (rank s cs))"
proof -
  have "rank s cs \<noteq> []" using assms(1) rank_length by (metis length_0_conv)
  then obtain b bs where b: "rank s cs = b # bs" by (cases "rank s cs") auto
  have "c \<in> set (b # bs)" using assms(2) rank_set b by metis
  then show ?thesis using rank_sorted [of s cs] b by auto
qed

lemma rank_distinct: "distinct (map f cs) \<Longrightarrow> distinct (map f (rank s cs))"
  by (metis mset_map rank_mset mset_eq_imp_distinct_iff)

end

interpretation rk: ranking "\<lambda>db tc. CompositeScore (entryOrDefault db (ID tc)) (Some tc)" Rank
proof unfold_locales
  fix db cs
  let ?k = "\<lambda>tc. - CompositeScore (entryOrDefault db (ID tc)) (Some tc)"
  show "mset (Rank db cs) = mset cs" by (simp add: Rank_def)
  have "sorted (map ?k (Rank db cs))" by (simp add: Rank_def)
  then show "sorted_wrt (\<lambda>a b. CompositeScore (entryOrDefault db (ID b)) (Some b)
      \<le> CompositeScore (entryOrDefault db (ID a)) (Some a)) (Rank db cs)"
    by (simp add: sorted_wrt_map)
qed

section \<open>Lemmas\<close>

lemma clamp01_range: "0 \<le> clamp01 v \<and> clamp01 v \<le> 1"
  by (simp add: clamp01_def)

lemma clamp01_mono: "x \<le> y \<Longrightarrow> clamp01 x \<le> clamp01 y"
  by (simp add: clamp01_def)

lemma protocolSecurity_range: "0 \<le> protocolSecurity tc \<and> protocolSecurity tc \<le> fl 0.95"
  by (simp add: protocolSecurity_def fl_lits split: option.split Protocol.split)

text \<open>One rounded product and one rounded sum stay within the bounds of their operands.\<close>

lemma fl_mult_mono: "0 \<le> c \<Longrightarrow> x \<le> y \<Longrightarrow> fl (c * x) \<le> fl (c * y)"
  by (intro fl_mono mult_left_mono)

lemma fl_scale_le: "0 \<le> fl c \<Longrightarrow> x \<le> 1 \<Longrightarrow> fl (fl c * x) \<le> fl c"
  using fl_mult_mono [of "fl c" x 1] by simp

lemma ewma_range:
  assumes "0 \<le> v" "v \<le> 1" "0 \<le> x" "x \<le> 1"
  shows "0 \<le> ewma v x \<and> ewma v x \<le> 1"
proof -
  have p: "0 \<le> fl (fl 0.3 * v)" "0 \<le> fl (fl 0.7 * x)"
    using assms by (auto intro!: fl_nonneg simp: fl_lits)
  have "fl (fl 0.3 * v) \<le> fl 0.3" "fl (fl 0.7 * x) \<le> fl 0.7"
    using assms fl_scale_le [of "0.3" v] fl_scale_le [of "0.7" x] by (simp_all add: fl_lits)
  then have "fl (fl 0.3 * v) + fl (fl 0.7 * x) \<le> fl 0.3 + fl 0.7" by linarith
  also have "\<dots> \<le> 1" by (simp add: fl_lits)
  finally have "ewma v x \<le> 1" unfolding ewma_def by (rule fl_le_1)
  moreover have "0 \<le> ewma v x" unfolding ewma_def using p by (intro fl_nonneg) linarith
  ultimately show ?thesis by blast
qed

lemma ewma_nonneg: "0 \<le> v \<Longrightarrow> 0 \<le> x \<Longrightarrow> 0 \<le> ewma v x"
  unfolding ewma_def by (intro fl_nonneg add_nonneg_nonneg mult_nonneg_nonneg) (simp_all add: fl_lits)

text \<open>The invariant of an entry: the averages of ratios are ratios and the round trip is no debt.\<close>

definition entry_ok :: "Entry \<Rightarrow> bool" where
  "entry_ok e \<longleftrightarrow> 0 \<le> EWMARTZ e \<and> 0 \<le> EWMALoss e \<and> EWMALoss e \<le> 1
     \<and> 0 \<le> SessionSuccess e \<and> SessionSuccess e \<le> 1
     \<and> 0 \<le> DPIBypassSuccess e \<and> DPIBypassSuccess e \<le> 1 \<and> 0 \<le> Sessions e"

definition scores_inv :: "scoreDB \<Rightarrow> bool" where
  "scores_inv db \<longleftrightarrow> keys_distinct (sc_entries db)
     \<and> (\<forall>(k, e)\<in>set (sc_entries db). e_ConfigID e = k \<and> entry_ok e)"

lemma new_score_ok: "entry_ok (new_score cid)"
  by (simp add: entry_ok_def new_score_def)

lemma probe_entry_ok:
  assumes "entry_ok e" and "0 \<le> PacketLoss res" and "PacketLoss res \<le> 1"
  shows "entry_ok (probe_entry res e)"
  using assms ewma_range [of "PacketLoss res" "EWMALoss e"]
    ewma_nonneg [of "fl (of_int (Milliseconds (AvgRTT res)))" "EWMARTZ e"] ewma_nonneg [of 5000 "EWMARTZ e"]
  by (simp add: entry_ok_def probe_entry_def Let_def)

lemma session_entry_ok: "entry_ok e \<Longrightarrow> entry_ok (session_entry sess e)"
  using ewma_range [of "if ss_Success sess then 1 else 0" "SessionSuccess e"]
  by (simp add: entry_ok_def session_entry_def)

lemma dpi_entry_ok: "entry_ok e \<Longrightarrow> entry_ok (dpi_entry bt ok e)"
  using ewma_range [of "if ok then 1 else 0" "DPIBypassSuccess e"]
  by (simp add: entry_ok_def dpi_entry_def)

lemma entry_id_frame [simp]:
  "e_ConfigID (probe_entry res e) = e_ConfigID e"
  "e_ConfigID (session_entry sess e) = e_ConfigID e"
  "e_ConfigID (dpi_entry bt ok e) = e_ConfigID e"
  "e_ConfigID (new_score cid) = cid"
  by (simp_all add: probe_entry_def session_entry_def dpi_entry_def new_score_def Let_def)

lemma save_scores_frame [simp]:
  "sc_entries (save_scores db) = sc_entries db" "sc_writable (save_scores db) = sc_writable db"
  by (simp_all add: save_scores_def)

lemma scores_inv_get:
  "scores_inv db \<Longrightarrow> map_of (sc_entries db) k = Some e \<Longrightarrow> e_ConfigID e = k \<and> entry_ok e"
  unfolding scores_inv_def by (drule map_of_SomeD) fastforce

lemma entryOrDefault_ok:
  "scores_inv db \<Longrightarrow> entry_ok (entryOrDefault db cid) \<and> e_ConfigID (entryOrDefault db cid) = cid"
  by (auto simp: entryOrDefault_def new_score_ok dest: scores_inv_get split: option.split)

lemma with_entry_inv:
  assumes "scores_inv db" and "\<And>e. entry_ok e \<Longrightarrow> entry_ok (f e)" and "\<And>e. e_ConfigID (f e) = e_ConfigID e"
  shows "scores_inv (with_entry cid f db)"
proof -
  let ?al = "AList.update cid (f (entryOrDefault db cid)) (sc_entries db)"
  have kd: "keys_distinct ?al" using assms(1) by (simp add: scores_inv_def gomap.put_ok)
  have "e_ConfigID e = k \<and> entry_ok e" if "(k, e) \<in> set ?al" for k e
  proof -
    have "map_of ?al k = Some e" using that kd by (simp add: keys_distinct_def)
    then have "k = cid \<and> e = f (entryOrDefault db cid) \<or> map_of (sc_entries db) k = Some e"
      by (simp only: gomap.get_put split: if_splits) auto
    then show ?thesis
      using entryOrDefault_ok [OF assms(1), of cid] assms(2,3) scores_inv_get [OF assms(1)] by auto
  qed
  with kd show ?thesis by (auto simp: scores_inv_def with_entry_def)
qed

lemma save_scores_inv [simp]: "scores_inv (save_scores db) = scores_inv db"
  by (simp add: scores_inv_def)

section \<open>Histories\<close>

text \<open>The calls the daemon makes on the database, and a history of them.\<close>

datatype score_call =
    Probed string AggResult | Attempted Session | DPITried string string bool | Looked string

fun score_step :: "score_call \<Rightarrow> scoreDB \<Rightarrow> scoreDB" where
  "score_step (Probed cid res) db = RecordProbeResult cid res db"
| "score_step (Attempted sess) db = RecordSession sess db"
| "score_step (DPITried cid bt ok) db = RecordDPIResult cid bt ok db"
| "score_step (Looked cid) db = snd (GetEntry cid db)"

definition run_scores :: "score_call list \<Rightarrow> scoreDB \<Rightarrow> scoreDB" where
  "run_scores cs db = fold score_step cs db"

fun call_ok :: "score_call \<Rightarrow> bool" where
  "call_ok (Probed cid res) = (0 \<le> PacketLoss res \<and> PacketLoss res \<le> 1)"
| "call_ok _ = True"

lemma score_step_inv: "scores_inv db \<Longrightarrow> call_ok c \<Longrightarrow> scores_inv (score_step c db)"
  by (cases c)
    (simp_all add: RecordProbeResult_def RecordSession_def RecordDPIResult_def GetEntry_def
      with_entry_inv probe_entry_ok session_entry_ok dpi_entry_ok)

lemma run_scores_inv: "scores_inv db \<Longrightarrow> list_all call_ok cs \<Longrightarrow> scores_inv (run_scores cs db)"
  unfolding run_scores_def by (induction cs arbitrary: db) (simp_all add: score_step_inv)

definition file_ok :: "Entry list json_file \<Rightarrow> bool" where
  "file_ok f \<longleftrightarrow> (case f of JSON es \<Rightarrow> list_all entry_ok es | _ \<Rightarrow> True)"

lemma load_scores_inv:
  assumes "file_ok f"
  shows "scores_inv (NewDB f w)"
proof -
  have kd: "keys_distinct (load_scores f)"
    by (simp add: load_scores_def index_by_distinct split: json_file.split)
  have "e_ConfigID e = k \<and> entry_ok e" if "(k, e) \<in> set (load_scores f)" for k e
  proof -
    have "map_of (load_scores f) k = Some e" using that kd by (simp add: keys_distinct_def)
    then show ?thesis
      using assms by (auto simp: load_scores_def file_ok_def list_all_iff
          split: json_file.splits dest!: index_by_get)
  qed
  with kd show ?thesis by (auto simp: scores_inv_def NewDB_def)
qed

section \<open>Bounds of the composite score\<close>

lemma fl_dyadic: "fl (75 / 512) = 75 / 512" "fl (459 / 512) = 459 / 512" "fl (3 / 4) = 3 / 4" "fl 100 = 100"
  using fl_rep [of 75 "- 9"] fl_rep [of 459 "- 9"] fl_rep [of 3 "- 2"] fl_rep [of 100 0]
  by (simp_all add: power_int_minus)

lemma weighted_range:
  assumes "0 \<le> a" "a \<le> 1" "0 \<le> p" "p \<le> 1" "0 \<le> s" "s \<le> fl 0.95" "0 \<le> r" "r \<le> 1"
  shows "0 \<le> weighted a p s r \<and> weighted a p s r \<le> 100"
proof -
  let ?a = "fl (fl 0.4 * a)" and ?p = "fl (fl 0.35 * p)" and ?s = "fl (fl 0.15 * s)" and ?r = "fl (fl 0.1 * r)"
  have lits: "0 \<le> fl 0.4" "0 \<le> fl 0.35" "0 \<le> fl 0.15" "0 \<le> fl 0.1" by (simp_all add: fl_lits)
  have pos: "0 \<le> ?a" "0 \<le> ?p" "0 \<le> ?s" "0 \<le> ?r"
    using assms lits by (simp_all add: fl_nonneg)
  have le: "?a \<le> fl 0.4" "?p \<le> fl 0.35" "?r \<le> fl 0.1"
    using assms lits by (simp_all add: fl_scale_le)
  have "fl 0.15 * s \<le> fl 0.15 * fl 0.95" using assms lits by (intro mult_left_mono)
  also have "\<dots> \<le> 75 / 512" by (simp add: fl_lits)
  finally have s: "?s \<le> 75 / 512" using fl_mono [of _ "75 / 512"] by (simp only: fl_dyadic)
  have "?a + ?p \<le> fl 0.4 + fl 0.35" using le by (intro add_mono)
  also have "\<dots> \<le> 3 / 4" by (simp add: fl_lits)
  finally have ap: "fl (?a + ?p) \<le> 3 / 4" using fl_mono [of _ "3 / 4"] by (simp only: fl_dyadic)
  have "fl (?a + ?p) + ?s \<le> 459 / 512" using ap s by simp
  then have aps: "fl (fl (?a + ?p) + ?s) \<le> 459 / 512" using fl_mono [of _ "459 / 512"] by (simp only: fl_dyadic)
  have "fl 0.1 \<le> 53 / 512" by (simp add: fl_lits)
  then have "fl (fl (?a + ?p) + ?s) + ?r \<le> 1" using aps le(3) by linarith
  then have one: "fl (fl (fl (?a + ?p) + ?s) + ?r) \<le> 1" by (rule fl_le_1)
  have nn: "0 \<le> fl (fl (fl (?a + ?p) + ?s) + ?r)"
    by (rule fl_nonneg, rule add_nonneg_nonneg, rule fl_nonneg, rule add_nonneg_nonneg, rule fl_nonneg,
        rule add_nonneg_nonneg) (fact pos)+
  have "fl (100 * fl (fl (fl (?a + ?p) + ?s) + ?r)) \<le> fl (100 * 1)"
    using one by (intro fl_mult_mono) simp_all
  then have "weighted a p s r \<le> 100" by (simp only: weighted_def mult_1_right fl_dyadic)
  moreover have "0 \<le> weighted a p s r" unfolding weighted_def using nn by (intro fl_nonneg) simp
  ultimately show ?thesis by blast
qed

lemma parts_range:
  "0 \<le> availability_of d s \<and> availability_of d s \<le> 1"
  "0 \<le> performance_of l t \<and> performance_of l t \<le> 1"
  "0 \<le> reliability_of s n \<and> reliability_of s n \<le> 1"
  by (simp_all add: availability_of_def performance_of_def reliability_of_def Let_def clamp01_range)

lemma weighted_mono:
  assumes "a \<le> a'" "p \<le> p'"
  shows "weighted a p s r \<le> weighted a' p' s r"
  unfolding weighted_def
  using assms by (intro fl_mono mult_left_mono add_mono fl_mult_mono order_refl) (simp_all add: fl_lits)

lemma performance_mono:
  assumes "0 \<le> l'" "l' \<le> l" "l \<le> 1" "0 < t'" "t' \<le> t"
  shows "performance_of l t \<le> performance_of l' t'"
proof -
  let ?d = "\<lambda>t. fl (1 + fl (t / 120))"
  have pos: "1 \<le> ?d u" if "0 \<le> u" for u using that by (intro fl_ge_1) (simp add: fl_nonneg)
  have "?d t' \<le> ?d t" using assms by (intro fl_mono add_mono order_refl divide_right_mono) simp_all
  then have "1 / ?d t \<le> 1 / ?d t'" using pos [of t'] assms by (intro divide_left_mono) auto
  then have n: "fl (1 / ?d t) \<le> fl (1 / ?d t')" by (rule fl_mono)
  have "0 \<le> fl (1 / ?d t)" using pos [of t] assms by (intro fl_nonneg) auto
  moreover have "fl (1 - l) \<le> fl (1 - l')" "0 \<le> fl (1 - l')" using assms by (auto intro: fl_mono fl_nonneg)
  ultimately have "fl (1 - l) * fl (1 / ?d t) \<le> fl (1 - l') * fl (1 / ?d t')"
    using n by (intro mult_mono)
  then show ?thesis by (simp add: performance_of_def Let_def clamp01_mono fl_mono)
qed

section \<open>Properties\<close>

text \<open>
  C19: the averages stay ratios. Whatever calls the daemon makes, with probe losses in the unit
  interval, starting from a file whose entries are in range, every entry keeps its averaged
  loss, session success and DPI success in \<open>[0, 1]\<close>, a non-negative round trip and its own key.
\<close>

theorem scores_stay_ratios:
  assumes "file_ok f" and "list_all call_ok cs"
    and "map_of (sc_entries (run_scores cs (NewDB f w))) cid = Some e"
  shows "e_ConfigID e = cid \<and> 0 \<le> EWMALoss e \<and> EWMALoss e \<le> 1
    \<and> 0 \<le> SessionSuccess e \<and> SessionSuccess e \<le> 1
    \<and> 0 \<le> DPIBypassSuccess e \<and> DPIBypassSuccess e \<le> 1 \<and> 0 \<le> EWMARTZ e"
  using scores_inv_get [OF run_scores_inv [OF load_scores_inv [OF assms(1)] assms(2)] assms(3)]
  by (simp add: entry_ok_def)

definition sample_agg :: AggResult where
  "sample_agg = \<lparr>a_Success = True, AvgRTT = 40 * millisecond, PacketLoss = 1 / 2, Results = [],
     DominantErrType = ProbeErrNone\<rparr>"

lemma scores_stay_ratios_witness:
  "\<exists>e. map_of (sc_entries (run_scores [Probed ''a'' sample_agg, DPITried ''a'' ''tls_dpi'' True]
      (NewDB NoFile True))) ''a'' = Some e \<and> DPIBypassSuccess e \<le> 1"
proof -
  let ?cs = "[Probed ''a'' sample_agg, DPITried ''a'' ''tls_dpi'' True]"
  obtain e where e: "map_of (sc_entries (run_scores ?cs (NewDB NoFile True))) ''a'' = Some e"
    by (simp add: run_scores_def RecordDPIResult_def with_entry_def update_conv')
  have "list_all call_ok ?cs" by (simp add: sample_agg_def)
  from scores_stay_ratios [OF _ this e] e show ?thesis by (auto simp: file_ok_def)
qed


text \<open>
  Better measurements never lower the score. With the rest of the entry equal, a shorter
  round trip, a smaller loss and more DPI successes give a composite score at least as high.
\<close>

theorem CompositeScore_mono:
  assumes "0 < EWMARTZ e'" and "EWMARTZ e' \<le> EWMARTZ e" and "EWMALoss e' \<le> EWMALoss e"
    and "DPIBypassSuccess e \<le> DPIBypassSuccess e'" and "LastBlockType e \<noteq> []"
    and "LastBlockType e' = LastBlockType e"
    and "SessionSuccess e' = SessionSuccess e" and "Sessions e' = Sessions e"
  shows "CompositeScore e tc \<le> CompositeScore e' tc"
proof -
  let ?s = "if SessionSuccess e \<le> 0 then 1 / 2 else SessionSuccess e"
  have "availability_of (DPIBypassSuccess e) ?s \<le> availability_of (DPIBypassSuccess e') ?s"
    unfolding availability_of_def
    by (intro clamp01_mono fl_mono add_mono fl_mult_mono order_refl) (simp_all add: assms(4) fl_lits)
  moreover have "performance_of (clamp01 (EWMALoss e)) (EWMARTZ e)
      \<le> performance_of (clamp01 (EWMALoss e')) (EWMARTZ e')"
    using clamp01_mono [OF assms(3)] clamp01_range assms(1,2) by (intro performance_mono) auto
  ultimately have "weighted (availability_of (DPIBypassSuccess e) ?s)
        (performance_of (clamp01 (EWMALoss e)) (EWMARTZ e)) (protocolSecurity tc)
        (reliability_of ?s (Sessions e))
      \<le> weighted (availability_of (DPIBypassSuccess e') ?s)
        (performance_of (clamp01 (EWMALoss e')) (EWMARTZ e')) (protocolSecurity tc)
        (reliability_of ?s (Sessions e))"
    by (rule weighted_mono)
  moreover have "\<not> EWMARTZ e' \<le> 0" "\<not> EWMARTZ e \<le> 0" using assms(1,2) by simp_all
  ultimately show ?thesis
    using assms(5-8) by (simp only: CompositeScore_def Let_def if_False simp_thms)
qed

lemma CompositeScore_mono_witness:
  "CompositeScore ((new_score ''a'')\<lparr>EWMARTZ := 90, LastBlockType := ''none''\<rparr>) None
     \<le> CompositeScore ((new_score ''a'')\<lparr>EWMARTZ := 30, LastBlockType := ''none''\<rparr>) None"
  by (rule CompositeScore_mono) (simp_all add: new_score_def)

text \<open>
  Ranking. The ranked list is a permutation of the given one, and no configuration stands
  behind one with a lower composite score; the first has the highest score of all.
\<close>

theorem Rank_sorted:
  "mset (Rank db cs) = mset cs
   \<and> sorted_wrt (\<lambda>a b. CompositeScore (entryOrDefault db (ID b)) (Some b)
        \<le> CompositeScore (entryOrDefault db (ID a)) (Some a)) (Rank db cs)
   \<and> (c \<in> set cs \<longrightarrow> CompositeScore (entryOrDefault db (ID c)) (Some c)
        \<le> CompositeScore (entryOrDefault db (ID (hd (Rank db cs)))) (Some (hd (Rank db cs))))"
  using rk.rank_mset [of db cs] rk.rank_sorted [of db cs] rk.rank_best [of cs c db]
  by (cases "cs = []") simp_all

lemma Rank_sorted_witness:
  "CompositeScore (entryOrDefault (NewDB NoFile True) ''w'') (Some (zero_tc\<lparr>ID := ''w''\<rparr>))
     \<le> CompositeScore (entryOrDefault (NewDB NoFile True)
         (ID (hd (Rank (NewDB NoFile True) [zero_tc, zero_tc\<lparr>ID := ''w''\<rparr>]))))
         (Some (hd (Rank (NewDB NoFile True) [zero_tc, zero_tc\<lparr>ID := ''w''\<rparr>])))"
  using Rank_sorted [of "NewDB NoFile True" "[zero_tc, zero_tc\<lparr>ID := ''w''\<rparr>]" "zero_tc\<lparr>ID := ''w''\<rparr>"]
  by (simp add: zero_tc_def)

lemma score_step_writable [simp]: "sc_writable (score_step c db) = sc_writable db"
  by (cases c) (simp_all add: RecordProbeResult_def RecordSession_def RecordDPIResult_def
      GetEntry_def with_entry_def)

text \<open>
  Looking an entry up creates it without saving; what the rest of the daemon sees of the scores,
  \<open>entryOrDefault\<close>, is the same before and after. Every other call saves.
\<close>

lemma looked_same:
  "entryOrDefault (score_step (Looked cid) db) = entryOrDefault db"
  by (auto simp: fun_eq_iff entryOrDefault_def GetEntry_def with_entry_def update_conv' split: option.split)

lemma recording_saves:
  "sc_writable db \<Longrightarrow> (\<forall>cid. c \<noteq> Looked cid) \<Longrightarrow>
   sc_file (score_step c db) = JSON (map snd (sc_entries (score_step c db)))"
  by (cases c) (simp_all add: RecordProbeResult_def RecordSession_def RecordDPIResult_def
      save_scores_def with_entry_def)

lemma reopen_scores:
  assumes "scores_inv db"
  shows "entryOrDefault (NewDB (JSON (map snd (sc_entries db))) w) = entryOrDefault db"
proof -
  have "map_of (index_by e_ConfigID [] (map snd (sc_entries db))) = map_of (sc_entries db)"
    using assms by (intro index_by_values) (auto simp: scores_inv_def)
  then show ?thesis by (simp add: fun_eq_iff entryOrDefault_def NewDB_def load_scores_def)
qed

interpretation sc: durable score_step call_ok "\<lambda>db. scores_inv db \<and> sc_writable db"
    "\<lambda>db. NewDB (sc_file db) True" entryOrDefault
proof
  fix db c
  assume db: "scores_inv db \<and> sc_writable db" and c: "call_ok c"
  show sound: "scores_inv (score_step c db) \<and> sc_writable (score_step c db)"
    using db c by (simp add: score_step_inv)
  assume same: "entryOrDefault (NewDB (sc_file db) True) = entryOrDefault db"
  show "entryOrDefault (NewDB (sc_file (score_step c db)) True) = entryOrDefault (score_step c db)"
  proof (cases "\<exists>cid. c = Looked cid")
    case True
    then obtain cid where c: "c = Looked cid" by blast
    have "sc_file (score_step c db) = sc_file db" by (simp add: c GetEntry_def with_entry_def)
    then show ?thesis using same looked_same by (simp only: c)
  next
    case False
    with db have "sc_file (score_step c db) = JSON (map snd (sc_entries (score_step c db)))"
      by (intro recording_saves) auto
    then show ?thesis using reopen_scores sound by simp
  qed
qed

text \<open>
  Scores survive a restart. From any readable file, after any history of calls, the file read
  back gives the entry every configuration had, the default for one it did not know.
\<close>

theorem scores_restart:
  assumes "file_ok f" and "list_all call_ok cs"
  shows "entryOrDefault (NewDB (sc_file (run_scores cs (NewDB f True))) True) cid
    = entryOrDefault (run_scores cs (NewDB f True)) cid"
proof -
  have "entryOrDefault (NewDB (sc_file (run_scores cs (NewDB f True))) True)
      = entryOrDefault (run_scores cs (NewDB f True))"
    unfolding run_scores_def using assms
    by (intro sc.restart_lossless) (simp_all add: load_scores_inv, simp_all add: NewDB_def)
  then show ?thesis by simp
qed

lemma scores_restart_witness:
  "entryOrDefault (NewDB (sc_file (run_scores [Looked ''b'', Probed ''a'' sample_agg] (NewDB NoFile True))) True) ''a''
     = entryOrDefault (run_scores [Looked ''b'', Probed ''a'' sample_agg] (NewDB NoFile True)) ''a''"
  by (rule scores_restart) (simp_all add: file_ok_def sample_agg_def)

end
