(* ===== verification/Os_Calls.thy ===== *)
theory Os_Calls
  imports Go_Files "HOL-Library.State_Monad"
begin

text \<open>
  What the tunnel managers and the policy manager do to the system, as a log of calls. The
  operating system and the programs the daemon runs are a parameter \<open>os\<close> that answers each
  call, and says how long it took, in view of everything that was asked and answered before,
  so that it may behave in any way, fail included. An operation is a value of the library's
  state monad over \<open>world\<close>: the log so far, the clock, and the one piece of shared memory these
  packages keep, \<open>VLESSManager\<close>'s \<open>procMap\<close>. \<open>'f\<close> is the type of the files written.

  Two judgements carry the proofs: \<open>only P m\<close>, that every call \<open>m\<close> makes satisfies \<open>P\<close>, and
  \<open>keeps f m\<close>, that \<open>m\<close> leaves the part \<open>f\<close> of the world alone. Both have one rule per
  combinator, collected in \<open>effect_intros\<close>.
\<close>

named_theorems effect_intros
  \<open>rules of the judgements \<open>only\<close> and \<open>keeps\<close>\<close>

section \<open>Calls and replies\<close>

text \<open>
  \<open>Run\<close> is \<open>exec.CommandContext(...).CombinedOutput()\<close>, \<open>Start\<close> is \<open>cmd.Start()\<close> of a process
  group of its own, \<open>Kill\<close> signals such a group, \<open>StatNet\<close> is \<open>os.Stat\<close> of the directory of a
  network interface, \<open>DialLocal\<close> a TCP connection to a port of 127.0.0.1. \<open>After d\<close> is the
  \<open>select\<close> between \<open>time.After(d)\<close> and \<open>ctx.Done()\<close>: it fails with the context's error when the
  context ends first.
\<close>

datatype Signal = SIGTERM | SIGKILL

datatype 'f syscall =
    Run string "string list"
  | Start string "string list"
  | Kill int Signal
  | Wait int
  | Sleep duration
  | After duration
  | Stat string
  | StatNet string
  | MkdirAll string
  | WriteFile string 'f
  | DialLocal int

datatype reply = Done | Failed string | Proc int

type_synonym 'f oslog = "('f syscall \<times> reply) list"

record 'f os =
  answer :: "'f oslog \<Rightarrow> 'f syscall \<Rightarrow> reply"
  elapsed :: "'f oslog \<Rightarrow> 'f syscall \<Rightarrow> nat"

record 'f world =
  calls :: "'f oslog"
  clock :: gotime
  procMap :: "(string \<times> int) list"

type_synonym ('f, 'a) io = "('f world, 'a) state"

text \<open>
  A call is answered and logged, and the clock moves on. \<open>time.Sleep(d)\<close> takes at least \<open>d\<close>;
  \<open>time.Now()\<close> reads the clock, which does not go back (Go's monotonic reading).
\<close>

fun least_time :: "'f syscall \<Rightarrow> duration" where
  "least_time (Sleep d) = max 0 d"
| "least_time _ = 0"

definition do_call :: "'f os \<Rightarrow> 'f syscall \<Rightarrow> 'f world \<Rightarrow> 'f world" where
  "do_call os c w =
     w\<lparr>calls := calls w @ [(c, answer os (calls w) c)],
       clock := clock w + least_time c + int (elapsed os (calls w) c)\<rparr>"

definition syscall :: "'f os \<Rightarrow> 'f syscall \<Rightarrow> ('f, reply) io" where
  "syscall os c = State (\<lambda>w. (answer os (calls w) c, do_call os c w))"

text \<open>The error of a call that reports one: every reply but \<open>Failed\<close> is success.\<close>

fun reply_err :: "reply \<Rightarrow> string option" where
  "reply_err (Failed e) = Some e"
| "reply_err _ = None"

definition attempt :: "'f os \<Rightarrow> 'f syscall \<Rightarrow> ('f, string option) io" where
  "attempt os c = do { r \<leftarrow> syscall os c; State_Monad.return (reply_err r) }"

definition time_Now :: "('f, gotime) io" where
  "time_Now = State (\<lambda>w. (clock w, w))"

definition get_procs :: "('f, (string \<times> int) list) io" where
  "get_procs = State (\<lambda>w. (procMap w, w))"

definition set_procs :: "(string \<times> int) list \<Rightarrow> ('f, unit) io" where
  "set_procs ps = State (\<lambda>w. ((), w\<lparr>procMap := ps\<rparr>))"

abbreviation result :: "('f, 'a) io \<Rightarrow> 'f world \<Rightarrow> 'a" where
  "result m w \<equiv> fst (run_state m w)"

abbreviation final :: "('f, 'a) io \<Rightarrow> 'f world \<Rightarrow> 'f world" where
  "final m w \<equiv> snd (run_state m w)"

lemma do_call_fields [simp]:
  "calls (do_call os c w) = calls w @ [(c, answer os (calls w) c)]"
  "procMap (do_call os c w) = procMap w"
  "clock (do_call os c w) = clock w + least_time c + int (elapsed os (calls w) c)"
  by (simp_all add: do_call_def)

lemma run_syscall [simp]:
  "run_state (syscall os c) w = (answer os (calls w) c, do_call os c w)"
  by (simp add: syscall_def)

lemma run_attempt [simp]:
  "run_state (attempt os c) w = (reply_err (answer os (calls w) c), do_call os c w)"
  by (simp add: attempt_def run_state_bind)

lemma run_parts [simp]:
  "run_state time_Now w = (clock w, w)"
  "run_state get_procs w = (procMap w, w)"
  "run_state (set_procs ps) w = ((), w\<lparr>procMap := ps\<rparr>)"
  by (simp_all add: time_Now_def get_procs_def set_procs_def)

lemma run_bind [simp]:
  "run_state (State_Monad.bind m f) s = run_state (f (fst (run_state m s))) (snd (run_state m s))"
  by (simp add: case_prod_beta run_state_bind)

declare run_state_bind [simp del]

lemma least_time_nonneg [simp]: "0 \<le> least_time c"
  by (cases c) simp_all

section \<open>Loops\<close>

text \<open>A loop over a list whose body ignores its errors.\<close>

fun for_each :: "'b list \<Rightarrow> ('b \<Rightarrow> ('f, 'a) io) \<Rightarrow> ('f, unit) io" where
  "for_each [] f = State_Monad.return ()"
| "for_each (x # xs) f = do { _ \<leftarrow> f x; for_each xs f }"

text \<open>
  The two loops that poll until a deadline, \<open>for time.Now().Before(deadline) { if check() {
  return true }; time.Sleep(pause) }\<close>: what each checks and how long it pauses. They end because
  every round sleeps.
\<close>

datatype poller = Interface string | SocksPort int

fun poll_check :: "poller \<Rightarrow> 'f syscall" where
  "poll_check (Interface name) = StatNet name"
| "poll_check (SocksPort port) = DialLocal port"

fun poll_pause :: "poller \<Rightarrow> duration" where
  "poll_pause (Interface name) = 200 * millisecond"
| "poll_pause (SocksPort port) = 300 * millisecond"

lemma poll_pause_pos [simp]: "0 < poll_pause p"
  by (cases p) (simp_all add: millisecond_def)

lemma poll_round_clock:
  "clock w + poll_pause p
     \<le> clock (do_call os (Sleep (poll_pause p)) (do_call os (poll_check p) w))"
proof -
  have "max 0 (poll_pause p) = poll_pause p" using poll_pause_pos [of p] by linarith
  then show ?thesis by simp
qed

function poll :: "'f os \<Rightarrow> gotime \<Rightarrow> poller \<Rightarrow> 'f world \<Rightarrow> bool \<times> 'f world" where
  "poll os deadline p w =
     (if \<not> clock w < deadline then (False, w)
      else if reply_err (answer os (calls w) (poll_check p)) = None
      then (True, do_call os (poll_check p) w)
      else poll os deadline p (do_call os (Sleep (poll_pause p)) (do_call os (poll_check p) w)))"
  by pat_completeness auto
termination
proof (relation "measure (\<lambda>(os, deadline, p, w). nat (deadline - clock w))")
  fix os :: "'f os" and deadline p and w :: "'f world"
  assume "\<not> \<not> clock w < deadline"
  with poll_round_clock [of w p os] poll_pause_pos [of p] show "((os, deadline, p, do_call os (Sleep (poll_pause p)) (do_call os (poll_check p) w)),
      (os, deadline, p, w)) \<in> measure (\<lambda>(os, deadline, p, w). nat (deadline - clock w))"
    by (simp del: poll_pause_pos do_call_fields)
qed simp

declare poll.simps [simp del]

definition poll_until :: "'f os \<Rightarrow> duration \<Rightarrow> poller \<Rightarrow> ('f, bool) io" where
  "poll_until os timeout p = State (\<lambda>w. poll os (clock w + timeout) p w)"

lemma run_poll_until [simp]: "run_state (poll_until os timeout p) w = poll os (clock w + timeout) p w"
  by (simp add: poll_until_def)

text \<open>
  What a polling loop has done when it returns: its checks and pauses in turn, every check but
  a successful last one refused; without success the deadline has passed. The pauses bound
  the number of rounds.
\<close>

definition polled :: "'f os \<Rightarrow> poller \<Rightarrow> 'f world \<Rightarrow> 'f oslog" where
  "polled os p w = [(poll_check p, answer os (calls w) (poll_check p)),
     (Sleep (poll_pause p), answer os (calls (do_call os (poll_check p) w)) (Sleep (poll_pause p)))]"

text \<open>The checks a deadline leaves time for, and what a round takes off them.\<close>

definition checks_left :: "gotime \<Rightarrow> poller \<Rightarrow> 'f world \<Rightarrow> int" where
  "checks_left deadline p w = (deadline - clock w + poll_pause p - 1) div poll_pause p"

lemma checks_left_pos: "clock w < deadline \<Longrightarrow> 1 \<le> checks_left deadline p w"
  using poll_pause_pos [of p]
  by (simp add: checks_left_def pos_imp_zdiv_pos_iff int_one_le_iff_zero_less)

lemma checks_left_round:
  "checks_left deadline p (do_call os (Sleep (poll_pause p)) (do_call os (poll_check p) w))
     \<le> checks_left deadline p w - 1"
proof -
  let ?w = "do_call os (Sleep (poll_pause p)) (do_call os (poll_check p) w)"
  have "checks_left deadline p ?w
      \<le> (deadline - clock w + poll_pause p - 1 + (- 1) * poll_pause p) div poll_pause p"
    unfolding checks_left_def using poll_round_clock [of w p os] poll_pause_pos [of p]
    by (intro zdiv_mono1) (simp_all del: poll_pause_pos do_call_fields)
  also have "\<dots> = checks_left deadline p w - 1"
    unfolding checks_left_def by (subst div_mult_self1) (simp_all add: order_less_imp_not_eq2)
  finally show ?thesis .
qed

lemma poll_spec:
  "\<exists>cs. calls (snd (poll os deadline p w)) = calls w @ cs
     \<and> list_all (\<lambda>(c, r). c = poll_check p \<or> c = Sleep (poll_pause p)) cs
     \<and> procMap (snd (poll os deadline p w)) = procMap w
     \<and> (fst (poll os deadline p w) \<longrightarrow> cs \<noteq> [] \<and> fst (last cs) = poll_check p
          \<and> reply_err (snd (last cs)) = None)
     \<and> (\<not> fst (poll os deadline p w) \<longrightarrow> deadline \<le> clock (snd (poll os deadline p w)))
     \<and> int (length (filter (\<lambda>(c, r). c = poll_check p) cs))
         \<le> max 0 ((deadline - clock w + poll_pause p - 1) div poll_pause p)"
  unfolding checks_left_def [symmetric]
proof (induction os deadline p w rule: poll.induct)
  case (1 os deadline p w)
  have chk: "poll_check p \<noteq> Sleep d" for d :: duration by (cases p) simp_all
  show ?case
  proof (cases "clock w < deadline \<and> reply_err (answer os (calls w) (poll_check p)) \<noteq> None")
    case False
    show ?thesis
    proof (cases "clock w < deadline")
      case True
      with False have "poll os deadline p w = (True, do_call os (poll_check p) w)"
        by (subst poll.simps) simp
      with True False checks_left_pos [of w deadline p] show ?thesis by simp
    next
      case False
      then have "poll os deadline p w = (False, w)" by (subst poll.simps) simp
      with False show ?thesis by simp
    qed
  next
    case True
    let ?w = "do_call os (Sleep (poll_pause p)) (do_call os (poll_check p) w)"
    have eq: "poll os deadline p w = poll os deadline p ?w"
      using True by (subst poll.simps) auto
    have le: "max 0 (checks_left deadline p ?w) + 1 \<le> max 0 (checks_left deadline p w)"
      using checks_left_round [of deadline p os w] checks_left_pos [of w deadline p] True by simp
    from "1.IH" True obtain cs where cs:
        "calls (snd (poll os deadline p ?w)) = calls ?w @ cs"
        "list_all (\<lambda>(c, r). c = poll_check p \<or> c = Sleep (poll_pause p)) cs"
        "procMap (snd (poll os deadline p ?w)) = procMap ?w"
        "fst (poll os deadline p ?w) \<longrightarrow> cs \<noteq> [] \<and> fst (last cs) = poll_check p
           \<and> reply_err (snd (last cs)) = None"
        "\<not> fst (poll os deadline p ?w) \<longrightarrow> deadline \<le> clock (snd (poll os deadline p ?w))"
        "int (length (filter (\<lambda>(c, r). c = poll_check p) cs)) \<le> max 0 (checks_left deadline p ?w)"
      by auto
    have "length (filter (\<lambda>(c, r). c = poll_check p) (polled os p w @ cs))
        = Suc (length (filter (\<lambda>(c, r). c = poll_check p) cs))"
      using chk by (simp add: polled_def eq_commute)
    with cs le show ?thesis
      unfolding eq by (intro exI [of _ "polled os p w @ cs"]) (auto simp: polled_def)
  qed
qed

section \<open>Which calls are made, and what is left alone\<close>

definition only :: "('f syscall \<Rightarrow> bool) \<Rightarrow> ('f, 'a) io \<Rightarrow> bool" where
  "only P m \<longleftrightarrow> (\<forall>w. \<exists>cs. calls (final m w) = calls w @ cs \<and> list_all (\<lambda>(c, r). P c) cs)"

definition keeps :: "('f world \<Rightarrow> 'b) \<Rightarrow> ('f, 'a) io \<Rightarrow> bool" where
  "keeps f m \<longleftrightarrow> (\<forall>w. f (final m w) = f w)"

lemma onlyD: "only P m \<Longrightarrow> \<exists>cs. calls (final m w) = calls w @ cs \<and> list_all (\<lambda>(c, r). P c) cs"
  by (simp add: only_def)

lemma keepsD: "keeps f m \<Longrightarrow> f (final m w) = f w"
  by (simp add: keeps_def)

lemma only_return [effect_intros]: "only P (State_Monad.return x)"
  by (simp add: only_def)

lemma only_bind [effect_intros]:
  assumes "only P m" and "\<And>x. only P (f x)"
  shows "only P (State_Monad.bind m f)"
  unfolding only_def run_bind
proof
  fix w
  from onlyD [OF assms(1), of w] onlyD [OF assms(2), of "result m w" "final m w"]
  obtain cs ds where "calls (final m w) = calls w @ cs" "list_all (\<lambda>(c, r). P c) cs"
      "calls (final (f (result m w)) (final m w)) = calls (final m w) @ ds"
      "list_all (\<lambda>(c, r). P c) ds" by blast
  then show "\<exists>cs. calls (final (f (result m w)) (final m w)) = calls w @ cs
      \<and> list_all (\<lambda>(c, r). P c) cs"
    by (intro exI [of _ "cs @ ds"]) simp
qed

lemma only_calls [effect_intros]:
  "P c \<Longrightarrow> only P (syscall os c)" "P c \<Longrightarrow> only P (attempt os c)"
  "only P time_Now" "only P get_procs" "only P (set_procs ps)"
  by (simp_all add: only_def)

lemma only_if [effect_intros]:
  "(b \<Longrightarrow> only P m) \<Longrightarrow> (\<not> b \<Longrightarrow> only P n) \<Longrightarrow> only P (if b then m else n)"
  by simp

lemma only_option [effect_intros]:
  "(x = None \<Longrightarrow> only P m) \<Longrightarrow> (\<And>y. x = Some y \<Longrightarrow> only P (n y))
     \<Longrightarrow> only P (case x of None \<Rightarrow> m | Some y \<Rightarrow> n y)"
  by (cases x) simp_all

lemma only_for_each [effect_intros]:
  "(\<And>x. x \<in> set xs \<Longrightarrow> only P (f x)) \<Longrightarrow> only P (for_each xs f)"
  by (induction xs) (auto intro!: effect_intros)

lemma only_poll [effect_intros]:
  "P (poll_check p) \<Longrightarrow> P (Sleep (poll_pause p)) \<Longrightarrow> only P (poll_until os timeout p)"
  unfolding only_def
proof
  fix w :: "'a world"
  assume P: "P (poll_check p)" "P (Sleep (poll_pause p))"
  from poll_spec [of os "clock w + timeout" p w] obtain cs where
    "calls (final (poll_until os timeout p) w) = calls w @ cs"
    "list_all (\<lambda>(c, r). c = poll_check p \<or> c = Sleep (poll_pause p)) cs" by auto
  with P show "\<exists>cs. calls (final (poll_until os timeout p) w) = calls w @ cs
      \<and> list_all (\<lambda>(c, r). P c) cs"
    by (intro exI [of _ cs]) (auto simp: list_all_iff)
qed

lemma only_mono: "only P m \<Longrightarrow> (\<And>c. P c \<Longrightarrow> Q c) \<Longrightarrow> only Q m"
  unfolding only_def by (metis (no_types, lifting) case_prod_beta list.pred_mono_strong)

lemma keeps_return [effect_intros]: "keeps f (State_Monad.return x)"
  by (simp add: keeps_def)

lemma keeps_bind [effect_intros]:
  "keeps f m \<Longrightarrow> (\<And>x. keeps f (g x)) \<Longrightarrow> keeps f (State_Monad.bind m g)"
  unfolding keeps_def run_bind by simp

lemma keeps_calls [effect_intros]:
  "keeps procMap (syscall os c)" "keeps procMap (attempt os c)" "keeps f time_Now" "keeps f get_procs"
  by (simp_all add: keeps_def)

lemma keeps_if [effect_intros]:
  "(b \<Longrightarrow> keeps f m) \<Longrightarrow> (\<not> b \<Longrightarrow> keeps f n) \<Longrightarrow> keeps f (if b then m else n)"
  by simp

lemma keeps_option [effect_intros]:
  "(x = None \<Longrightarrow> keeps f m) \<Longrightarrow> (\<And>y. x = Some y \<Longrightarrow> keeps f (n y))
     \<Longrightarrow> keeps f (case x of None \<Rightarrow> m | Some y \<Rightarrow> n y)"
  by (cases x) simp_all

lemma keeps_for_each [effect_intros]:
  "(\<And>x. x \<in> set xs \<Longrightarrow> keeps f (g x)) \<Longrightarrow> keeps f (for_each xs g)"
  by (induction xs) (auto intro!: effect_intros)

lemma keeps_poll [effect_intros]: "keeps procMap (poll_until os timeout p)"
  unfolding keeps_def using poll_spec by fastforce

end
