(* ===== verification/Policy_Manager.thy ===== *)
theory Policy_Manager
  imports Os_Calls Config_Types
begin

text \<open>
  The policy manager of \<open>daemon/internal/policy/policy.go\<close>: which firewall backend is found,
  the selectors (addresses, prefixes and resolved domains) it collects, and the commands with
  which it marks their traffic or clears the marks. \<open>netip.ParseAddr\<close> and
  \<open>netip.ParsePrefix\<close> are modelled for IPv4, the only addresses the code keeps. The resolver,
  the files with domains and \<open>exec.LookPath\<close> are parameters, the commands are calls to the
  operating system.
\<close>

section \<open>The firewall backend\<close>

datatype backendType = backendNone | backendNFT | backendIPTables

record toolchain =
  backend :: backendType
  nft :: string
  ipset :: string
  iptables :: string

definition available :: "toolchain \<Rightarrow> bool" where
  "available tc = (case backend tc of
       backendNFT \<Rightarrow> nft tc \<noteq> []
     | backendIPTables \<Rightarrow> ipset tc \<noteq> [] \<and> iptables tc \<noteq> []
     | backendNone \<Rightarrow> False)"

fun firstAvailable :: "(string \<Rightarrow> string res) \<Rightarrow> string list \<Rightarrow> string" where
  "firstAvailable lookPath [] = []"
| "firstAvailable lookPath (name # names) = (case lookPath name of
       Inr path \<Rightarrow> if path \<noteq> [] then path else firstAvailable lookPath names
     | Inl _ \<Rightarrow> firstAvailable lookPath names)"

definition detectToolchain :: "(string \<Rightarrow> string res) \<Rightarrow> toolchain" where
  "detectToolchain lookPath =
     (let nft = firstAvailable lookPath [''nft'']
      in if nft \<noteq> [] then \<lparr>backend = backendNFT, nft = nft, ipset = [], iptables = []\<rparr>
         else let tc = \<lparr>backend = backendIPTables, nft = [],
                        ipset = firstAvailable lookPath [''ipset''],
                        iptables = firstAvailable lookPath [''iptables'', ''iptables-nft'']\<rparr>
              in if available tc then tc else tc\<lparr>backend := backendNone\<rparr>)"

lemma detectToolchain_available:
  "available (detectToolchain lookPath) \<longleftrightarrow> backend (detectToolchain lookPath) \<noteq> backendNone"
  by (simp add: detectToolchain_def available_def Let_def)

section \<open>IPv4 addresses and prefixes\<close>

definition octet :: "string \<Rightarrow> bool" where
  "octet s \<longleftrightarrow> s \<noteq> [] \<and> list_all is_digit s \<and> (length s = 1 \<or> hd s \<noteq> CHR ''0'')
     \<and> digits_val s \<le> 255"

definition parseIPv4 :: "string \<Rightarrow> nat list option" where
  "parseIPv4 s =
     (let ps = Split s (CHR ''.'')
      in if length ps = 4 \<and> list_all octet ps then Some (map digits_val ps) else None)"

definition IPv4_String :: "nat list \<Rightarrow> string" where
  "IPv4_String a = Join (map (\<lambda>n. Itoa (int n)) a) ''.''"

definition ParsePrefix4 :: "string \<Rightarrow> (nat list \<times> int) option" where
  "ParsePrefix4 s =
     (let i = LastIndexByte s (CHR ''/'')
      in if i < 0 then None
         else case parseIPv4 (upto_index i s) of
                None \<Rightarrow> None
              | Some a \<Rightarrow>
                  (let bitsStr = from_index (i + 1) s
                   in if 1 < length bitsStr \<and> \<not> (is_digit (hd bitsStr) \<and> hd bitsStr \<noteq> CHR ''0'')
                      then None
                      else case Atoi bitsStr of
                             (bits, err) \<Rightarrow> if err \<or> bits < 0 \<or> 32 < bits then None
                                            else Some (a, bits)))"

definition Prefix_String :: "nat list \<times> int \<Rightarrow> string" where
  "Prefix_String p = IPv4_String (fst p) @ ''/'' @ Itoa (snd p)"

definition normalizeSelector :: "string \<Rightarrow> string option" where
  "normalizeSelector v =
     (let v = TrimSpace v
      in if v = [] then None
         else case parseIPv4 v of
                Some a \<Rightarrow> Some (IPv4_String a)
              | None \<Rightarrow> map_option Prefix_String (ParsePrefix4 v))"

section \<open>Collecting the selectors\<close>

record policy_env =
  LookupNetIP :: "string \<Rightarrow> string list option"
  OpenFile :: "string \<Rightarrow> string option"

definition append_new :: "string \<Rightarrow> string list \<Rightarrow> string list" where
  "append_new v out = (if v \<in> set out then out else out @ [v])"

definition resolveDomainSelectors :: "policy_env \<Rightarrow> string \<Rightarrow> string list \<Rightarrow> string list" where
  "resolveDomainSelectors env domain out =
     (let domain = TrimSpace domain
      in if domain = [] then out
         else case LookupNetIP env domain of
                None \<Rightarrow> out
              | Some ips \<Rightarrow> fold append_new ips out)"

definition add_selector :: "policy_env \<Rightarrow> string \<Rightarrow> string list \<Rightarrow> string list" where
  "add_selector env v out = (case normalizeSelector v of
       Some sel \<Rightarrow> append_new sel out
     | None \<Rightarrow> resolveDomainSelectors env v out)"

definition file_selectors :: "policy_env \<Rightarrow> string \<Rightarrow> string list \<Rightarrow> string list" where
  "file_selectors env path out = (case OpenFile env path of
       None \<Rightarrow> out
     | Some content \<Rightarrow>
         fold (add_selector env)
           (filter (\<lambda>line. line \<noteq> [] \<and> \<not> HasPrefix line ''#'')
              (map TrimSpace (scan_lines content))) out)"

definition collectSelectors :: "policy_env \<Rightarrow> DaemonConfig \<Rightarrow> string list" where
  "collectSelectors env cfg =
     fold (file_selectors env) (VPNDomainFiles cfg)
       (fold (add_selector env) (VPNDomains cfg) (fold (add_selector env) (VPNIPs cfg) []))"

section \<open>The commands\<close>

record PolicyManager =
  pm_cfg :: DaemonConfig
  pm_toolchain :: toolchain

definition New_policy :: "(string \<Rightarrow> string res) \<Rightarrow> DaemonConfig \<Rightarrow> PolicyManager" where
  "New_policy lookPath cfg = \<lparr>pm_cfg = cfg, pm_toolchain = detectToolchain lookPath\<rparr>"

definition run :: "'f os \<Rightarrow> string \<Rightarrow> string list \<Rightarrow> ('f, string option) io" where
  "run os name args = do {
     err \<leftarrow> attempt os (Run name args);
     State_Monad.return (map_option (\<lambda>e. name @ '' ['' @ Join args '' '' @ '']: '' @ e) err) }"

definition mark_rule :: "string \<Rightarrow> 32 word \<Rightarrow> string list" where
  "mark_rule action fwmark =
     [''-t'', ''mangle'', action, ''OUTPUT'', ''-m'', ''set'', ''--match-set'', ''vw_vpn_dst'',
      ''dst'', ''-j'', ''MARK'', ''--set-mark'', Itoa (uint fwmark)]"

definition applyIPTables ::
    "'f os \<Rightarrow> toolchain \<Rightarrow> string list \<Rightarrow> 32 word \<Rightarrow> ('f, string option) io" where
  "applyIPTables os tc selectors fwmark = do {
     err \<leftarrow> run os (ipset tc) [''create'', ''vw_vpn_dst'', ''hash:net'', ''-exist''];
     if err \<noteq> None then State_Monad.return err else do {
     err \<leftarrow> run os (ipset tc) [''flush'', ''vw_vpn_dst''];
     if err \<noteq> None then State_Monad.return err else do {
     _ \<leftarrow> for_each selectors (\<lambda>ip. run os (ipset tc) [''add'', ''vw_vpn_dst'', ip, ''-exist'']);
     _ \<leftarrow> run os (iptables tc) (mark_rule ''-D'' fwmark);
     run os (iptables tc) (mark_rule ''-A'' fwmark) } } }"

definition applyNFT ::
    "'f os \<Rightarrow> toolchain \<Rightarrow> string list \<Rightarrow> 32 word \<Rightarrow> ('f, string option) io" where
  "applyNFT os tc selectors fwmark = do {
     _ \<leftarrow> run os (nft tc) [''add'', ''table'', ''inet'', ''vpn_watchdog''];
     _ \<leftarrow> run os (nft tc) [''add'', ''chain'', ''inet'', ''vpn_watchdog'', ''output'',
            ''{ type route hook output priority mangle ; policy accept ; }''];
     _ \<leftarrow> run os (nft tc) [''add'', ''set'', ''inet'', ''vpn_watchdog'', ''vpn_dst'',
            ''{ type ipv4_addr ; flags interval ; }''];
     err \<leftarrow> run os (nft tc) [''flush'', ''set'', ''inet'', ''vpn_watchdog'', ''vpn_dst''];
     if err \<noteq> None then State_Monad.return err else do {
     _ \<leftarrow> for_each selectors (\<lambda>selector. run os (nft tc)
            [''add'', ''element'', ''inet'', ''vpn_watchdog'', ''vpn_dst'',
             ''{ '' @ selector @ '' }'']);
     err \<leftarrow> run os (nft tc) [''flush'', ''chain'', ''inet'', ''vpn_watchdog'', ''output''];
     if err \<noteq> None then State_Monad.return err else
     run os (nft tc) [''add'', ''rule'', ''inet'', ''vpn_watchdog'', ''output'', ''ip'', ''daddr'',
       ''@vpn_dst'', ''meta'', ''mark'', ''set'', Itoa (uint fwmark)] } }"

definition Clear :: "'f os \<Rightarrow> PolicyManager \<Rightarrow> 32 word \<Rightarrow> ('f, string option) io" where
  "Clear os m fwmark =
     (let tc = pm_toolchain m
      in if \<not> available tc then State_Monad.return None
         else do {
           _ \<leftarrow> (if backend tc = backendNFT
                 then run os (nft tc) [''delete'', ''table'', ''inet'', ''vpn_watchdog'']
                 else do {
                   _ \<leftarrow> run os (iptables tc) (mark_rule ''-D'' fwmark);
                   run os (ipset tc) [''destroy'', ''vw_vpn_dst''] });
           State_Monad.return None })"

definition Apply :: "policy_env \<Rightarrow> 'f os \<Rightarrow> PolicyManager \<Rightarrow> 32 word \<Rightarrow> ('f, string option) io" where
  "Apply env os m fwmark =
     (let tc = pm_toolchain m
      in if \<not> available tc then State_Monad.return None
         else let selectors = collectSelectors env (pm_cfg m)
              in if selectors = [] then Clear os m fwmark
                 else if backend tc = backendNFT then applyNFT os tc selectors fwmark
                 else applyIPTables os tc selectors fwmark)"

section \<open>Canonical texts\<close>

text \<open>A string without leading zeros is the decimal text of its value.\<close>

lemma digits_val_snoc: "digits_val (ds @ [c]) = digits_val ds * 10 + digit_val c"
  by (simp add: digits_val_def)

lemma digit_digit_val: "is_digit c \<Longrightarrow> digit (digit_val c) = c"
  by (simp add: is_digit_def digit_def digit_val_def)

lemma digit_val_pos:
  assumes "is_digit c" and "c \<noteq> CHR ''0''"
  shows "0 < digit_val c"
proof -
  have "of_char (CHR ''0'') = (48::nat)" by simp
  with assms(2) have "of_char c \<noteq> (48::nat)" by (metis of_char_eq_iff)
  with assms(1) show ?thesis by (simp add: is_digit_def digit_val_def)
qed

lemma nat_digits_digits_val:
  assumes "list_all is_digit s" and "s \<noteq> []" and "length s = 1 \<or> hd s \<noteq> CHR ''0''"
  shows "nat_digits (digits_val s) = s \<and> (hd s \<noteq> CHR ''0'' \<longrightarrow> 0 < digits_val s)"
  using assms
proof (induction s rule: rev_induct)
  case (snoc c ds)
  have c: "is_digit c" "digit_val c < 10" using snoc.prems(1) by (auto simp: is_digit_def digit_val_def)
  show ?case
  proof (cases "ds = []")
    case True
    then show ?thesis
      using c digit_val_pos [of c]
      by (simp add: digits_val_def nat_digits.simps [of "digit_val c"] digit_digit_val)
  next
    case False
    with snoc.prems have "hd ds \<noteq> CHR ''0''" by auto
    with snoc False have ih: "nat_digits (digits_val ds) = ds" "0 < digits_val ds" by auto
    have "nat_digits (digits_val ds * 10 + digit_val c) = nat_digits (digits_val ds) @ [digit (digit_val c)]"
      using c ih(2) by (subst nat_digits.simps) simp
    with c ih show ?thesis by (simp add: digits_val_snoc digit_digit_val)
  qed
qed simp

lemma octet_text: "octet s \<Longrightarrow> Itoa (int (digits_val s)) = s"
  using nat_digits_digits_val [of s] by (simp add: octet_def Itoa_def)

lemma octet_Itoa: "n \<le> 255 \<Longrightarrow> octet (Itoa (int n))"
proof -
  assume n: "n \<le> 255"
  have "hd (nat_digits m) \<noteq> CHR ''0''" if "10 \<le> m" for m
    using that
  proof (induction m rule: nat_digits.induct)
    case (1 m)
    then have e: "nat_digits m = nat_digits (m div 10) @ [digit (m mod 10)]"
      by (subst nat_digits.simps) simp
    show ?case
    proof (cases "m < 100")
      case True
      with "1.prems" have "m div 10 < 10" "0 < m div 10" by simp_all
      then show ?thesis
        using digit_props [of "m div 10"]
        by (auto simp: e nat_digits.simps [of "m div 10"] digit_val_def)
    qed (use 1 in \<open>simp add: e\<close>)
  qed
  moreover have "length (nat_digits n) = 1" if "n < 10"
    using that by (simp add: nat_digits.simps [of n])
  ultimately show ?thesis
    using n by (cases "n < 10") (simp_all add: octet_def Itoa_def nat_digits_digit digits_val_nat_digits)
qed

lemma digits_no_dot: "list_all is_digit s \<Longrightarrow> CHR ''.'' \<notin> set s \<and> CHR ''/'' \<notin> set s"
  by (auto simp: list_all_iff is_digit_def)

lemma parseIPv4_text: "parseIPv4 s = Some a \<Longrightarrow> IPv4_String a = s"
proof -
  assume "parseIPv4 s = Some a"
  then have "list_all octet (Split s (CHR ''.''))" "a = map digits_val (Split s (CHR ''.''))"
    by (auto simp: parseIPv4_def Let_def split: if_splits)
  then have "map (\<lambda>n. Itoa (int n)) a = Split s (CHR ''.'')"
    by (auto simp: list_all_iff octet_text intro!: map_idI)
  then show ?thesis by (simp add: IPv4_String_def Join_Split)
qed

text \<open>The text of every address parses back.\<close>

lemma parseIPv4_String:
  assumes "length a = 4" and "list_all (\<lambda>n. n \<le> 255) a"
  shows "parseIPv4 (IPv4_String a) = Some a"
proof -
  let ?ps = "map (\<lambda>n. Itoa (int n)) a"
  have oct: "list_all octet ?ps" using assms(2) by (auto simp: list_all_iff octet_Itoa)
  then have "list_all (\<lambda>p. CHR ''.'' \<notin> set p) ?ps"
    by (auto simp: list_all_iff octet_def dest: digits_no_dot [unfolded list_all_iff])
  moreover have "?ps \<noteq> []" using assms(1) by auto
  ultimately have "Split (IPv4_String a) (CHR ''.'') = ?ps"
    unfolding IPv4_String_def by (rule Split_Join [rotated])
  with oct assms(1) show ?thesis
    by (simp add: parseIPv4_def comp_def Itoa_def digits_val_nat_digits)
qed

text \<open>Accepted texts hold digits, dots and a slash only, so trimming keeps them.\<close>

definition selector_char :: "char \<Rightarrow> bool" where
  "selector_char c \<longleftrightarrow> is_digit c \<or> c = CHR ''.'' \<or> c = CHR ''/''"

lemma selector_char_ascii: "selector_char c \<Longrightarrow> is_ascii c"
  by (auto simp: selector_char_def is_digit_ascii) (simp_all add: is_ascii_def)

lemma selector_text_trims:
  assumes "list_all selector_char s" and "s \<noteq> []" and "is_digit (hd s)" and "is_digit (last s)"
  shows "TrimSpace s = s"
  using assms
  by (intro TrimSpace_ascii_id) (simp_all add: list_all_iff selector_char_ascii is_digit_not_space)

lemma parseIPv4_chars:
  assumes "parseIPv4 s = Some a"
  shows "list_all selector_char s \<and> CHR ''/'' \<notin> set s \<and> s \<noteq> [] \<and> is_digit (hd s) \<and> is_digit (last s)"
proof -
  let ?ps = "Split s (CHR ''.'')"
  have oct: "list_all octet ?ps" using assms by (auto simp: parseIPv4_def Let_def split: if_splits)
  then have ne: "list_all (\<lambda>p. p \<noteq> []) ?ps" by (auto simp: list_all_iff octet_def)
  have dig: "is_digit c" if "p \<in> set ?ps" "c \<in> set p" for p c
    using oct that by (auto simp: list_all_iff octet_def)
  have s: "s = Join ?ps ''.''" by (simp add: Join_Split)
  have "list_all selector_char s \<and> CHR ''/'' \<notin> set s"
    using Join_set [of ?ps "''.''"] dig digit_not_sign
    by (subst (1 2) s) (fastforce simp: list_all_iff selector_char_def is_digit_def)
  moreover have "hd s = hd (hd ?ps)" "last s = last (last ?ps)" "s \<noteq> []"
    using Join_ends [OF Split_not_Nil ne, of "''.''"] by (simp_all flip: s)
  moreover have "hd ?ps \<in> set ?ps" "last ?ps \<in> set ?ps" by simp_all
  ultimately show ?thesis
    using ne dig [of "hd ?ps" "hd (hd ?ps)"] dig [of "last ?ps" "last (last ?ps)"]
    by (simp add: list_all_iff)
qed

lemma Atoi_canonical:
  assumes "\<not> (1 < length s \<and> \<not> (is_digit (hd s) \<and> hd s \<noteq> CHR ''0''))"
    and "Atoi s = (i, False)" and "0 \<le> i"
  shows "list_all is_digit s \<and> s \<noteq> [] \<and> Itoa i = s"
proof -
  have "s \<noteq> []" using assms(2) by (auto simp: Atoi_def)
  have sign: "hd s \<noteq> CHR ''-'' \<and> hd s \<noteq> CHR ''+''"
  proof (cases "1 < length s")
    case True
    with assms(1) show ?thesis using digit_not_sign by blast
  next
    case False
    with \<open>s \<noteq> []\<close> obtain c where "s = [c]" by (cases s) auto
    with assms(2) show ?thesis by (auto simp: Atoi_def)
  qed
  with assms(2) \<open>s \<noteq> []\<close> have d: "list_all is_digit s" "i = int (digits_val s)"
    by (auto simp: Atoi_def Let_def split: if_splits)
  have "length s = 1 \<or> hd s \<noteq> CHR ''0''"
    using assms(1) \<open>s \<noteq> []\<close> by (cases s) auto
  from nat_digits_digits_val [OF d(1) \<open>s \<noteq> []\<close> this] d \<open>s \<noteq> []\<close> show ?thesis
    by (simp add: Itoa_def)
qed

lemma ParsePrefix4_text:
  assumes "ParsePrefix4 s = Some p"
  shows "Prefix_String p = s \<and> list_all selector_char s \<and> s \<noteq> [] \<and> is_digit (hd s) \<and> is_digit (last s)"
proof -
  let ?i = "LastIndexByte s (CHR ''/'')"
  obtain a bits where p: "p = (a, bits)" by (cases p)
  with assms have i: "\<not> ?i < 0" and a: "parseIPv4 (upto_index ?i s) = Some a"
    and c: "\<not> (1 < length (from_index (?i + 1) s) \<and> \<not> (is_digit (hd (from_index (?i + 1) s))
              \<and> hd (from_index (?i + 1) s) \<noteq> CHR ''0''))"
    and b: "Atoi (from_index (?i + 1) s) = (bits, False)" "0 \<le> bits"
    by (auto simp: ParsePrefix4_def Let_def split: if_splits option.splits prod.splits)
  have at: "nat ?i < length s \<and> s ! nat ?i = CHR ''/''"
    using i by (rule LastIndexByte_at)
  have "Suc (nat ?i) = nat (?i + 1)" using i by linarith
  then have "s = upto_index ?i s @ CHR ''/'' # from_index (?i + 1) s"
    using id_take_nth_drop [OF conjunct1 [OF at]] by (simp only: conjunct2 [OF at])
  then obtain u v where uv: "s = u @ CHR ''/'' # v" "u = upto_index ?i s" "v = from_index (?i + 1) s"
    by blast
  have "IPv4_String a = u" "list_all selector_char u" "u \<noteq> []" "is_digit (hd u)"
    using parseIPv4_text [OF a] parseIPv4_chars [OF a] unfolding uv(2) by blast+
  moreover have "Itoa bits = v" "list_all is_digit v" "v \<noteq> []"
    using Atoi_canonical [OF c b] unfolding uv(3) by blast+
  moreover have "selector_char (CHR ''/'')" "list_all selector_char v" "is_digit (last v)"
    using calculation by (auto simp: list_all_iff selector_char_def)
  ultimately show ?thesis
    unfolding p Prefix_String_def uv(1) by simp
qed

lemma normalizeSelector_text:
  assumes "normalizeSelector v = Some sel"
  shows "sel = TrimSpace v \<and> TrimSpace sel = sel \<and> normalizeSelector sel = Some sel"
proof -
  let ?v = "TrimSpace v"
  have "?v \<noteq> []" using assms by (auto simp: normalizeSelector_def)
  then consider a where "parseIPv4 ?v = Some a" "sel = IPv4_String a"
    | p where "parseIPv4 ?v = None" "ParsePrefix4 ?v = Some p" "sel = Prefix_String p"
    using assms by (auto simp: normalizeSelector_def Let_def split: option.splits)
  then have "sel = ?v \<and> TrimSpace ?v = ?v"
  proof cases
    case 1
    then show ?thesis
      using parseIPv4_text [of ?v] parseIPv4_chars [of ?v] selector_text_trims by blast
  next
    case 2
    then show ?thesis using ParsePrefix4_text [of ?v p] selector_text_trims by blast
  qed
  with assms show ?thesis by (simp add: normalizeSelector_def)
qed

section \<open>The list of selectors\<close>

definition canonical :: "string list \<Rightarrow> bool" where
  "canonical out \<longleftrightarrow> distinct out \<and> list_all (\<lambda>s. normalizeSelector s = Some s) out"

text \<open>The documented answer of a lookup on network \<open>ip4\<close>: texts of IPv4 addresses.\<close>

definition resolver_ip4 :: "policy_env \<Rightarrow> bool" where
  "resolver_ip4 env \<longleftrightarrow> (\<forall>h ips. LookupNetIP env h = Some ips \<longrightarrow>
     list_all (\<lambda>s. \<exists>a. length a = 4 \<and> list_all (\<lambda>n. n \<le> 255) a \<and> s = IPv4_String a) ips)"

lemma normalizeSelector_address:
  assumes "length a = 4" and "list_all (\<lambda>n. n \<le> 255) a"
  shows "normalizeSelector (IPv4_String a) = Some (IPv4_String a)"
proof -
  note parse = parseIPv4_String [OF assms]
  from parseIPv4_chars [OF parse] selector_text_trims
  have "TrimSpace (IPv4_String a) = IPv4_String a" "IPv4_String a \<noteq> []" by blast+
  with parse show ?thesis by (simp add: normalizeSelector_def)
qed

lemma append_new_canonical:
  "canonical out \<Longrightarrow> normalizeSelector v = Some v \<Longrightarrow> canonical (append_new v out)"
  by (auto simp: canonical_def append_new_def)

lemma append_new_set [simp]: "set (append_new v out) = insert v (set out)"
  by (auto simp: append_new_def)

lemma fold_canonical:
  "(\<And>x out. x \<in> set xs \<Longrightarrow> canonical out \<Longrightarrow> canonical (f x out)) \<Longrightarrow> canonical out
     \<Longrightarrow> canonical (fold f xs out)"
  by (induction xs arbitrary: out) simp_all

lemma fold_grows: "(\<And>x out. set out \<subseteq> set (f x out)) \<Longrightarrow> set out \<subseteq> set (fold f xs out)"
  by (induction xs arbitrary: out) (simp, force)

lemma add_selector_canonical:
  assumes "resolver_ip4 env" and "canonical out"
  shows "canonical (add_selector env v out)"
proof (cases "normalizeSelector v")
  case None
  have "canonical (fold append_new ips out)" if "LookupNetIP env h = Some ips" for h ips
  proof -
    have "normalizeSelector x = Some x" if "x \<in> set ips" for x
    proof -
      from assms(1) \<open>LookupNetIP env h = Some ips\<close> that
      obtain a where "length a = 4" "list_all (\<lambda>n. n \<le> 255) a" "x = IPv4_String a"
        unfolding resolver_ip4_def list_all_iff by blast
      then show ?thesis by (simp only: normalizeSelector_address)
    qed
    then show ?thesis using assms(2) by (intro fold_canonical append_new_canonical)
  qed
  with None assms(2) show ?thesis
    by (auto simp: add_selector_def resolveDomainSelectors_def Let_def split: option.splits)
next
  case (Some sel)
  have "canonical (append_new sel out)"
    using append_new_canonical [OF assms(2)] normalizeSelector_text [OF Some] by blast
  with Some show ?thesis by (simp add: add_selector_def)
qed

lemma add_selector_grows: "set out \<subseteq> set (add_selector env v out)"
proof -
  have "set out \<subseteq> set (fold append_new ips out)" for ips
    by (rule fold_grows) auto
  then show ?thesis
    by (auto simp: add_selector_def resolveDomainSelectors_def Let_def split: option.splits)
qed

lemma fold_add_grows: "set out \<subseteq> set (fold (add_selector env) vs out)"
  by (rule fold_grows) (rule add_selector_grows)

lemma file_selectors_grows: "set out \<subseteq> set (file_selectors env path out)"
  by (simp add: file_selectors_def fold_add_grows split: option.split)

lemma file_selectors_canonical:
  "resolver_ip4 env \<Longrightarrow> canonical out \<Longrightarrow> canonical (file_selectors env path out)"
  by (auto simp: file_selectors_def split: option.splits
      intro!: fold_canonical add_selector_canonical)

lemma add_selector_takes:
  "normalizeSelector v = Some sel \<Longrightarrow> v \<in> set vs \<Longrightarrow> sel \<in> set (fold (add_selector env) vs out)"
proof (induction vs arbitrary: out)
  case (Cons w vs)
  show ?case
  proof (cases "v = w")
    case True
    with Cons.prems(1) have "sel \<in> set (add_selector env w out)" by (simp add: add_selector_def)
    then show ?thesis
      using fold_add_grows [of "add_selector env w out" env vs] by auto
  qed (use Cons in simp)
qed simp

section \<open>Balance of the mark rules\<close>

text \<open>
  How many copies of a rule the log has left behind: those \<open>iptables\<close> reported as added, less
  those it reported as deleted. \<open>iptables_ok\<close> is the documented behaviour the code relies on:
  deleting a rule succeeds exactly when there is one.
\<close>

definition rule_cmd :: "string \<Rightarrow> string list \<Rightarrow> string list" where
  "rule_cmd action spec = [''-t'', ''mangle'', action] @ spec"

definition mark_spec :: "32 word \<Rightarrow> string list" where
  "mark_spec fwmark =
     [''OUTPUT'', ''-m'', ''set'', ''--match-set'', ''vw_vpn_dst'', ''dst'', ''-j'', ''MARK'',
      ''--set-mark'', Itoa (uint fwmark)]"

fun delta :: "string \<Rightarrow> string list \<Rightarrow> 'f syscall \<times> reply \<Rightarrow> int" where
  "delta ipt spec (Run name args, r) =
     (if name \<noteq> ipt \<or> reply_err r \<noteq> None then 0
      else if args = rule_cmd ''-A'' spec then 1
      else if args = rule_cmd ''-D'' spec then -1 else 0)"
| "delta ipt spec _ = 0"

definition balance :: "string \<Rightarrow> string list \<Rightarrow> 'f oslog \<Rightarrow> int" where
  "balance ipt spec h = (\<Sum>c\<leftarrow>h. delta ipt spec c)"

definition iptables_ok :: "string \<Rightarrow> 'f os \<Rightarrow> bool" where
  "iptables_ok ipt os \<longleftrightarrow> (\<forall>h spec.
     reply_err (answer os h (Run ipt (rule_cmd ''-D'' spec))) = None \<longleftrightarrow> 0 < balance ipt spec h)"

lemma mark_rule_cmd: "mark_rule action fwmark = rule_cmd action (mark_spec fwmark)"
  by (simp add: mark_rule_def rule_cmd_def mark_spec_def)

lemma balance_simps [simp]:
  "balance ipt spec [] = 0"
  "balance ipt spec (h @ k) = balance ipt spec h + balance ipt spec k"
  "balance ipt spec (c # h) = delta ipt spec c + balance ipt spec h"
  by (simp_all add: balance_def)

lemma mark_spec_inj [simp]: "mark_spec a = mark_spec b \<longleftrightarrow> a = b"
proof -
  have "uint a = uint b" if "Itoa (uint a) = Itoa (uint b)"
    by (rule Itoa_inj [OF _ _ that]) simp_all
  moreover have "a = b" if "uint a = uint b" using that by (simp add: word_uint_eq_iff)
  ultimately show ?thesis by (auto simp: mark_spec_def)
qed

lemma rule_cmd_inj [simp]: "rule_cmd a s = rule_cmd b t \<longleftrightarrow> a = b \<and> s = t"
  by (simp add: rule_cmd_def)

lemma run_run [simp]:
  "final (run os name args) w = do_call os (Run name args) w"
  "result (run os name args) w = None \<longleftrightarrow> reply_err (answer os (calls w) (Run name args)) = None"
  by (simp_all add: run_def)

text \<open>Commands of the other tool do not count.\<close>

lemma balance_other:
  assumes "only (\<lambda>c. \<forall>args. c \<noteq> Run ipt args) m"
  shows "balance ipt spec (calls (final m w)) = balance ipt spec (calls w)"
proof -
  have "balance ipt spec cs = 0" if "list_all (\<lambda>(c, r). \<forall>args. c \<noteq> Run ipt args) cs" for cs :: "'a oslog"
    using that
  proof (induction cs)
    case (Cons c cs)
    then have "delta ipt spec c = 0" by (cases "(ipt, spec, c)" rule: delta.cases) auto
    with Cons show ?case by simp
  qed simp
  with onlyD [OF assms, of w] show ?thesis by auto
qed

text \<open>One deletion and one addition of the same rule, on any log.\<close>

lemma delete_rule:
  assumes "iptables_ok ipt os" and "0 \<le> balance ipt spec (calls w)"
  shows "balance ipt spec' (calls (final (run os ipt (rule_cmd ''-D'' spec)) w))
     = balance ipt spec' (calls w) - (if spec' = spec \<and> 0 < balance ipt spec (calls w) then 1 else 0)"
  using assms by (auto simp: iptables_ok_def)

lemma add_rule:
  "balance ipt spec' (calls (final (run os ipt (rule_cmd ''-A'' spec)) w))
     = balance ipt spec' (calls w)
       + (if spec' = spec \<and> result (run os ipt (rule_cmd ''-A'' spec)) w = None then 1 else 0)"
  by simp

lemma applyIPTables_balance:
  fixes w :: "'f world" and selectors :: "string list"
  assumes ok: "iptables_ok (iptables tc) os" and ne: "ipset tc \<noteq> iptables tc"
    and b: "0 \<le> balance (iptables tc) (mark_spec fwmark) (calls w)"
      "balance (iptables tc) (mark_spec fwmark) (calls w) \<le> 1"
  defines "w' \<equiv> final (applyIPTables os tc selectors fwmark) w"
  shows "(result (applyIPTables os tc selectors fwmark) w = None
          \<longrightarrow> balance (iptables tc) (mark_spec fwmark) (calls w') = 1)
    \<and> 0 \<le> balance (iptables tc) (mark_spec fwmark) (calls w')
    \<and> balance (iptables tc) (mark_spec fwmark) (calls w') \<le> 1
    \<and> (spec' \<noteq> mark_spec fwmark
        \<longrightarrow> balance (iptables tc) spec' (calls w') = balance (iptables tc) spec' (calls w))"
proof -
  let ?create = "run os (ipset tc) [''create'', ''vw_vpn_dst'', ''hash:net'', ''-exist'']"
  let ?flush = "run os (ipset tc) [''flush'', ''vw_vpn_dst'']"
  let ?adds = "for_each selectors
    (\<lambda>ip. run os (ipset tc) [''add'', ''vw_vpn_dst'', ip, ''-exist''])"
  have other: "balance (iptables tc) s (calls (final m v)) = balance (iptables tc) s (calls v)"
    if "m = ?create \<or> m = ?flush" for s v and m :: "('f, string option) io"
    using that ne by (auto simp: mark_rule_def)
  have adds: "balance (iptables tc) s (calls (final ?adds v)) = balance (iptables tc) s (calls v)" for s v
    by (rule balance_other) (auto intro!: effect_intros simp: run_def ne)
  let ?v = "final ?adds (final ?flush (final ?create w))"
  have v: "balance (iptables tc) s (calls ?v) = balance (iptables tc) s (calls w)" for s
    by (simp add: other adds del: run_run)
  let ?D = "run os (iptables tc) (rule_cmd ''-D'' (mark_spec fwmark))"
  let ?A = "run os (iptables tc) (rule_cmd ''-A'' (mark_spec fwmark))"
  have d: "balance (iptables tc) (mark_spec fwmark) (calls (final ?D ?v)) = 0"
    using delete_rule [OF ok, of "mark_spec fwmark" ?v "mark_spec fwmark"] b unfolding v by auto
  have d': "spec' \<noteq> mark_spec fwmark \<Longrightarrow>
      balance (iptables tc) spec' (calls (final ?D ?v)) = balance (iptables tc) spec' (calls w)"
    using delete_rule [OF ok, of "mark_spec fwmark" ?v spec'] b unfolding v by auto
  show ?thesis
    unfolding w'_def applyIPTables_def run_bind mark_rule_cmd
    using b d d' other [of ?create _ w] other [of ?flush]
    by (cases "result ?create w"; cases "result ?flush (final ?create w)")
      (simp_all add: add_rule del: run_run)
qed

lemma Clear_balance:
  assumes "iptables_ok (iptables (pm_toolchain m)) os" and "available (pm_toolchain m)"
    and "backend (pm_toolchain m) = backendIPTables"
    and "ipset (pm_toolchain m) \<noteq> iptables (pm_toolchain m)"
    and "0 \<le> balance (iptables (pm_toolchain m)) (mark_spec fwmark) (calls w)"
    and "balance (iptables (pm_toolchain m)) (mark_spec fwmark) (calls w) \<le> 1"
  shows "balance (iptables (pm_toolchain m)) spec' (calls (final (Clear os m fwmark) w))
     = (if spec' = mark_spec fwmark then 0
        else balance (iptables (pm_toolchain m)) spec' (calls w))"
proof -
  let ?ipt = "iptables (pm_toolchain m)"
  let ?v = "final (run os ?ipt (rule_cmd ''-D'' (mark_spec fwmark))) w"
  have "balance ?ipt spec' (calls (final (Clear os m fwmark) w)) = balance ?ipt spec' (calls ?v)"
    using assms(2-4) by (simp add: Clear_def mark_rule_cmd Let_def)
  also have "\<dots> = (if spec' = mark_spec fwmark then 0 else balance ?ipt spec' (calls w))"
    using delete_rule [OF assms(1,5), of spec'] assms(5,6) by auto
  finally show ?thesis .
qed

section \<open>Properties\<close>

text \<open>
  The selectors. Given that a lookup on network \<open>ip4\<close> answers with IPv4 addresses, the
  collected selectors are distinct, each is the text of an IPv4 address or prefix that
  normalises to itself, and every address or prefix the settings name is among them.
\<close>

theorem selectors_canonical:
  assumes "resolver_ip4 env"
  shows "distinct (collectSelectors env cfg)
    \<and> list_all (\<lambda>s. normalizeSelector s = Some s) (collectSelectors env cfg)
    \<and> (v \<in> set (VPNIPs cfg) \<union> set (VPNDomains cfg) \<and> normalizeSelector v = Some sel
        \<longrightarrow> sel \<in> set (collectSelectors env cfg))"
proof -
  have "canonical (collectSelectors env cfg)"
    unfolding collectSelectors_def
    by (intro fold_canonical add_selector_canonical file_selectors_canonical assms)
      (simp_all add: canonical_def)
  moreover have "set (fold (add_selector env) (VPNDomains cfg)
        (fold (add_selector env) (VPNIPs cfg) [])) \<subseteq> set (collectSelectors env cfg)"
    unfolding collectSelectors_def by (rule fold_grows) (rule file_selectors_grows)
  moreover have "sel \<in> set (fold (add_selector env) (VPNDomains cfg)
        (fold (add_selector env) (VPNIPs cfg) []))"
    if "v \<in> set (VPNIPs cfg) \<union> set (VPNDomains cfg)" "normalizeSelector v = Some sel"
    using that add_selector_takes [OF that(2)] fold_add_grows by blast
  ultimately show ?thesis by (auto simp: canonical_def)
qed

definition demo_policy_env :: policy_env where
  "demo_policy_env =
     \<lparr>LookupNetIP = (\<lambda>h. if h = ''t.me'' then Some [IPv4_String [149, 154, 167, 99]] else None),
      OpenFile = (\<lambda>p. None)\<rparr>"

lemma demo_policy_env_ip4: "resolver_ip4 demo_policy_env"
  unfolding resolver_ip4_def demo_policy_env_def
  by (auto intro!: exI [of _ "[149, 154, 167, 99]"])

lemma selectors_canonical_witness:
  "distinct (collectSelectors demo_policy_env
      (DefaultDaemonConfig\<lparr>VPNIPs := ['' 10.0.0.0/8''], VPNDomains := [''t.me'']\<rparr>))
   \<and> ''10.0.0.0/8'' \<in> set (collectSelectors demo_policy_env
      (DefaultDaemonConfig\<lparr>VPNIPs := ['' 10.0.0.0/8''], VPNDomains := [''t.me'']\<rparr>))"
proof -
  have "normalizeSelector '' 10.0.0.0/8'' = Some ''10.0.0.0/8''" by code_simp
  with selectors_canonical [OF demo_policy_env_ip4, where v = "'' 10.0.0.0/8''"
      and sel = "''10.0.0.0/8''"
      and cfg = "DefaultDaemonConfig\<lparr>VPNIPs := ['' 10.0.0.0/8''], VPNDomains := [''t.me'']\<rparr>"]
  show ?thesis by simp
qed

text \<open>
  C16: the mark rule of a switch. With the iptables backend, and given that deleting a rule
  succeeds exactly when there is one, applying the policy never leaves more than one copy of
  its rule: exactly one when it reports no error, none when there is nothing to select, and
  none after clearing it again. The rule of any other mark is left as it was, so a switch to a
  tunnel with another mark keeps the old tunnel's rule.
\<close>

theorem policy_rule_once:
  assumes "backend (pm_toolchain m) = backendIPTables" and "available (pm_toolchain m)"
    and "ipset (pm_toolchain m) \<noteq> iptables (pm_toolchain m)"
    and "iptables_ok (iptables (pm_toolchain m)) os"
    and "0 \<le> balance (iptables (pm_toolchain m)) (mark_spec fwmark) (calls w)"
    and "balance (iptables (pm_toolchain m)) (mark_spec fwmark) (calls w) \<le> 1"
  shows "(collectSelectors env (pm_cfg m) \<noteq> [] \<and> result (Apply env os m fwmark) w = None
          \<longrightarrow> balance (iptables (pm_toolchain m)) (mark_spec fwmark)
                (calls (final (Apply env os m fwmark) w)) = 1)
    \<and> (collectSelectors env (pm_cfg m) = []
          \<longrightarrow> balance (iptables (pm_toolchain m)) (mark_spec fwmark)
                (calls (final (Apply env os m fwmark) w)) = 0)
    \<and> balance (iptables (pm_toolchain m)) (mark_spec fwmark)
        (calls (final (Clear os m fwmark) (final (Apply env os m fwmark) w))) = 0
    \<and> (fwmark' \<noteq> fwmark
        \<longrightarrow> balance (iptables (pm_toolchain m)) (mark_spec fwmark')
              (calls (final (Apply env os m fwmark) w))
            = balance (iptables (pm_toolchain m)) (mark_spec fwmark') (calls w))"
proof (cases "collectSelectors env (pm_cfg m) = []")
  case True
  then have "Apply env os m fwmark = Clear os m fwmark"
    using assms(2) by (simp add: Apply_def)
  then show ?thesis
    using True assms
    by (simp only: Clear_balance [OF assms(4,2,1,3,5,6)]) (simp add: Clear_balance)
next
  case False
  then have "Apply env os m fwmark
      = applyIPTables os (pm_toolchain m) (collectSelectors env (pm_cfg m)) fwmark"
    using assms(1,2) by (simp add: Apply_def)
  then show ?thesis
    using False assms
      applyIPTables_balance [OF assms(4,3,5,6), of "collectSelectors env (pm_cfg m)"
        "mark_spec fwmark'"]
    by (simp add: Clear_balance)
qed

definition demo_iptables :: "unit os" where
  "demo_iptables = \<lparr>answer = (\<lambda>h c. case c of
       Run name args \<Rightarrow>
         (if name = ''iptables'' \<and> take 3 args = [''-t'', ''mangle'', ''-D'']
             \<and> balance ''iptables'' (drop 3 args) h \<le> 0
          then Failed ''no such rule'' else Done)
     | _ \<Rightarrow> Done), elapsed = (\<lambda>h c. 0)\<rparr>"

definition demo_policy :: PolicyManager where
  "demo_policy = \<lparr>pm_cfg = DefaultDaemonConfig\<lparr>VPNIPs := [''1.2.3.4'']\<rparr>,
     pm_toolchain = \<lparr>backend = backendIPTables, nft = [], ipset = ''ipset'', iptables = ''iptables''\<rparr>\<rparr>"

lemma policy_rule_once_witness:
  "balance ''iptables'' (mark_spec 101)
     (calls (final (Clear demo_iptables demo_policy 101)
       (final (Apply demo_policy_env demo_iptables demo_policy 101) \<lparr>calls = [], clock = 0, procMap = []\<rparr>))) = 0"
proof -
  have "iptables_ok ''iptables'' demo_iptables"
    by (auto simp: iptables_ok_def demo_iptables_def rule_cmd_def)
  then show ?thesis
    using policy_rule_once [of demo_policy demo_iptables 101 "\<lparr>calls = [], clock = 0, procMap = []\<rparr>"]
    by (simp add: demo_policy_def available_def)
qed

end
