(* ===== verification/Tunnel_Managers.thy ===== *)
theory Tunnel_Managers
  imports Os_Calls Config_Types
begin

text \<open>
  \<open>daemon/internal/tunnel\<close>: the three tunnel backends behind the \<open>Manager\<close> interface. WireGuard
  and AmneziaWG write a configuration file and run \<open>wg-quick\<close> or \<open>awg-quick\<close>; VLESS writes a
  sing-box configuration, starts the process, waits for its SOCKS port and sets up routing. The
  files written are values of \<open>conf_file\<close>: the text of the template, or the value that
  \<open>json.MarshalIndent\<close> prints. The calls to the system are those of \<open>Os_Calls\<close>; the processes
  that \<open>VLESSManager\<close> keeps are \<open>procMap\<close>.
\<close>

section \<open>Routing tables and marks\<close>

definition rune_hash :: "string \<Rightarrow> int" where
  "rune_hash s = foldl (\<lambda>h c. wrap64 (h * 31 + int c)) 0 (runes s)"

definition routingTableID :: "TunnelConfig \<Rightarrow> int" where
  "routingTableID tc =
     (if 0 < RoutingTableID tc then RoutingTableID tc
      else let h = rune_hash (ID tc) in 100 + (h smod 100 + 100) smod 100)"

definition fwmarkForTable :: "int \<Rightarrow> 32 word" where
  "fwmarkForTable tableID = uint32 tableID"

section \<open>The files written\<close>

record singBoxUTLS =
  utls_Enabled :: bool
  utls_Fingerprint :: string

record singBoxReality =
  reality_Enabled :: bool
  reality_PublicKey :: string
  reality_ShortID :: string

record singBoxECH =
  ech_Enabled :: bool
  ech_Config :: string

record singBoxTLS =
  tls_Enabled :: bool
  tls_ServerName :: string
  tls_Insecure :: bool
  tls_UTLS :: "singBoxUTLS option"
  tls_ECH :: "singBoxECH option"
  tls_Reality :: "singBoxReality option"

record singBoxTransport =
  tr_Type :: string
  tr_Path :: string
  tr_ServiceName :: string
  tr_Host :: string
  tr_Headers :: "(string \<times> string) list"

record singBoxOutbound =
  out_Tag :: string
  out_Type :: string
  out_Server :: string
  out_Port :: int
  out_UUID :: string
  out_Flow :: string
  out_TLS :: "singBoxTLS option"
  out_Transport :: "singBoxTransport option"

record singBoxInbound =
  in_Tag :: string
  in_Type :: string
  in_Listen :: string
  in_Port :: int
  in_Sniff :: bool

record singBoxConfig =
  sb_Log :: "(string \<times> string) list"
  sb_Inbounds :: "singBoxInbound list"
  sb_Outbounds :: "singBoxOutbound list"
  sb_Route :: "(string \<times> string) list"

datatype conf_file = TextFile string | SingBoxFile singBoxConfig

type_synonym tunnel_os = "conf_file os"
type_synonym 'a tunnel_io = "(conf_file, 'a) io"

section \<open>Helpers shared by the managers\<close>

definition runCmd :: "tunnel_os \<Rightarrow> string \<Rightarrow> string list \<Rightarrow> string option tunnel_io" where
  "runCmd os name args = do {
     err \<leftarrow> attempt os (Run name args);
     State_Monad.return (map_option (\<lambda>e. name @ '' ['' @ Join args '' '' @ '']: '' @ e) err) }"

definition interfaceExists :: "tunnel_os \<Rightarrow> string \<Rightarrow> bool tunnel_io" where
  "interfaceExists os name = do {
     err \<leftarrow> attempt os (StatNet name);
     State_Monad.return (err = None) }"

definition waitForInterface :: "tunnel_os \<Rightarrow> string \<Rightarrow> duration \<Rightarrow> bool tunnel_io" where
  "waitForInterface os name timeout = poll_until os timeout (Interface name)"

definition waitForPort :: "tunnel_os \<Rightarrow> int \<Rightarrow> duration \<Rightarrow> bool tunnel_io" where
  "waitForPort os port timeout = poll_until os timeout (SocksPort port)"

abbreviation run_dir :: string where
  "run_dir \<equiv> ''/tmp/vpn-watchdog''"

definition wg_confPath :: "TunnelConfig \<Rightarrow> string" where
  "wg_confPath tc = path_join run_dir (InterfaceName tc @ ''.conf'')"

definition awg_confPath :: "TunnelConfig \<Rightarrow> string" where
  "awg_confPath tc = path_join run_dir (InterfaceName tc @ ''-awg.conf'')"

definition vless_confPath :: "TunnelConfig \<Rightarrow> string" where
  "vless_confPath tc = path_join run_dir (ID tc @ ''-singbox.json'')"

abbreviation nl :: string where
  "nl \<equiv> [CHR 0x0A]"

text \<open>Creating the directory and writing the file, as each of the three \<open>writeConf\<close> does.\<close>

definition write_file :: "tunnel_os \<Rightarrow> string \<Rightarrow> conf_file \<Rightarrow> string res tunnel_io" where
  "write_file os path content = do {
     err \<leftarrow> attempt os (MkdirAll run_dir);
     case err of Some e \<Rightarrow> State_Monad.return (Inl e)
     | None \<Rightarrow> do {
         err \<leftarrow> attempt os (WriteFile path content);
         State_Monad.return (case err of Some e \<Rightarrow> Inl e | None \<Rightarrow> Inr path) } }"

section \<open>WireGuard\<close>

record wgConfData =
  wd_PrivateKey :: string
  wd_PublicKey :: string
  wd_PresharedKey :: string
  wd_PSKFile :: string
  wd_Endpoint :: string
  wd_AllowedIPs :: string
  wd_MTU :: int
  wd_TableID :: int
  wd_FWMark :: "32 word"
  wd_Keepalive :: int

text \<open>The two routing lines of both templates.\<close>

definition rule_lines :: "32 word \<Rightarrow> int \<Rightarrow> string" where
  "rule_lines fwmark tableID =
     ''PostUp = ip rule add fwmark '' @ Itoa (uint fwmark) @ '' table '' @ Itoa tableID
       @ '' priority 100'' @ nl
     @ ''PreDown = ip rule del fwmark '' @ Itoa (uint fwmark) @ '' table '' @ Itoa tableID
       @ '' priority 100'' @ nl"

definition wgConfTemplate :: "wgConfData \<Rightarrow> string" where
  "wgConfTemplate d =
     ''[Interface]'' @ nl
     @ ''PrivateKey = '' @ wd_PrivateKey d @ nl
     @ ''Address = 10.0.0.2/32'' @ nl
     @ ''MTU = '' @ Itoa (wd_MTU d) @ nl
     @ ''Table = '' @ Itoa (wd_TableID d) @ nl
     @ rule_lines (wd_FWMark d) (wd_TableID d)
     @ nl
     @ ''[Peer]'' @ nl
     @ ''PublicKey = '' @ wd_PublicKey d @ nl
     @ (if wd_PresharedKey d \<noteq> [] then ''PresharedKeyFile = '' @ wd_PSKFile d else []) @ nl
     @ ''AllowedIPs = '' @ wd_AllowedIPs d @ nl
     @ ''Endpoint = '' @ wd_Endpoint d @ nl
     @ (if 0 < wd_Keepalive d then ''PersistentKeepalive = '' @ Itoa (wd_Keepalive d) else []) @ nl"

definition wg_writeConf :: "tunnel_os \<Rightarrow> TunnelConfig \<Rightarrow> wgConfData \<Rightarrow> string res tunnel_io" where
  "wg_writeConf os tc d = write_file os (wg_confPath tc) (TextFile (wgConfTemplate d))"

definition effective_mtu :: "TunnelConfig \<Rightarrow> int" where
  "effective_mtu tc = (if MTU tc = 0 then 1420 else MTU tc)"

definition wg_data :: "TunnelConfig \<Rightarrow> WireGuardConfig \<Rightarrow> wgConfData" where
  "wg_data tc wgc =
     \<lparr>wd_PrivateKey = PrivateKey wgc, wd_PublicKey = PublicKey wgc, wd_PresharedKey = [],
      wd_PSKFile = [], wd_Endpoint = Endpoint wgc, wd_AllowedIPs = Join (AllowedIPs wgc) '', '',
      wd_MTU = effective_mtu tc, wd_TableID = routingTableID tc,
      wd_FWMark = fwmarkForTable (routingTableID tc), wd_Keepalive = PersistentKeepalive wgc\<rparr>"

text \<open>The last part of both \<open>Up\<close> methods: the old interface down, the new one up, the wait.\<close>

definition quick_up ::
    "tunnel_os \<Rightarrow> string \<Rightarrow> string \<Rightarrow> string \<Rightarrow> string \<Rightarrow> string option tunnel_io" where
  "quick_up os quick label confPath iface = do {
     ex \<leftarrow> interfaceExists os iface;
     _ \<leftarrow> (if ex then runCmd os quick [''down'', confPath] else State_Monad.return None);
     err \<leftarrow> runCmd os quick [''up'', confPath];
     case err of Some e \<Rightarrow> State_Monad.return (Some (label @ '' up: '' @ e))
     | None \<Rightarrow> do {
         ok \<leftarrow> waitForInterface os iface (5 * second);
         State_Monad.return
           (if ok then None
            else Some (''interface '' @ iface @ '' did not appear after '' @ label @ '' up'')) } }"

definition wg_Up :: "tunnel_os \<Rightarrow> TunnelConfig \<Rightarrow> string option tunnel_io" where
  "wg_Up os tc = (case WireGuard tc of
       None \<Rightarrow> State_Monad.return (Some (''wg config is nil for '' @ ID tc))
     | Some wgc \<Rightarrow> do {
         let pskPath = path_join run_dir (ID tc @ ''-psk'');
         err \<leftarrow> (if PresharedKey wgc \<noteq> []
                then attempt os (WriteFile pskPath (TextFile (PresharedKey wgc @ nl)))
                else State_Monad.return None);
         case err of Some e \<Rightarrow> State_Monad.return (Some (''write psk: '' @ e))
         | None \<Rightarrow> do {
             let d = wg_data tc wgc;
             let d = (if PresharedKey wgc \<noteq> [] then d\<lparr>wd_PSKFile := pskPath\<rparr> else d);
             conf \<leftarrow> wg_writeConf os tc d;
             case conf of Inl e \<Rightarrow> State_Monad.return (Some e)
             | Inr confPath \<Rightarrow> quick_up os ''wg-quick'' ''wg-quick'' confPath (InterfaceName tc) } })"

text \<open>The reply of \<open>os.Stat\<close> for which \<open>os.IsNotExist\<close> holds.\<close>

definition not_exist :: reply where
  "not_exist = Failed ''file does not exist''"

definition quick_Down :: "tunnel_os \<Rightarrow> string \<Rightarrow> string \<Rightarrow> string \<Rightarrow> string option tunnel_io" where
  "quick_Down os quick confPath iface = do {
     r \<leftarrow> syscall os (Stat confPath);
     if r = not_exist then do {
       ex \<leftarrow> interfaceExists os iface;
       if ex then runCmd os ''ip'' [''link'', ''del'', iface] else State_Monad.return None }
     else runCmd os quick [''down'', confPath] }"

definition wg_Down :: "tunnel_os \<Rightarrow> TunnelConfig \<Rightarrow> string option tunnel_io" where
  "wg_Down os tc = quick_Down os ''wg-quick'' (wg_confPath tc) (InterfaceName tc)"

section \<open>AmneziaWG\<close>

record awgConfData =
  ad_PrivateKey :: string
  ad_PublicKey :: string
  ad_PresharedKey :: string
  ad_Endpoint :: string
  ad_AllowedIPs :: string
  ad_MTU :: int
  ad_TableID :: int
  ad_FWMark :: "32 word"
  ad_Keepalive :: int
  ad_Jc :: int
  ad_Jmin :: int
  ad_Jmax :: int
  ad_S1 :: int
  ad_S2 :: int
  ad_H1 :: int
  ad_H2 :: int
  ad_H3 :: int
  ad_H4 :: int

definition awgConfTemplate :: "awgConfData \<Rightarrow> string" where
  "awgConfTemplate d =
     ''[Interface]'' @ nl
     @ ''PrivateKey = '' @ ad_PrivateKey d @ nl
     @ ''Address = 10.0.0.2/32'' @ nl
     @ ''MTU = '' @ Itoa (ad_MTU d) @ nl
     @ ''Table = '' @ Itoa (ad_TableID d) @ nl
     @ ''Jc = '' @ Itoa (ad_Jc d) @ nl
     @ ''Jmin = '' @ Itoa (ad_Jmin d) @ nl
     @ ''Jmax = '' @ Itoa (ad_Jmax d) @ nl
     @ ''S1 = '' @ Itoa (ad_S1 d) @ nl
     @ ''S2 = '' @ Itoa (ad_S2 d) @ nl
     @ ''H1 = '' @ Itoa (ad_H1 d) @ nl
     @ ''H2 = '' @ Itoa (ad_H2 d) @ nl
     @ ''H3 = '' @ Itoa (ad_H3 d) @ nl
     @ ''H4 = '' @ Itoa (ad_H4 d) @ nl
     @ rule_lines (ad_FWMark d) (ad_TableID d)
     @ nl
     @ ''[Peer]'' @ nl
     @ ''PublicKey = '' @ ad_PublicKey d @ nl
     @ (if ad_PresharedKey d \<noteq> [] then ''PresharedKey = '' @ ad_PresharedKey d else []) @ nl
     @ ''AllowedIPs = '' @ ad_AllowedIPs d @ nl
     @ ''Endpoint = '' @ ad_Endpoint d @ nl
     @ (if 0 < ad_Keepalive d then ''PersistentKeepalive = '' @ Itoa (ad_Keepalive d) else []) @ nl"

definition awg_data :: "TunnelConfig \<Rightarrow> AmneziaWGConfig \<Rightarrow> awgConfData" where
  "awg_data tc awg =
     \<lparr>ad_PrivateKey = PrivateKey awg, ad_PublicKey = PublicKey awg,
      ad_PresharedKey = PresharedKey awg, ad_Endpoint = Endpoint awg,
      ad_AllowedIPs = Join (AllowedIPs awg) '', '', ad_MTU = effective_mtu tc,
      ad_TableID = routingTableID tc, ad_FWMark = fwmarkForTable (routingTableID tc),
      ad_Keepalive = PersistentKeepalive awg, ad_Jc = JunkPacketCount awg,
      ad_Jmin = JunkPacketMinSize awg, ad_Jmax = JunkPacketMaxSize awg,
      ad_S1 = InitPacketJunkSize awg, ad_S2 = ResponsePacketJunkSize awg,
      ad_H1 = InitPacketMagicHeader awg, ad_H2 = ResponsePacketMagicHeader awg,
      ad_H3 = UnderLoadPacketMagicHeader awg, ad_H4 = TransportPacketMagicHeader awg\<rparr>"

definition awg_writeConf :: "tunnel_os \<Rightarrow> TunnelConfig \<Rightarrow> awgConfData \<Rightarrow> string res tunnel_io" where
  "awg_writeConf os tc d = write_file os (awg_confPath tc) (TextFile (awgConfTemplate d))"

definition awgQuick :: "DaemonConfig \<Rightarrow> string" where
  "awgQuick cfg = (if AWGBin cfg \<noteq> [] then AWGBin cfg @ ''-quick'' else ''awg-quick'')"

definition awg_Up :: "tunnel_os \<Rightarrow> DaemonConfig \<Rightarrow> TunnelConfig \<Rightarrow> string option tunnel_io" where
  "awg_Up os cfg tc = (case AmneziaWG tc of
       None \<Rightarrow> State_Monad.return (Some (''awg config is nil for '' @ ID tc))
     | Some awg \<Rightarrow> do {
         conf \<leftarrow> awg_writeConf os tc (awg_data tc awg);
         case conf of Inl e \<Rightarrow> State_Monad.return (Some e)
         | Inr confPath \<Rightarrow> quick_up os (awgQuick cfg) ''awg-quick'' confPath (InterfaceName tc) })"

definition awg_Down :: "tunnel_os \<Rightarrow> DaemonConfig \<Rightarrow> TunnelConfig \<Rightarrow> string option tunnel_io" where
  "awg_Down os cfg tc = quick_Down os (awgQuick cfg) (awg_confPath tc) (InterfaceName tc)"

section \<open>VLESS\<close>

definition killProc :: "tunnel_os \<Rightarrow> string \<Rightarrow> unit tunnel_io" where
  "killProc os i = do {
     ps \<leftarrow> get_procs;
     case map_of ps i of None \<Rightarrow> State_Monad.return ()
     | Some pid \<Rightarrow> do {
         _ \<leftarrow> set_procs (AList.delete i ps);
         _ \<leftarrow> syscall os (Kill (- pid) SIGTERM);
         _ \<leftarrow> syscall os (Sleep (500 * millisecond));
         _ \<leftarrow> syscall os (Kill (- pid) SIGKILL);
         _ \<leftarrow> syscall os (Wait pid);
         State_Monad.return () } }"

definition rule_args :: "string \<Rightarrow> 32 word \<Rightarrow> int \<Rightarrow> string list" where
  "rule_args action fwmark tableID =
     [''rule'', action, ''fwmark'', Itoa (uint fwmark), ''table'', Itoa tableID, ''priority'', ''100'']"

definition redirect_args :: "string \<Rightarrow> 32 word \<Rightarrow> int \<Rightarrow> string list" where
  "redirect_args action fwmark port =
     [''-t'', ''nat'', action, ''OUTPUT'', ''-m'', ''mark'', ''--mark'', Itoa (uint fwmark),
      ''-p'', ''tcp'', ''-j'', ''REDIRECT'', ''--to-ports'', Itoa port]"

definition setupRouting ::
    "tunnel_os \<Rightarrow> int \<Rightarrow> int \<Rightarrow> 32 word \<Rightarrow> string option tunnel_io" where
  "setupRouting os socksPort tableID fwmark = do {
     err \<leftarrow> runCmd os ''ip'' (rule_args ''add'' fwmark tableID);
     case err of Some e \<Rightarrow> State_Monad.return (Some (''ip rule add: '' @ e))
     | None \<Rightarrow> do {
     err \<leftarrow> runCmd os ''ip'' [''route'', ''add'', ''default'', ''via'', ''127.0.0.1'', ''table'', Itoa tableID];
     case err of Some e \<Rightarrow> do {
         _ \<leftarrow> runCmd os ''ip'' (rule_args ''del'' fwmark tableID);
         State_Monad.return (Some (''ip route add: '' @ e)) }
     | None \<Rightarrow> do {
     err \<leftarrow> runCmd os ''iptables'' (redirect_args ''-A'' fwmark socksPort);
     case err of Some e \<Rightarrow> do {
         _ \<leftarrow> runCmd os ''ip'' [''route'', ''flush'', ''table'', Itoa tableID];
         _ \<leftarrow> runCmd os ''ip'' (rule_args ''del'' fwmark tableID);
         State_Monad.return (Some (''iptables REDIRECT: '' @ e)) }
     | None \<Rightarrow> State_Monad.return None } } }"

definition localPort :: "TunnelConfig \<Rightarrow> VLESSConfig \<Rightarrow> int" where
  "localPort tc vless =
     (if LocalPort vless = 0 then 10800 + routingTableID tc smod 200 else LocalPort vless)"

definition vless_tls :: "VLESSConfig \<Rightarrow> singBoxTLS option" where
  "vless_tls vless =
     (if Security vless = ''tls'' \<or> Security vless = ''reality'' then
        Some \<lparr>tls_Enabled = True, tls_ServerName = SNI vless, tls_Insecure = False,
          tls_UTLS = (if Fingerprint vless \<noteq> []
                      then Some \<lparr>utls_Enabled = True, utls_Fingerprint = Fingerprint vless\<rparr>
                      else None),
          tls_ECH = (if ECH vless
                     then Some \<lparr>ech_Enabled = True, ech_Config = ECHConfig vless\<rparr> else None),
          tls_Reality = (if Security vless = ''reality''
                     then Some \<lparr>reality_Enabled = True, reality_PublicKey = RealityPublicKey vless,
                            reality_ShortID = RealityShortID vless\<rparr> else None)\<rparr>
      else None)"

definition zero_transport :: "string \<Rightarrow> singBoxTransport" where
  "zero_transport t = \<lparr>tr_Type = t, tr_Path = [], tr_ServiceName = [], tr_Host = [], tr_Headers = []\<rparr>"

definition vless_transport :: "VLESSConfig \<Rightarrow> singBoxTransport option" where
  "vless_transport vless =
     (let t = (if Transport vless = ''ws''
                 then Some ((zero_transport ''ws'')\<lparr>tr_Path := TransportPath vless\<rparr>)
               else if Transport vless = ''grpc''
                 then Some ((zero_transport ''grpc'')\<lparr>tr_ServiceName := TransportPath vless\<rparr>)
               else if Transport vless = ''httpupgrade''
                 then Some ((zero_transport ''httpupgrade'')\<lparr>tr_Path := TransportPath vless\<rparr>)
               else if Transport vless = ''quic'' then Some (zero_transport ''quic'')
               else if Transport vless = ''h3'' then Some (zero_transport ''http'')
               else None)
      in if DomainFronting vless \<and> FrontingHost vless \<noteq> []
         then map_option (\<lambda>t. t\<lparr>tr_Host := FrontingHost vless,
                tr_Headers := AList.update ''Host'' (FrontingHost vless) (tr_Headers t)\<rparr>) t
         else t)"

definition singBox_config :: "VLESSConfig \<Rightarrow> int \<Rightarrow> singBoxConfig" where
  "singBox_config vless port =
     \<lparr>sb_Log = [(''level'', ''warn'')],
      sb_Inbounds = [\<lparr>in_Tag = ''socks-in'', in_Type = ''socks'', in_Listen = ''127.0.0.1'',
        in_Port = port, in_Sniff = True\<rparr>],
      sb_Outbounds = [\<lparr>out_Tag = ''vless-out'', out_Type = ''vless'', out_Server = Address vless,
        out_Port = Port vless, out_UUID = UUID vless, out_Flow = Flow vless,
        out_TLS = vless_tls vless, out_Transport = vless_transport vless\<rparr>],
      sb_Route = [(''final'', ''vless-out'')]\<rparr>"

definition vless_writeConf ::
    "tunnel_os \<Rightarrow> TunnelConfig \<Rightarrow> VLESSConfig \<Rightarrow> int \<Rightarrow> string res tunnel_io" where
  "vless_writeConf os tc vless port =
     write_file os (vless_confPath tc) (SingBoxFile (singBox_config vless port))"

definition start_proc :: "tunnel_os \<Rightarrow> string \<Rightarrow> string list \<Rightarrow> int res tunnel_io" where
  "start_proc os name args = do {
     r \<leftarrow> syscall os (Start name args);
     State_Monad.return (case r of Failed e \<Rightarrow> Inl e | Proc pid \<Rightarrow> Inr pid | Done \<Rightarrow> Inr 0) }"

definition vless_Up :: "tunnel_os \<Rightarrow> DaemonConfig \<Rightarrow> TunnelConfig \<Rightarrow> string option tunnel_io" where
  "vless_Up os cfg tc = (case VLESS tc of
       None \<Rightarrow> State_Monad.return (Some (''vless config is nil for '' @ ID tc))
     | Some vless \<Rightarrow> do {
         _ \<leftarrow> killProc os (ID tc);
         let port = localPort tc vless;
         conf \<leftarrow> vless_writeConf os tc vless port;
         case conf of Inl e \<Rightarrow> State_Monad.return (Some (''write sing-box config: '' @ e))
         | Inr confPath \<Rightarrow> do {
             let singBox = (if SingBoxBin cfg = [] then ''sing-box'' else SingBoxBin cfg);
             r \<leftarrow> start_proc os singBox [''run'', ''-c'', confPath];
             case r of Inl e \<Rightarrow> State_Monad.return (Some (''start sing-box: '' @ e))
             | Inr pid \<Rightarrow> do {
                 ps \<leftarrow> get_procs;
                 _ \<leftarrow> set_procs (AList.update (ID tc) pid ps);
                 ok \<leftarrow> waitForPort os port (10 * second);
                 if \<not> ok then do {
                   _ \<leftarrow> killProc os (ID tc);
                   State_Monad.return
                     (Some (''sing-box did not listen on :'' @ Itoa port @ '' within timeout'')) }
                 else do {
                   let tableID = routingTableID tc;
                   err \<leftarrow> setupRouting os port tableID (fwmarkForTable tableID);
                   case err of Some e \<Rightarrow> do {
                       _ \<leftarrow> killProc os (ID tc);
                       State_Monad.return (Some (''setup routing: '' @ e)) }
                   | None \<Rightarrow> State_Monad.return None } } } })"

text \<open>\<open>teardownRouting\<close> reads \<open>tc.VLESS.LocalPort\<close>: a nil configuration panics.\<close>

definition teardownRouting :: "tunnel_os \<Rightarrow> TunnelConfig \<Rightarrow> unit outcome tunnel_io" where
  "teardownRouting os tc = (case VLESS tc of
       None \<Rightarrow> State_Monad.return (Panic ''nil pointer dereference'')
     | Some vless \<Rightarrow> do {
         let tableID = routingTableID tc;
         let fwmark = fwmarkForTable tableID;
         _ \<leftarrow> runCmd os ''ip'' (rule_args ''del'' fwmark tableID);
         _ \<leftarrow> runCmd os ''ip'' [''route'', ''flush'', ''table'', Itoa tableID];
         _ \<leftarrow> runCmd os ''iptables'' (redirect_args ''-D'' fwmark (localPort tc vless));
         State_Monad.return (Return ()) })"

definition vless_Down :: "tunnel_os \<Rightarrow> TunnelConfig \<Rightarrow> string option outcome tunnel_io" where
  "vless_Down os tc = do {
     r \<leftarrow> teardownRouting os tc;
     case r of Panic e \<Rightarrow> State_Monad.return (Panic e)
     | Return _ \<Rightarrow> do { _ \<leftarrow> killProc os (ID tc); State_Monad.return (Return None) } }"

text \<open>Nothing but \<open>killProc\<close> waits for the process, so its state is unknown as long as it is kept.\<close>

definition vless_IsUp :: "TunnelConfig \<Rightarrow> bool tunnel_io" where
  "vless_IsUp tc = do { ps \<leftarrow> get_procs; State_Monad.return (map_of ps (ID tc) \<noteq> None) }"

section \<open>The interface\<close>

datatype Manager =
  WGManager DaemonConfig | AWGManager DaemonConfig | VLESSManager DaemonConfig

definition ForConfig :: "TunnelConfig \<Rightarrow> DaemonConfig \<Rightarrow> Manager res" where
  "ForConfig tc cfg = (case Protocol tc of
       ProtocolWireGuard \<Rightarrow> Inr (WGManager cfg)
     | ProtocolAmneziaWG \<Rightarrow> Inr (AWGManager cfg)
     | ProtocolVLESS \<Rightarrow> Inr (VLESSManager cfg)
     | OtherProtocol p \<Rightarrow> Inl (''unsupported protocol: '' @ p))"

fun Up :: "tunnel_os \<Rightarrow> Manager \<Rightarrow> TunnelConfig \<Rightarrow> string option tunnel_io" where
  "Up os (WGManager cfg) tc = wg_Up os tc"
| "Up os (AWGManager cfg) tc = awg_Up os cfg tc"
| "Up os (VLESSManager cfg) tc = vless_Up os cfg tc"

fun Down :: "tunnel_os \<Rightarrow> Manager \<Rightarrow> TunnelConfig \<Rightarrow> string option outcome tunnel_io" where
  "Down os (WGManager cfg) tc = do { r \<leftarrow> wg_Down os tc; State_Monad.return (Return r) }"
| "Down os (AWGManager cfg) tc = do { r \<leftarrow> awg_Down os cfg tc; State_Monad.return (Return r) }"
| "Down os (VLESSManager cfg) tc = vless_Down os tc"

fun IsUp :: "tunnel_os \<Rightarrow> Manager \<Rightarrow> TunnelConfig \<Rightarrow> bool tunnel_io" where
  "IsUp os (VLESSManager cfg) tc = vless_IsUp tc"
| "IsUp os _ tc = interfaceExists os (InterfaceName tc)"

text \<open>The same for the three managers.\<close>

definition FWMark :: "TunnelConfig \<Rightarrow> 32 word" where
  "FWMark tc = fwmarkForTable (routingTableID tc)"

section \<open>Splitting the first write\<close>

text \<open>
  \<open>clienthello_splitter.go\<close>. The wrapped connection answers each write, in view of the writes
  before it, with a count and an error.
\<close>

type_synonym write_log = "(string \<times> int \<times> string option) list"
type_synonym conn = "write_log \<Rightarrow> string \<Rightarrow> int \<times> string option"

record ClientHelloSplitterConn =
  firstWriteDone :: bool
  splitAt :: int
  written :: write_log

definition NewClientHelloSplitterConn :: "int \<Rightarrow> ClientHelloSplitterConn" where
  "NewClientHelloSplitterConn n =
     \<lparr>firstWriteDone = False, splitAt = (if n \<le> 0 then 32 else n), written = []\<rparr>"

type_synonym 'a conn_io = "(ClientHelloSplitterConn, 'a) state"

definition conn_write :: "conn \<Rightarrow> string \<Rightarrow> (int \<times> string option) conn_io" where
  "conn_write conn p =
     State (\<lambda>c. let r = conn (written c) p in (r, c\<lparr>written := written c @ [(p, r)]\<rparr>))"

definition first_write :: "conn \<Rightarrow> string \<Rightarrow> (int \<times> string option) conn_io" where
  "first_write conn p = do {
     c \<leftarrow> State_Monad.get;
     if firstWriteDone c then State_Monad.return (0, None) else do {
     _ \<leftarrow> State_Monad.set (c\<lparr>firstWriteDone := True\<rparr>);
     if int (length p) \<le> splitAt c then conn_write conn p
     else do {
       r1 \<leftarrow> conn_write conn (upto_index (splitAt c) p);
       if snd r1 \<noteq> None then State_Monad.return r1
       else do {
         r2 \<leftarrow> conn_write conn (from_index (splitAt c) p);
         State_Monad.return (fst r1 + fst r2, snd r2) } } } }"

definition splitter_Write :: "conn \<Rightarrow> string \<Rightarrow> (int \<times> string option) conn_io" where
  "splitter_Write conn p = do {
     r \<leftarrow> first_write conn p;
     if 0 < fst r \<or> snd r \<noteq> None then State_Monad.return r else conn_write conn p }"

section \<open>Lemmas\<close>

lemma run_runCmd [simp]:
  "final (runCmd os name args) w = do_call os (Run name args) w"
  "result (runCmd os name args) w
     = map_option (\<lambda>e. name @ '' ['' @ Join args '' '' @ '']: '' @ e)
         (reply_err (answer os (calls w) (Run name args)))"
  by (simp_all add: runCmd_def)

lemma only_helpers [effect_intros]:
  "P (Run name args) \<Longrightarrow> only P (runCmd os name args)"
  "P (StatNet iface) \<Longrightarrow> only P (interfaceExists os iface)"
  "P (MkdirAll run_dir) \<Longrightarrow> P (WriteFile path content) \<Longrightarrow> only P (write_file os path content)"
  "P (Start name args) \<Longrightarrow> only P (start_proc os name args)"
  by (auto simp: runCmd_def interfaceExists_def write_file_def start_proc_def intro!: effect_intros)

lemma keeps_helpers [effect_intros]:
  "keeps procMap (runCmd os name args)"
  "keeps procMap (interfaceExists os iface)"
  "keeps procMap (write_file os path content)"
  "keeps procMap (start_proc os name args)"
  "keeps procMap (waitForInterface os iface timeout)"
  "keeps procMap (waitForPort os port timeout)"
  by (auto simp: runCmd_def interfaceExists_def write_file_def start_proc_def waitForInterface_def
      waitForPort_def intro!: effect_intros)

lemma keeps_quick [effect_intros]:
  "keeps procMap (quick_up os quick label confPath iface)"
  "keeps procMap (quick_Down os quick confPath iface)"
  by (auto simp: quick_up_def quick_Down_def intro!: effect_intros)

lemma keeps_setupRouting [effect_intros]: "keeps procMap (setupRouting os port tableID fwmark)"
  by (auto simp: setupRouting_def intro!: effect_intros)

lemma procMap_killProc:
  "map_of (procMap (final (killProc os i) w)) = (map_of (procMap w))(i := None)"
  by (auto simp: killProc_def delete_conv' fun_eq_iff split: option.split)

text \<open>Everything but \<open>killProc\<close> and the entry made after \<open>Start\<close> leaves the processes alone.\<close>

lemmas procMap_keeps =
  keeps_helpers [THEN keepsD] keeps_setupRouting [THEN keepsD] keeps_quick [THEN keepsD]

lemma vless_Up_procs:
  assumes "VLESS tc = Some v"
  shows "(result (vless_Up os cfg tc) w = None
           \<longleftrightarrow> map_of (procMap (final (vless_Up os cfg tc) w)) (ID tc) \<noteq> None)
    \<and> (\<forall>i. i \<noteq> ID tc \<longrightarrow> map_of (procMap (final (vless_Up os cfg tc) w)) i = map_of (procMap w) i)"
  using assms
  by (auto simp: vless_Up_def vless_writeConf_def Let_def procMap_keeps procMap_killProc update_conv'
      split: sum.split option.split)

lemma rune_hash_fold: "0 \<le> (rune_hash s smod 100 + 100) smod 100 \<and> (rune_hash s smod 100 + 100) smod 100 < 100"
  by (rule smod_fold_range) simp

text \<open>The connection of the splitter that takes whatever it is given.\<close>

definition accepting :: "conn \<Rightarrow> bool" where
  "accepting conn \<longleftrightarrow> (\<forall>h p. conn h p = (int (length p), None))"

definition sent :: "ClientHelloSplitterConn \<Rightarrow> string" where
  "sent c = concat (map fst (written c))"

lemma run_conn_write [simp]:
  "run_state (conn_write conn p) c = (conn (written c) p, c\<lparr>written := written c @ [(p, conn (written c) p)]\<rparr>)"
  by (simp add: conn_write_def Let_def)

lemma splitter_Write_accepting:
  assumes "accepting conn" and "0 < splitAt c"
  shows "fst (run_state (splitter_Write conn p) c) = (int (length p), None)
    \<and> sent (snd (run_state (splitter_Write conn p) c)) = sent c @ p
    \<and> splitAt (snd (run_state (splitter_Write conn p) c)) = splitAt c
    \<and> firstWriteDone (snd (run_state (splitter_Write conn p) c))"
proof -
  have ok: "conn h q = (int (length q), None)" for h q using assms(1) by (simp add: accepting_def)
  show ?thesis
    using assms(2) by (auto simp: splitter_Write_def first_write_def ok sent_def)
qed

section \<open>The contract of a backend\<close>

text \<open>
  What the switch engine relies on in every manager: it handles the process of its own tunnel
  only, refuses to bring up a tunnel without the settings of its protocol, and can take down a
  tunnel that has them.
\<close>

locale tunnel_backend =
  fixes up :: "tunnel_os \<Rightarrow> TunnelConfig \<Rightarrow> string option tunnel_io"
    and down :: "tunnel_os \<Rightarrow> TunnelConfig \<Rightarrow> string option outcome tunnel_io"
    and usable :: "TunnelConfig \<Rightarrow> bool"
  assumes up_others: "i \<noteq> ID tc \<Longrightarrow> map_of (procMap (final (up os tc) w)) i = map_of (procMap w) i"
    and down_others: "i \<noteq> ID tc \<Longrightarrow> map_of (procMap (final (down os tc) w)) i = map_of (procMap w) i"
    and up_unusable: "\<not> usable tc \<Longrightarrow> result (up os tc) w \<noteq> None"
    and down_returns: "usable tc \<Longrightarrow> \<exists>r. result (down os tc) w = Return r"
begin

lemma down_after_up: "result (up os tc) w = None \<Longrightarrow> \<exists>r. result (down os tc) w' = Return r"
  using up_unusable down_returns by blast

lemma session_others:
  "i \<noteq> ID tc \<Longrightarrow> map_of (procMap (final (down os tc) (final (up os tc) w))) i = map_of (procMap w) i"
  by (simp add: up_others down_others)

end

interpretation wg: tunnel_backend "\<lambda>os. Up os (WGManager cfg)" "\<lambda>os. Down os (WGManager cfg)"
    "\<lambda>tc. WireGuard tc \<noteq> None" for cfg
proof
  fix os and tc :: TunnelConfig and w :: "conf_file world" and i
  show "map_of (procMap (final (Up os (WGManager cfg) tc) w)) i = map_of (procMap w) i"
    by (auto simp: wg_Up_def wg_writeConf_def Let_def procMap_keeps split: sum.split option.split)
  show "map_of (procMap (final (Down os (WGManager cfg) tc) w)) i = map_of (procMap w) i"
    by (simp add: wg_Down_def procMap_keeps)
qed (auto simp: wg_Up_def)

interpretation awg: tunnel_backend "\<lambda>os. Up os (AWGManager cfg)" "\<lambda>os. Down os (AWGManager cfg)"
    "\<lambda>tc. AmneziaWG tc \<noteq> None" for cfg
proof
  fix os and tc :: TunnelConfig and w :: "conf_file world" and i
  show "map_of (procMap (final (Up os (AWGManager cfg) tc) w)) i = map_of (procMap w) i"
    by (auto simp: awg_Up_def awg_writeConf_def procMap_keeps split: sum.split option.split)
  show "map_of (procMap (final (Down os (AWGManager cfg) tc) w)) i = map_of (procMap w) i"
    by (simp add: awg_Down_def procMap_keeps)
qed (auto simp: awg_Up_def)

interpretation vl: tunnel_backend "\<lambda>os. Up os (VLESSManager cfg)" "\<lambda>os. Down os (VLESSManager cfg)"
    "\<lambda>tc. VLESS tc \<noteq> None" for cfg
proof
  fix os and tc :: TunnelConfig and w :: "conf_file world" and i
  assume i: "i \<noteq> ID tc"
  then show "map_of (procMap (final (Up os (VLESSManager cfg) tc) w)) i = map_of (procMap w) i"
    using vless_Up_procs by (cases "VLESS tc") (simp add: vless_Up_def, simp)
  from i show "map_of (procMap (final (Down os (VLESSManager cfg) tc) w)) i = map_of (procMap w) i"
    by (cases "VLESS tc")
      (simp_all add: vless_Down_def teardownRouting_def Let_def procMap_killProc procMap_keeps)
qed (auto simp: vless_Up_def vless_Down_def teardownRouting_def Let_def)

lemma Manager_others:
  assumes "i \<noteq> ID tc"
  shows "map_of (procMap (final (Up os mgr tc) w)) i = map_of (procMap w) i"
    and "map_of (procMap (final (Down os mgr tc) w)) i = map_of (procMap w) i"
  by (cases mgr; simp only: wg.up_others [OF assms] awg.up_others [OF assms] vl.up_others [OF assms])
    (cases mgr; simp only: wg.down_others [OF assms] awg.down_others [OF assms] vl.down_others [OF assms])

section \<open>Properties\<close>

text \<open>
  Routing tables. A configured table is used as it is; without one the table lies between
  100 and 199, is the mark of the tunnel's traffic, and gives a VLESS tunnel without a local
  port one between 10900 and 10999.
\<close>

theorem table_ids_bounded:
  "(0 < RoutingTableID tc \<longrightarrow> routingTableID tc = RoutingTableID tc)
   \<and> (RoutingTableID tc \<le> 0 \<longrightarrow> 100 \<le> routingTableID tc \<and> routingTableID tc \<le> 199
        \<and> uint (FWMark tc) = routingTableID tc
        \<and> (LocalPort v = 0 \<longrightarrow> 10900 \<le> localPort tc v \<and> localPort tc v \<le> 10999))"
proof -
  have t: "100 \<le> routingTableID tc \<and> routingTableID tc \<le> 199" if "RoutingTableID tc \<le> 0"
    using that rune_hash_fold [of "ID tc"] by (simp add: routingTableID_def Let_def)
  then have "routingTableID tc smod 200 = routingTableID tc" if "RoutingTableID tc \<le> 0"
    using that by (simp add: signed_modulo_int_def sgn_if)
  with t show ?thesis
    by (auto simp: localPort_def FWMark_def fwmarkForTable_def uint32_small routingTableID_def)
qed

lemma table_ids_bounded_witness:
  "routingTableID (zero_tc\<lparr>RoutingTableID := 51820\<rparr>) = 51820
   \<and> routingTableID (zero_tc\<lparr>ID := ''nl-1''\<rparr>) \<le> 199"
  using table_ids_bounded [of "zero_tc\<lparr>RoutingTableID := 51820\<rparr>" zero_vless]
    table_ids_bounded [of "zero_tc\<lparr>ID := ''nl-1''\<rparr>" zero_vless]
  by (simp add: zero_tc_def)

text \<open>
  Waiting ends. Whatever the system answers and however long it takes, waiting for an
  interface or a port returns after a number of checks that the timeout and the pause bound;
  it says no only after the deadline, yes only right after a check that succeeded.
\<close>

theorem wait_returns:
  "\<exists>cs. calls (final (poll_until os timeout p) w) = calls w @ cs
     \<and> int (length (filter (\<lambda>(c, r). c = poll_check p) cs))
         \<le> max 0 ((timeout + poll_pause p - 1) div poll_pause p)
     \<and> (if result (poll_until os timeout p) w
        then cs \<noteq> [] \<and> fst (last cs) = poll_check p \<and> reply_err (snd (last cs)) = None
        else clock w + timeout \<le> clock (final (poll_until os timeout p) w))"
proof -
  from poll_spec [of os "clock w + timeout" p w] obtain cs where
    "calls (snd (poll os (clock w + timeout) p w)) = calls w @ cs"
    "fst (poll os (clock w + timeout) p w) \<longrightarrow> cs \<noteq> [] \<and> fst (last cs) = poll_check p
       \<and> reply_err (snd (last cs)) = None"
    "\<not> fst (poll os (clock w + timeout) p w)
       \<longrightarrow> clock w + timeout \<le> clock (snd (poll os (clock w + timeout) p w))"
    "int (length (filter (\<lambda>(c, r). c = poll_check p) cs))
       \<le> max 0 ((clock w + timeout - clock w + poll_pause p - 1) div poll_pause p)"
    by blast
  then show ?thesis by (intro exI [of _ cs]) simp
qed

text \<open>
  C15: no stray sing-box. Bringing a VLESS tunnel up leaves a process registered under the
  tunnel's id exactly when it reports no error: on every error path the process is killed
  and forgotten, and no other tunnel's process is touched.
\<close>

theorem vless_Up_process:
  assumes "VLESS tc = Some v"
  shows "(result (vless_Up os cfg tc) w = None
           \<longleftrightarrow> map_of (procMap (final (vless_Up os cfg tc) w)) (ID tc) \<noteq> None)
    \<and> (i \<noteq> ID tc
        \<longrightarrow> map_of (procMap (final (vless_Up os cfg tc) w)) i = map_of (procMap w) i)"
  using vless_Up_procs [OF assms] by blast

definition silent_os :: tunnel_os where
  "silent_os = \<lparr>answer = (\<lambda>h c. case c of DialLocal p \<Rightarrow> Failed ''refused'' | Start n a \<Rightarrow> Proc 7 | _ \<Rightarrow> Done),
     elapsed = (\<lambda>h c. 0)\<rparr>"

definition idle_world :: "conf_file world" where
  "idle_world = \<lparr>calls = [], clock = 0, procMap = [(''de'', 3)]\<rparr>"

definition nl_tunnel :: TunnelConfig where
  "nl_tunnel = zero_tc\<lparr>ID := ''nl'', Protocol := ProtocolVLESS, VLESS := Some zero_vless\<rparr>"

lemma vless_Up_process_witness:
  "map_of (procMap (final (vless_Up silent_os DefaultDaemonConfig nl_tunnel) idle_world)) ''de'' = Some 3"
  using vless_Up_process [of nl_tunnel zero_vless silent_os DefaultDaemonConfig idle_world "''de''"]
  by (simp add: nl_tunnel_def idle_world_def)

definition setup_cmds :: "int \<Rightarrow> int \<Rightarrow> 32 word \<Rightarrow> conf_file syscall list" where
  "setup_cmds port tableID fwmark =
     [Run ''ip'' (rule_args ''add'' fwmark tableID),
      Run ''ip'' [''route'', ''add'', ''default'', ''via'', ''127.0.0.1'', ''table'', Itoa tableID],
      Run ''iptables'' (redirect_args ''-A'' fwmark port)]"

definition undo_cmds :: "int \<Rightarrow> int \<Rightarrow> 32 word \<Rightarrow> conf_file syscall list" where
  "undo_cmds port tableID fwmark =
     [Run ''ip'' (rule_args ''del'' fwmark tableID),
      Run ''ip'' [''route'', ''flush'', ''table'', Itoa tableID],
      Run ''iptables'' (redirect_args ''-D'' fwmark port)]"




definition keyless_write :: "TunnelConfig \<Rightarrow> WireGuardConfig \<Rightarrow> conf_file syscall \<Rightarrow> bool" where
  "keyless_write tc wgc c = (case c of
       WriteFile path file \<Rightarrow>
         PresharedKey wgc \<noteq> [] \<and> file = TextFile (PresharedKey wgc @ nl)
           \<and> path = path_join run_dir (ID tc @ ''-psk'')
         \<or> file = TextFile (wgConfTemplate (wg_data tc (wgc\<lparr>PresharedKey := []\<rparr>)))
           \<and> path = wg_confPath tc
     | _ \<Rightarrow> True)"

text \<open>
  C26: the preshared key of WireGuard. Every file that bringing up a WireGuard tunnel writes is
  the key file or the configuration the template gives for the tunnel without a preshared key:
  the key never takes effect, because \<open>Up\<close> does not copy it into the template's data.
\<close>

theorem wg_psk_dropped:
  assumes "WireGuard tc = Some wgc"
  shows "only (keyless_write tc wgc) (wg_Up os tc)"
proof -
  have "wgConfTemplate ((wg_data tc wgc)\<lparr>wd_PSKFile := f\<rparr>)
      = wgConfTemplate (wg_data tc (wgc\<lparr>PresharedKey := []\<rparr>))" for f
    by (simp add: wgConfTemplate_def wg_data_def)
  moreover have "wgConfTemplate (wg_data tc wgc)
      = wgConfTemplate (wg_data tc (wgc\<lparr>PresharedKey := []\<rparr>))"
    by (simp add: wgConfTemplate_def wg_data_def)
  ultimately show ?thesis
    using assms
    by (auto simp: wg_Up_def wg_writeConf_def quick_up_def waitForInterface_def Let_def keyless_write_def
        intro!: effect_intros split: sum.split)
qed

definition psk_tunnel :: TunnelConfig where
  "psk_tunnel = zero_tc\<lparr>ID := ''a'', InterfaceName := ''wg0'',
     WireGuard := Some (zero_wg\<lparr>PresharedKey := ''k''\<rparr>)\<rparr>"

lemma wg_psk_dropped_witness:
  "only (keyless_write psk_tunnel (zero_wg\<lparr>PresharedKey := ''k''\<rparr>)) (wg_Up silent_os psk_tunnel)"
  by (rule wg_psk_dropped) (simp add: psk_tunnel_def)

text \<open>
  C39: the splitter carries the same bytes. On a connection that takes what it is given, any
  sequence of writes through it sends the bytes of those writes in order, reports each write's
  length, and the first write, when it is longer than the split, goes out as exactly two.
\<close>

theorem splitter_transparent:
  assumes "accepting conn" and "0 < splitAt c"
  shows "sent (fold (\<lambda>p c. snd (run_state (splitter_Write conn p) c)) ps c) = sent c @ concat ps
    \<and> fst (run_state (splitter_Write conn p) c) = (int (length p), None)
    \<and> (\<not> firstWriteDone c \<and> splitAt c < int (length p)
        \<longrightarrow> map fst (written (snd (run_state (splitter_Write conn p) c)))
            = map fst (written c) @ [take (nat (splitAt c)) p, drop (nat (splitAt c)) p])"
proof -
  have "sent (fold (\<lambda>p c. snd (run_state (splitter_Write conn p) c)) ps c) = sent c @ concat ps"
    using assms(2)
    by (induction ps arbitrary: c) (simp_all add: splitter_Write_accepting [OF assms(1)])
  moreover have "map fst (written (snd (run_state (splitter_Write conn p) c)))
      = map fst (written c) @ [take (nat (splitAt c)) p, drop (nat (splitAt c)) p]"
    if "\<not> firstWriteDone c" "splitAt c < int (length p)"
    using that assms by (auto simp: splitter_Write_def first_write_def accepting_def)
  ultimately show ?thesis using splitter_Write_accepting [OF assms] by simp
qed

lemma splitter_transparent_witness:
  "map fst (written (snd (run_state (splitter_Write (\<lambda>h p. (int (length p), None)) ''hello'')
     (NewClientHelloSplitterConn 2)))) = [''he'', ''llo'']"
  using splitter_transparent [of "\<lambda>h p. (int (length p), None)" "NewClientHelloSplitterConn 2" "[]" "''hello''"]
  by (simp add: accepting_def NewClientHelloSplitterConn_def numeral_2_eq_2)

end
