(* ===== verification/Ai_Stores.thy ===== *)
theory Ai_Stores
  imports Config_Types
begin

text \<open>
  The two files of \<open>daemon/internal/aiadvisor\<close>: the bounded log of switch attempts
  (\<open>attempt_log.go\<close>) and the presets made from accepted recommendations (\<open>preset_store.go\<close>),
  with the types of \<open>types.go\<close> they hold. The mutexes make each method one atomic step. A file
  is read as in the rest of the development; \<open>writable\<close> says whether writes succeed.
\<close>

section \<open>Types\<close>

record AttemptEntry =
  ae_Timestamp :: gotime
  ae_ConfigID :: string
  ae_BaseConfigID :: string
  ae_VariantID :: string
  ae_ReasonCode :: string
  ae_BlockType :: string
  ae_Profile :: string
  ae_Stage :: string
  ae_Success :: bool
  ae_ErrorSummary :: string

record Recommendation =
  rec_BaseConfigID :: string
  rec_Reasoning :: string
  rec_Confidence :: float64
  rec_RetryBudget :: int
  rec_ExpiresSeconds :: int
  rec_MTU :: "int option"
  rec_EndpointPort :: "int option"
  rec_VLESSTransport :: string
  rec_VLESSFingerprint :: string
  rec_VLESSPath :: string
  rec_AWGProfile :: string

section \<open>The attempt log\<close>

record AttemptLog =
  al_entries :: "AttemptEntry list"
  al_maxSize :: int
  al_file :: "AttemptEntry list json_file"
  al_writable :: bool

definition load_attempts :: "AttemptLog \<Rightarrow> AttemptLog" where
  "load_attempts l = (case al_file l of JSON es \<Rightarrow> l\<lparr>al_entries := es\<rparr> | _ \<Rightarrow> l)"

definition NewAttemptLog :: "AttemptEntry list json_file \<Rightarrow> bool \<Rightarrow> int \<Rightarrow> AttemptLog" where
  "NewAttemptLog file writable maxSize =
     load_attempts \<lparr>al_entries = [], al_maxSize = (if maxSize \<le> 0 then 300 else maxSize),
       al_file = file, al_writable = writable\<rparr>"

definition save_attempts :: "AttemptLog \<Rightarrow> AttemptLog" where
  "save_attempts l = (if al_writable l then l\<lparr>al_file := JSON (al_entries l)\<rparr> else l)"

definition AddAttempt :: "AttemptEntry \<Rightarrow> AttemptLog \<Rightarrow> AttemptLog" where
  "AddAttempt e l =
     (let es = al_entries l @ [e];
          es = (if al_maxSize l < int (length es) then drop (length es - nat (al_maxSize l)) es else es)
      in save_attempts (l\<lparr>al_entries := es\<rparr>))"

definition Recent :: "int \<Rightarrow> AttemptLog \<Rightarrow> AttemptEntry list" where
  "Recent n l =
     (let n = (if n \<le> 0 \<or> int (length (al_entries l)) < n then int (length (al_entries l)) else n)
      in drop (length (al_entries l) - nat n) (al_entries l))"

text \<open>The last \<open>n\<close> elements of a list.\<close>

definition last_n :: "nat \<Rightarrow> 'a list \<Rightarrow> 'a list" where
  "last_n n xs = drop (length xs - n) xs"

lemma length_last_n [simp]: "length (last_n n xs) = min n (length xs)"
  by (simp add: last_n_def)

lemma last_n_all: "length xs \<le> n \<Longrightarrow> last_n n xs = xs"
  by (simp add: last_n_def)

lemma last_n_append: "length ys \<le> n \<Longrightarrow> last_n n (xs @ ys) = last_n (n - length ys) xs @ ys"
  by (simp add: last_n_def)

lemma last_n_last_n: "last_n m (last_n n xs) = last_n (min m n) xs"
  by (cases "n \<le> length xs") (auto simp: last_n_def min_def)

text \<open>Trimming after each addition keeps what trimming once at the end would keep.\<close>

lemma last_n_snoc: "0 < n \<Longrightarrow> last_n n (last_n n xs @ [x]) = last_n n (xs @ [x])"
  by (simp add: last_n_append last_n_last_n min_def)

lemma AddAttempt_entries:
  "0 < al_maxSize l \<Longrightarrow> al_entries (AddAttempt e l) = last_n (nat (al_maxSize l)) (al_entries l @ [e])"
  by (auto simp: AddAttempt_def save_attempts_def Let_def last_n_def)

lemma AddAttempt_frame [simp]:
  "al_maxSize (AddAttempt e l) = al_maxSize l"
  "al_writable (AddAttempt e l) = al_writable l"
  by (simp_all add: AddAttempt_def save_attempts_def Let_def)

lemma AddAttempt_file: "al_writable l \<Longrightarrow> al_file (AddAttempt e l) = JSON (al_entries (AddAttempt e l))"
  by (simp add: AddAttempt_def save_attempts_def Let_def)

lemma AddAttempts_spec:
  assumes "0 < al_maxSize l"
  shows "es \<noteq> [] \<Longrightarrow>
    al_entries (fold AddAttempt es l) = last_n (nat (al_maxSize l)) (al_entries l @ es)
    \<and> al_maxSize (fold AddAttempt es l) = al_maxSize l
    \<and> al_writable (fold AddAttempt es l) = al_writable l
    \<and> (al_writable l \<longrightarrow> al_file (fold AddAttempt es l) = JSON (al_entries (fold AddAttempt es l)))"
proof (induction es rule: rev_induct)
  case (snoc e es)
  show ?case
  proof (cases "es = []")
    case True
    with assms show ?thesis by (simp add: AddAttempt_entries AddAttempt_file)
  next
    case False
    let ?n = "nat (al_maxSize l)" and ?m = "fold AddAttempt es l"
    from snoc.IH [OF False] have ih: "al_entries ?m = last_n ?n (al_entries l @ es)"
        "al_maxSize ?m = al_maxSize l" "al_writable ?m = al_writable l" by simp_all
    with assms have "al_entries (AddAttempt e ?m) = last_n ?n (last_n ?n (al_entries l @ es) @ [e])"
      by (simp add: AddAttempt_entries)
    also have "\<dots> = last_n ?n (al_entries l @ es @ [e])"
      using assms last_n_snoc [of ?n "al_entries l @ es" e] by simp
    finally show ?thesis using ih by (simp add: AddAttempt_file)
  qed
qed simp

section \<open>Presets\<close>

record Preset =
  p_BaseConfigID :: string
  p_Recommendation :: Recommendation
  p_CreatedAt :: gotime
  p_ExpiresAt :: gotime
  p_SuccessStreak :: int
  p_DisabledUntil :: gotime
  p_LastFailure :: string

record PresetStore =
  presets :: "(string \<times> Preset) list"
  ps_file :: "(string \<times> Preset) list json_file"
  ps_writable :: bool

definition load_presets :: "PresetStore \<Rightarrow> PresetStore" where
  "load_presets ps = (case ps_file ps of JSON m \<Rightarrow> ps\<lparr>presets := m\<rparr> | _ \<Rightarrow> ps)"

definition NewPresetStore :: "(string \<times> Preset) list json_file \<Rightarrow> bool \<Rightarrow> PresetStore" where
  "NewPresetStore file writable =
     load_presets \<lparr>presets = [], ps_file = file, ps_writable = writable\<rparr>"

definition save_presets :: "PresetStore \<Rightarrow> PresetStore" where
  "save_presets ps = (if ps_writable ps then ps\<lparr>ps_file := JSON (presets ps)\<rparr> else ps)"

definition GetActive :: "string \<Rightarrow> gotime \<Rightarrow> PresetStore \<Rightarrow> Preset option" where
  "GetActive baseID now ps = (case map_of (presets ps) baseID of
       None \<Rightarrow> None
     | Some p \<Rightarrow>
         if p_ExpiresAt p < now \<or> \<not> IsZero (p_DisabledUntil p) \<and> now < p_DisabledUntil p
         then None else Some p)"

text \<open>\<open>SavePreset\<close> reads the clock twice.\<close>

definition SavePreset ::
    "string \<Rightarrow> Recommendation \<Rightarrow> duration \<Rightarrow> gotime \<Rightarrow> gotime \<Rightarrow> PresetStore \<Rightarrow> PresetStore" where
  "SavePreset baseID r ttl now1 now2 ps =
     (let ttl = (if ttl \<le> 0 then 12 * hour else ttl)
      in save_presets (ps\<lparr>presets := AList.update baseID
           \<lparr>p_BaseConfigID = baseID, p_Recommendation = r, p_CreatedAt = now1,
            p_ExpiresAt = now2 + ttl, p_SuccessStreak = 0, p_DisabledUntil = 0,
            p_LastFailure = []\<rparr> (presets ps)\<rparr>))"

definition MarkSuccess :: "string \<Rightarrow> PresetStore \<Rightarrow> PresetStore" where
  "MarkSuccess baseID ps = (case map_of (presets ps) baseID of
       None \<Rightarrow> ps
     | Some p \<Rightarrow> save_presets (ps\<lparr>presets := AList.update baseID
           (p\<lparr>p_SuccessStreak := wrap64 (p_SuccessStreak p + 1), p_LastFailure := []\<rparr>)
           (presets ps)\<rparr>))"

definition MarkFailure ::
    "string \<Rightarrow> string \<Rightarrow> duration \<Rightarrow> gotime \<Rightarrow> PresetStore \<Rightarrow> PresetStore" where
  "MarkFailure baseID reason cooldown now ps = (case map_of (presets ps) baseID of
       None \<Rightarrow> ps
     | Some p \<Rightarrow>
         let p = p\<lparr>p_LastFailure := reason\<rparr>;
             p = (if 0 < cooldown then p\<lparr>p_DisabledUntil := now + cooldown\<rparr> else p)
         in save_presets (ps\<lparr>presets := AList.update baseID p (presets ps)\<rparr>))"

datatype preset_call =
    CallSave string Recommendation duration gotime gotime
  | CallSuccess string
  | CallFailure string string duration gotime

fun preset_step :: "preset_call \<Rightarrow> PresetStore \<Rightarrow> PresetStore" where
  "preset_step (CallSave b r ttl t1 t2) ps = SavePreset b r ttl t1 t2 ps"
| "preset_step (CallSuccess b) ps = MarkSuccess b ps"
| "preset_step (CallFailure b reason c t) ps = MarkFailure b reason c t ps"

lemmas preset_defs = SavePreset_def MarkSuccess_def MarkFailure_def

text \<open>
  Between calls the file holds the presets, as long as it did and writes succeed, and a preset
  is filed under its own base.
\<close>

definition presets_inv :: "PresetStore \<Rightarrow> bool" where
  "presets_inv ps \<longleftrightarrow> keys_distinct (presets ps)
     \<and> (\<forall>b p. map_of (presets ps) b = Some p \<longrightarrow> p_BaseConfigID p = b)
     \<and> (ps_writable ps \<longrightarrow> ps_file ps = JSON (presets ps))"

lemma save_presets_frame [simp]:
  "presets (save_presets ps) = presets ps"
  "ps_writable (save_presets ps) = ps_writable ps"
  by (simp_all add: save_presets_def)

lemma save_presets_inv:
  "keys_distinct (presets ps) \<Longrightarrow> (\<And>b p. map_of (presets ps) b = Some p \<Longrightarrow> p_BaseConfigID p = b)
     \<Longrightarrow> presets_inv (save_presets ps)"
  by (auto simp: presets_inv_def save_presets_def)

lemma presets_inv_put:
  assumes "presets_inv ps" and "p_BaseConfigID p = b"
  shows "presets_inv (save_presets (ps\<lparr>presets := AList.update b p (presets ps)\<rparr>))"
proof (rule save_presets_inv)
  show "keys_distinct (presets (ps\<lparr>presets := AList.update b p (presets ps)\<rparr>))"
    using assms(1) by (simp add: presets_inv_def gomap.put_ok)
next
  fix b' p'
  assume "map_of (presets (ps\<lparr>presets := AList.update b p (presets ps)\<rparr>)) b' = Some p'"
  with assms show "p_BaseConfigID p' = b'"
    by (auto simp: presets_inv_def gomap.get_put split: if_splits)
qed

lemma preset_step_inv:
  assumes "presets_inv ps"
  shows "presets_inv (preset_step c ps)"
proof -
  have base: "p_BaseConfigID p = b" if "map_of (presets ps) b = Some p" for b p
    using assms that by (simp add: presets_inv_def)
  show ?thesis
    using assms base
    by (cases c) (auto simp: preset_defs Let_def intro!: presets_inv_put split: option.split)
qed

lemma preset_step_writable [simp]: "ps_writable (preset_step c ps) = ps_writable ps"
  by (cases c) (simp_all add: preset_defs Let_def split: option.split)

text \<open>Both stores are durable: the presets as a map, the log as its list of entries.\<close>

interpretation ps: durable preset_step "\<lambda>_. True" ps_writable
    "\<lambda>ps. NewPresetStore (ps_file ps) True" presets
proof
  fix ps :: PresetStore and c
  assume "ps_writable ps" "presets (NewPresetStore (ps_file ps) True) = presets ps"
  then show "presets (NewPresetStore (ps_file (preset_step c ps)) True) = presets (preset_step c ps)"
    by (cases c) (auto simp: preset_defs save_presets_def NewPresetStore_def load_presets_def Let_def
        split: option.split)
qed simp

interpretation al: durable AddAttempt "\<lambda>_. True" al_writable
    "\<lambda>l. NewAttemptLog (al_file l) True 300" al_entries
  by unfold_locales (simp_all add: AddAttempt_file NewAttemptLog_def load_attempts_def)

lemma log_restart:
  "al_entries (NewAttemptLog (al_file (fold AddAttempt es (NewAttemptLog f True n))) True 300)
     = al_entries (fold AddAttempt es (NewAttemptLog f True n))"
  by (rule al.restart_lossless)
    (simp_all add: NewAttemptLog_def load_attempts_def list_all_iff split: json_file.split)

section \<open>Properties\<close>

text \<open>
  The attempt log is a bounded history. After any additions it holds exactly the last
  \<open>maxSize\<close> entries of what it held and what was added, a restart reads the same entries back,
  and \<open>Recent n\<close> gives its last \<open>n\<close>.
\<close>

theorem attempts_bounded:
  assumes "0 < al_maxSize l" and "es \<noteq> []" and "al_writable l"
  shows "al_entries (fold AddAttempt es l) = last_n (nat (al_maxSize l)) (al_entries l @ es)
    \<and> int (length (al_entries (fold AddAttempt es l))) \<le> al_maxSize l
    \<and> al_entries (NewAttemptLog (al_file (fold AddAttempt es l)) True 300)
        = al_entries (fold AddAttempt es l)
    \<and> (0 < n \<longrightarrow> Recent n (fold AddAttempt es l)
          = last_n (nat (min n (al_maxSize l))) (al_entries l @ es))"
proof -
  let ?m = "fold AddAttempt es l" and ?n = "nat (al_maxSize l)"
  from AddAttempts_spec [OF assms(1,2)] assms(3)
  have m: "al_entries ?m = last_n ?n (al_entries l @ es)" "al_file ?m = JSON (al_entries ?m)"
    by simp_all
  have "Recent n ?m = last_n (nat n) (al_entries ?m)" if "0 < n"
    using that by (auto simp: Recent_def last_n_def Let_def)
  moreover have "min (nat n) ?n = nat (min n (al_maxSize l))" by (simp add: min_def)
  moreover have "int (length (al_entries ?m)) \<le> al_maxSize l"
    using assms(1) by (simp add: m(1))
  ultimately show ?thesis
    by (simp add: m(1) last_n_last_n) (simp add: m NewAttemptLog_def load_attempts_def)
qed

definition demo_attempt :: "string \<Rightarrow> AttemptEntry" where
  "demo_attempt i = \<lparr>ae_Timestamp = 0, ae_ConfigID = i, ae_BaseConfigID = i, ae_VariantID = i,
     ae_ReasonCode = [], ae_BlockType = ''none'', ae_Profile = ''balanced'', ae_Stage = ''verify'',
     ae_Success = True, ae_ErrorSummary = []\<rparr>"

lemma attempts_bounded_witness:
  "al_entries (fold AddAttempt (map demo_attempt [''a'', ''b'', ''c'']) (NewAttemptLog NoFile True 2))
     = map demo_attempt [''b'', ''c'']"
  using attempts_bounded [of "NewAttemptLog NoFile True 2" "map demo_attempt [''a'', ''b'', ''c'']" 1]
  by (simp add: NewAttemptLog_def load_attempts_def last_n_def numeral_2_eq_2)

text \<open>
  The presets survive a restart. Whatever the file held when the daemon first started and
  whatever calls came since, a store read back from the file finds the same active preset for
  every base at every time.
\<close>

theorem presets_restart:
  "GetActive b now (NewPresetStore (ps_file (fold preset_step cs (NewPresetStore f True))) w)
     = GetActive b now (fold preset_step cs (NewPresetStore f True))"
proof -
  have "presets (NewPresetStore (ps_file (fold preset_step cs (NewPresetStore f True))) True)
      = presets (fold preset_step cs (NewPresetStore f True))"
    by (rule ps.restart_lossless)
      (simp_all add: NewPresetStore_def load_presets_def list_all_iff split: json_file.split)
  moreover have "presets (NewPresetStore g w) = presets (NewPresetStore g True)" for g
    by (simp add: NewPresetStore_def load_presets_def split: json_file.split)
  ultimately show ?thesis by (simp add: GetActive_def)
qed

definition demo_rec :: Recommendation where
  "demo_rec = \<lparr>rec_BaseConfigID = ''nl'', rec_Reasoning = [], rec_Confidence = 1, rec_RetryBudget = 0,
     rec_ExpiresSeconds = 0, rec_MTU = Some 1280, rec_EndpointPort = Some 443,
     rec_VLESSTransport = ''ws'', rec_VLESSFingerprint = [], rec_VLESSPath = ''cdn'', rec_AWGProfile = []\<rparr>"

definition empty_presets :: PresetStore where
  "empty_presets = \<lparr>presets = [], ps_file = JSON [], ps_writable = True\<rparr>"

lemma empty_presets_inv: "presets_inv empty_presets"
  by (simp add: presets_inv_def empty_presets_def)

text \<open>
  The life of a preset. Saved at \<open>t\<close> with a lifetime, it is active until the lifetime has
  passed; a failure at \<open>u\<close> with a cooldown takes it out until the cooldown has passed. Neither
  touches the preset of another base.
\<close>

theorem preset_lifecycle:
  assumes "0 < ttl" and "0 < cooldown" and "0 < u"
  shows "(GetActive b now (SavePreset b r ttl t0 t ps) \<noteq> None \<longleftrightarrow> now \<le> t + ttl)
    \<and> (GetActive b now (MarkFailure b reason cooldown u (SavePreset b r ttl t0 t ps)) \<noteq> None
        \<longleftrightarrow> now \<le> t + ttl \<and> u + cooldown \<le> now)
    \<and> (b' \<noteq> b
        \<longrightarrow> GetActive b' now (MarkFailure b reason cooldown u (SavePreset b r ttl t0 t ps))
          = GetActive b' now ps)"
  using assms
  by (auto simp: GetActive_def SavePreset_def MarkFailure_def Let_def gomap.get_put IsZero_def)

lemma preset_lifecycle_witness:
  "GetActive ''nl'' 20 (MarkFailure ''nl'' ''ai_probe_failed'' 50 15
       (SavePreset ''nl'' demo_rec 100 10 10 empty_presets)) = None"
  using preset_lifecycle [of 100 50 15 "''nl''" 20 demo_rec 10 10 empty_presets "''ai_probe_failed''"]
  by simp

end
