(* ===== verification/Ai_Advisor.thy ===== *)
theory Ai_Advisor
  imports Ai_Stores Dpi_Variants
begin

text \<open>
  The advisor of \<open>daemon/internal/aiadvisor\<close>: which recommendations are acceptable and the
  variant one gives (\<open>policy.go\<close>, \<open>netutil.go\<close>), the provider (\<open>provider.go\<close>), and the manager
  that asks it under an hourly limit (\<open>manager.go\<close>). The HTTP exchange and the decoding of its
  body are the parameter \<open>advisor_env\<close>.
\<close>

section \<open>Endpoints\<close>

definition splitHostPortCompat :: "string \<Rightarrow> string \<times> int \<times> bool" where
  "splitHostPortCompat endpoint =
     (let finish = (\<lambda>h p. let (portNum, err) = Atoi (TrimSpace p)
                          in if err \<or> portNum \<le> 0 \<or> 65535 < portNum then ([], 0, False)
                             else (h, portNum, True))
      in case SplitHostPort endpoint of
           Some (h, p) \<Rightarrow> finish h p
         | None \<Rightarrow>
             (let idx = LastIndexByte endpoint (CHR '':'')
              in if idx \<le> 0 \<or> int (length endpoint) \<le> idx + 1 then ([], 0, False)
                 else finish (upto_index idx endpoint) (from_index (idx + 1) endpoint)))"

definition joinHostPortCompat :: "string \<Rightarrow> int \<Rightarrow> string" where
  "joinHostPortCompat host port = JoinHostPort host (Itoa port)"

section \<open>Checking a recommendation\<close>

text \<open>\<open>%.2f\<close> of a number.\<close>

definition fixed2 :: "float64 \<Rightarrow> string" where
  "fixed2 x =
     (let n = rne (\<bar>x\<bar> * 100)
      in (if x < 0 then ''-'' else []) @ Itoa (n div 100) @ ''.''
           @ Itoa (n div 10 mod 10) @ Itoa (n mod 10))"

definition ValidateRecommendation :: "Recommendation \<Rightarrow> float64 \<Rightarrow> unit res" where
  "ValidateRecommendation r minConfidence =
     (if rec_BaseConfigID r = [] then Inl ''missing base_config_id''
      else if rec_Confidence r < minConfidence
      then Inl (''confidence '' @ fixed2 (rec_Confidence r) @ '' below minimum '' @ fixed2 minConfidence)
      else if (case rec_MTU r of None \<Rightarrow> False | Some m \<Rightarrow> m < 1200 \<or> 1420 < m)
      then Inl ''mtu out of safe range''
      else if (case rec_EndpointPort r of None \<Rightarrow> False | Some p \<Rightarrow> p < 1 \<or> 65535 < p)
      then Inl ''endpoint port out of range''
      else if rec_VLESSTransport r \<noteq> []
              \<and> rec_VLESSTransport r \<notin> {''tcp'', ''ws'', ''grpc'', ''httpupgrade''}
      then Inl ''unsupported vless transport''
      else if rec_VLESSPath r \<noteq> [] \<and> 64 < length (rec_VLESSPath r) then Inl ''vless path too long''
      else if rec_AWGProfile r \<noteq> [] \<and> rec_AWGProfile r \<notin> {''mild'', ''moderate'', ''aggressive''}
      then Inl ''unsupported awg profile''
      else Inr ())"

section \<open>The variant of a recommendation\<close>

definition applyAWGProfile :: "string \<Rightarrow> AmneziaWGConfig \<Rightarrow> AmneziaWGConfig" where
  "applyAWGProfile profile awg =
     (if profile = ''mild''
      then awg\<lparr>JunkPacketCount := 2, JunkPacketMinSize := 20, JunkPacketMaxSize := 50\<rparr>
      else if profile = ''moderate''
      then awg\<lparr>JunkPacketCount := 4, JunkPacketMinSize := 40, JunkPacketMaxSize := 70\<rparr>
      else if profile = ''aggressive''
      then awg\<lparr>JunkPacketCount := 7, JunkPacketMinSize := 50, JunkPacketMaxSize := 100\<rparr>
      else awg)"

definition with_port :: "int option \<Rightarrow> string \<Rightarrow> string" where
  "with_port port endpoint = (case port of
       None \<Rightarrow> endpoint
     | Some p \<Rightarrow> (case splitHostPortCompat endpoint of
         (h, _, ok) \<Rightarrow> if ok then joinHostPortCompat h p else endpoint))"

definition recommended_vless :: "Recommendation \<Rightarrow> VLESSConfig \<Rightarrow> VLESSConfig" where
  "recommended_vless r vl =
     (let vl = (case rec_EndpointPort r of None \<Rightarrow> vl | Some p \<Rightarrow> vl\<lparr>Port := p\<rparr>);
          vl = (if rec_VLESSTransport r \<noteq> [] then vl\<lparr>Transport := rec_VLESSTransport r\<rparr> else vl);
          vl = (if rec_VLESSFingerprint r \<noteq> [] then vl\<lparr>Fingerprint := rec_VLESSFingerprint r\<rparr> else vl)
      in if rec_VLESSPath r = [] then vl
         else if Transport vl = ''grpc'' then vl\<lparr>TransportPath := TrimPrefix (rec_VLESSPath r) ''/''\<rparr>
         else if HasPrefix (rec_VLESSPath r) ''/'' then vl\<lparr>TransportPath := rec_VLESSPath r\<rparr>
         else vl\<lparr>TransportPath := ''/'' @ rec_VLESSPath r\<rparr>)"

definition BuildVariantFromRecommendation ::
    "TunnelConfig option \<Rightarrow> Recommendation \<Rightarrow> TunnelConfig res" where
  "BuildVariantFromRecommendation basep r = (case basep of
       None \<Rightarrow> Inl ''base config is nil''
     | Some base \<Rightarrow>
         let v = base\<lparr>IsVariant := True, BaseConfigID := ID base, ID := ID base @ '':dpi:ai''\<rparr>;
             v = (case rec_MTU r of None \<Rightarrow> v | Some m \<Rightarrow> v\<lparr>MTU := m\<rparr>)
         in case Protocol base of
              ProtocolWireGuard \<Rightarrow> (case WireGuard base of
                  None \<Rightarrow> Inl ''wg config missing''
                | Some wg \<Rightarrow>
                    Inr (v\<lparr>WireGuard := Some (wg\<lparr>Endpoint := with_port (rec_EndpointPort r) (Endpoint wg)\<rparr>)\<rparr>))
            | ProtocolAmneziaWG \<Rightarrow> (case AmneziaWG base of
                  None \<Rightarrow> Inl ''awg config missing''
                | Some awg \<Rightarrow>
                    Inr (v\<lparr>AmneziaWG := Some (applyAWGProfile (rec_AWGProfile r)
                      (awg\<lparr>Endpoint := with_port (rec_EndpointPort r) (Endpoint awg)\<rparr>))\<rparr>))
            | ProtocolVLESS \<Rightarrow> (case VLESS base of
                  None \<Rightarrow> Inl ''vless config missing''
                | Some vl \<Rightarrow> Inr (v\<lparr>VLESS := Some (recommended_vless r vl)\<rparr>))
            | OtherProtocol p \<Rightarrow> Inr v)"

section \<open>The provider\<close>

record AnalyzeInput =
  in_Detected :: DetectionResult
  in_RecentAttempts :: "AttemptEntry list"
  in_BaseConfigs :: "TunnelConfig list"

datatype Provider = disabledProvider | httpJSONProvider string string duration

text \<open>
  The world outside: the key file, a POST to the endpoint with the key, answered by an error or
  a status code and a body, and the JSON decoder.
\<close>

record advisor_env =
  ReadKeyFile :: "string \<Rightarrow> string option"
  HTTPPost :: "string \<Rightarrow> string \<Rightarrow> AnalyzeInput \<Rightarrow> string + int \<times> string"
  DecodeRecommendation :: "string \<Rightarrow> Recommendation res"

definition NewProvider :: "advisor_env \<Rightarrow> AIAdvisorConfig \<Rightarrow> Provider" where
  "NewProvider env cfg =
     (if \<not> ai_Enabled cfg \<or> ai_Provider cfg = [] \<or> ai_Provider cfg = ''disabled''
      then disabledProvider
      else if ai_Provider cfg = ''http_json'' then
        (let apiKey = (if ai_APIKeyFile cfg \<noteq> []
                       then (case ReadKeyFile env (ai_APIKeyFile cfg) of
                               None \<Rightarrow> [] | Some b \<Rightarrow> TrimSpace b)
                       else []);
             timeout = (if ai_Timeout cfg \<le> 0 then 8 * second else ai_Timeout cfg)
         in httpJSONProvider (ai_Endpoint cfg) apiKey timeout)
      else disabledProvider)"

fun Analyze :: "advisor_env \<Rightarrow> Provider \<Rightarrow> AnalyzeInput \<Rightarrow> Recommendation res" where
  "Analyze env disabledProvider inp = Inl ''ai advisor disabled''"
| "Analyze env (httpJSONProvider endpoint apiKey timeout) inp =
     (case HTTPPost env endpoint apiKey inp of
        Inl err \<Rightarrow> Inl err
      | Inr (status, body) \<Rightarrow>
          if status < 200 \<or> 300 \<le> status
          then Inl (''advisor HTTP '' @ Itoa status @ '': '' @ TrimSpace (upto_index 1024 body))
          else DecodeRecommendation env (upto_index (64 * 1024) body))"

section \<open>The manager\<close>

record AIStatus =
  st_Enabled :: bool
  st_Provider :: string
  st_LastCallAt :: gotime
  st_LastStatus :: string
  st_LastRejectReason :: string
  st_CallsRemainingHour :: int

record AIManager =
  m_cfg :: AIAdvisorConfig
  m_provider :: Provider
  m_attempts :: AttemptLog
  m_presets :: PresetStore
  windowStart :: gotime
  callsInWindow :: int
  m_status :: AIStatus

definition NewManager ::
    "advisor_env \<Rightarrow> gotime \<Rightarrow> AttemptLog \<Rightarrow> PresetStore \<Rightarrow> DaemonConfig \<Rightarrow> AIManager" where
  "NewManager env now attempts ps cfg =
     \<lparr>m_cfg = AIAdvisor cfg, m_provider = NewProvider env (AIAdvisor cfg),
      m_attempts = attempts, m_presets = ps, windowStart = now, callsInWindow = 0,
      m_status = \<lparr>st_Enabled = ai_Enabled (AIAdvisor cfg), st_Provider = ai_Provider (AIAdvisor cfg),
        st_LastCallAt = 0, st_LastStatus = [], st_LastRejectReason = [],
        st_CallsRemainingHour = ai_MaxCallsPerHour (AIAdvisor cfg)\<rparr>\<rparr>"

definition ai_enabled :: "AIManager \<Rightarrow> bool" where
  "ai_enabled m \<longleftrightarrow> ai_Enabled (m_cfg m) \<and> ai_Provider (m_cfg m) \<noteq> ''disabled''"

definition ManagerStatus :: "AIManager \<Rightarrow> AIStatus" where
  "ManagerStatus m =
     (if 0 < ai_MaxCallsPerHour (m_cfg m)
      then (m_status m)\<lparr>st_CallsRemainingHour := max 0 (ai_MaxCallsPerHour (m_cfg m) - callsInWindow m)\<rparr>
      else m_status m)"

definition setStatus :: "string \<Rightarrow> string \<Rightarrow> AIManager \<Rightarrow> AIManager" where
  "setStatus status reject m =
     m\<lparr>m_status := (m_status m)\<lparr>st_LastStatus := status, st_LastRejectReason := reject\<rparr>\<rparr>"

definition acquireToken :: "gotime \<Rightarrow> AIManager \<Rightarrow> bool \<times> AIManager" where
  "acquireToken now m =
     (if ai_MaxCallsPerHour (m_cfg m) \<le> 0 then (True, m)
      else let m = (if hour \<le> time_sub now (windowStart m)
                    then m\<lparr>windowStart := now, callsInWindow := 0\<rparr> else m)
           in if ai_MaxCallsPerHour (m_cfg m) \<le> callsInWindow m then (False, m)
              else (True, m\<lparr>callsInWindow := callsInWindow m + 1\<rparr>))"

definition findBaseConfig :: "TunnelConfig list \<Rightarrow> string \<Rightarrow> TunnelConfig option" where
  "findBaseConfig c i = find (\<lambda>x. ID x = i) c"

text \<open>\<open>%q\<close> of a printable ASCII string.\<close>

definition quote :: "string \<Rightarrow> string" where
  "quote s =
     [CHR 0x22]
     @ concat (map (\<lambda>c. if c = CHR 0x22 \<or> c = CHR 0x5C then [CHR 0x5C, c] else [c]) s)
     @ [CHR 0x22]"

text \<open>\<open>Recommend\<close> reads the clock when it asks for the token and after the provider has answered.\<close>

definition Recommend ::
    "advisor_env \<Rightarrow> gotime \<Rightarrow> gotime \<Rightarrow> DetectionResult \<Rightarrow> TunnelConfig list \<Rightarrow> AIManager
      \<Rightarrow> (TunnelConfig \<times> Recommendation) res \<times> AIManager" where
  "Recommend env now now2 detected base m =
     (if \<not> ai_enabled m then (Inl ''disabled'', m)
      else case acquireToken now m of
        (False, m) \<Rightarrow> (Inl ''rate limited'', setStatus ''rate_limited'' ''hourly_call_limit'' m)
      | (True, m) \<Rightarrow>
          let inp = \<lparr>in_Detected = detected, in_RecentAttempts = Recent 100 (m_attempts m),
                in_BaseConfigs = base\<rparr>;
              ans = Analyze env (m_provider m) inp;
              m = m\<lparr>m_status := (m_status m)\<lparr>st_LastCallAt := now2\<rparr>\<rparr>
          in case ans of
               Inl err \<Rightarrow> (Inl err, setStatus ''provider_error'' err m)
             | Inr r \<Rightarrow>
                 (case ValidateRecommendation r (ai_MinConfidence (m_cfg m)) of
                    Inl err \<Rightarrow> (Inl err, setStatus ''rejected'' err m)
                  | Inr _ \<Rightarrow>
                      (case findBaseConfig base (rec_BaseConfigID r) of
                         None \<Rightarrow>
                           let err = ''unknown base config id '' @ quote (rec_BaseConfigID r)
                           in (Inl err, setStatus ''rejected'' err m)
                       | Some b \<Rightarrow>
                           (case BuildVariantFromRecommendation (Some b) r of
                              Inl err \<Rightarrow> (Inl err, setStatus ''rejected'' err m)
                            | Inr v \<Rightarrow> (Inr (v, r), setStatus ''ok'' [] m)))))"

section \<open>Lemmas\<close>

text \<open>The two copies of the endpoint splitter in the code agree.\<close>

lemma splitHostPortCompat_eq: "splitHostPortCompat endpoint = splitEndpointHostPort endpoint"
  by (auto simp: splitHostPortCompat_def splitEndpointHostPort_def Let_def split: option.split)

lemma joinHostPortCompat_eq: "joinHostPortCompat = joinEndpointHostPort"
  by (simp add: fun_eq_iff joinHostPortCompat_def joinEndpointHostPort_def)

lemma recommended_vless_frame [simp]: "vless_identity (recommended_vless r vl) = vless_identity vl"
  by (simp add: recommended_vless_def vless_identity_def Let_def split: option.split)

lemma recommended_vless_port:
  "Port (recommended_vless r vl) = (case rec_EndpointPort r of None \<Rightarrow> Port vl | Some p \<Rightarrow> p)"
  by (simp add: recommended_vless_def Let_def split: option.split)

lemma applyAWGProfile_identity [simp]: "wg_identity (applyAWGProfile profile awg) = wg_identity awg"
  by (simp add: applyAWGProfile_def wg_identity_def)

lemma ValidateRecommendation_ok:
  "ValidateRecommendation r minConfidence = Inr () \<longleftrightarrow>
     rec_BaseConfigID r \<noteq> [] \<and> minConfidence \<le> rec_Confidence r
     \<and> (\<forall>m. rec_MTU r = Some m \<longrightarrow> 1200 \<le> m \<and> m \<le> 1420)
     \<and> (\<forall>p. rec_EndpointPort r = Some p \<longrightarrow> 1 \<le> p \<and> p \<le> 65535)
     \<and> rec_VLESSTransport r \<in> {[], ''tcp'', ''ws'', ''grpc'', ''httpupgrade''}
     \<and> length (rec_VLESSPath r) \<le> 64
     \<and> rec_AWGProfile r \<in> {[], ''mild'', ''moderate'', ''aggressive''}"
  unfolding ValidateRecommendation_def
  by (cases "rec_MTU r"; cases "rec_EndpointPort r") (auto simp: not_le not_less)

lemma BuildVariant_cases:
  assumes "BuildVariantFromRecommendation (Some b) r = Inr v"
  shows "variant_of b v \<and> ID v = ID b @ '':dpi:ai'' \<and> same_identity b v
    \<and> MTU v = (case rec_MTU r of None \<Rightarrow> MTU b | Some m \<Rightarrow> m)
    \<and> VLESS v = (if Protocol b = ProtocolVLESS then map_option (recommended_vless r) (VLESS b) else VLESS b)"
  using assms
  by (cases "Protocol b"; cases "rec_MTU r")
    (auto simp: BuildVariantFromRecommendation_def Let_def variant_of_def HasPrefix_iff
      same_identity_def split: option.splits)

text \<open>What a recommendation has passed when the manager hands out its variant.\<close>

lemma Recommend_facts:
  assumes "fst (Recommend env now now2 detected base m) = Inr (v, r)"
  shows "ai_enabled m \<and> fst (acquireToken now m)
    \<and> ValidateRecommendation r (ai_MinConfidence (m_cfg m)) = Inr ()
    \<and> (\<exists>b\<in>set base. ID b = rec_BaseConfigID r \<and> BuildVariantFromRecommendation (Some b) r = Inr v)
    \<and> st_LastStatus (m_status (snd (Recommend env now now2 detected base m))) = ''ok''"
proof -
  obtain ok m' where t: "acquireToken now m = (ok, m')" by (cases "acquireToken now m")
  then have cfg: "m_cfg m' = m_cfg m"
    by (auto simp: acquireToken_def Let_def split: if_splits)
  have base: "\<exists>b\<in>set base. ID b = i \<and> findBaseConfig base i = Some b"
    if "findBaseConfig base i \<noteq> None" for i
    using that by (auto simp: findBaseConfig_def find_Some_iff dest: nth_mem)
  show ?thesis
    using assms t cfg base [of "rec_BaseConfigID r"]
    by (auto simp: Recommend_def Let_def setStatus_def split: if_splits bool.splits sum.splits option.splits)
qed

lemma Recommend_attempts [simp]:
  "m_attempts (snd (Recommend env now now2 detected base m)) = m_attempts m"
  by (simp add: Recommend_def acquireToken_def setStatus_def Let_def
      split: bool.split sum.split option.split)

section \<open>The hourly limit\<close>

text \<open>The times at which a sequence of requests is granted a call.\<close>

fun granted :: "AIManager \<Rightarrow> gotime list \<Rightarrow> gotime list" where
  "granted m [] = []"
| "granted m (t # ts) =
     (case acquireToken t m of (ok, m') \<Rightarrow> (if ok then [t] else []) @ granted m' ts)"

definition calls_in_hour :: "gotime \<Rightarrow> gotime list \<Rightarrow> int" where
  "calls_in_hour T ts = int (length (filter (\<lambda>t. T \<le> t \<and> t < T + hour) ts))"

abbreviation quota :: "AIManager \<Rightarrow> int" where
  "quota m \<equiv> ai_MaxCallsPerHour (m_cfg m)"

lemma acquireToken_fields:
  assumes "0 < quota m"
  shows "m_cfg (snd (acquireToken t m)) = m_cfg m"
    and "windowStart (snd (acquireToken t m))
      = (if windowStart m + hour \<le> t then t else windowStart m)"
    and "callsInWindow (snd (acquireToken t m))
      = (if windowStart m + hour \<le> t then 1
         else if callsInWindow m < quota m then callsInWindow m + 1 else callsInWindow m)"
    and "fst (acquireToken t m) \<longleftrightarrow> windowStart m + hour \<le> t \<or> callsInWindow m < quota m"
proof -
  have "hour \<le> time_sub t (windowStart m) \<longleftrightarrow> windowStart m + hour \<le> t"
    using time_sub_less [of hour t "windowStart m"] by (auto simp: unit_defs not_less [symmetric])
  then show "m_cfg (snd (acquireToken t m)) = m_cfg m"
    and "windowStart (snd (acquireToken t m))
      = (if windowStart m + hour \<le> t then t else windowStart m)"
    and "callsInWindow (snd (acquireToken t m))
      = (if windowStart m + hour \<le> t then 1
         else if callsInWindow m < quota m then callsInWindow m + 1 else callsInWindow m)"
    and "fst (acquireToken t m) \<longleftrightarrow> windowStart m + hour \<le> t \<or> callsInWindow m < quota m"
    using assms by (auto simp: acquireToken_def Let_def)
qed

lemma granted_Cons:
  "granted m (t # ts) = (if fst (acquireToken t m) then [t] else []) @ granted (snd (acquireToken t m)) ts"
  by (simp add: case_prod_beta)

declare granted.simps(2) [simp del]

lemma granted_subset: "set (granted m ts) \<subseteq> set ts"
  by (induction ts arbitrary: m) (fastforce simp: granted_Cons)+

lemma calls_in_hour_simps [simp]:
  "calls_in_hour T [] = 0"
  "calls_in_hour T (xs @ ys) = calls_in_hour T xs + calls_in_hour T ys"
  "calls_in_hour T (t # ts) = (if T \<le> t \<and> t < T + hour then 1 else 0) + calls_in_hour T ts"
  by (simp_all add: calls_in_hour_def)

lemma calls_in_hour_later:
  assumes "\<And>t. t \<in> set ts \<Longrightarrow> T + hour \<le> t"
  shows "calls_in_hour T (granted m ts) = 0"
proof -
  have "filter (\<lambda>t. T \<le> t \<and> t < T + hour) (granted m ts) = []"
    using granted_subset [of m ts] assms by (force simp: filter_empty_conv)
  then show ?thesis by (simp add: calls_in_hour_def)
qed

text \<open>
  How many calls an hour that starts at \<open>T\<close> can still see, by where the current window began:
  inside the hour, what is left of its quota; before it, that and one more quota.
\<close>

lemma granted_this_window:
  assumes "0 < quota m" and "callsInWindow m \<le> quota m" and "T \<le> windowStart m" and "sorted ts"
  shows "calls_in_hour T (granted m ts) \<le> quota m - callsInWindow m"
  using assms
proof (induction ts arbitrary: m)
  case (Cons t ts)
  note f = acquireToken_fields [OF Cons.prems(1), of t]
  let ?m = "snd (acquireToken t m)"
  show ?case
  proof (cases "windowStart m + hour \<le> t")
    case True
    with Cons.prems have "\<And>u. u \<in> set (t # ts) \<Longrightarrow> T + hour \<le> u" by force
    then have "calls_in_hour T (granted m (t # ts)) = 0" by (rule calls_in_hour_later)
    with Cons.prems(2) show ?thesis by simp
  next
    case False
    with Cons.prems f have "0 < quota ?m" "callsInWindow ?m \<le> quota ?m" "T \<le> windowStart ?m"
        "sorted ts" by auto
    then have "calls_in_hour T (granted ?m ts) \<le> quota ?m - callsInWindow ?m" by (rule Cons.IH)
    with False f Cons.prems show ?thesis by (auto simp: granted_Cons split: if_splits)
  qed
qed simp

lemma granted_from_hour_start:
  assumes "0 < quota m" and "0 \<le> callsInWindow m" and "callsInWindow m \<le> quota m"
    and "sorted ts" and "\<And>t. t \<in> set ts \<Longrightarrow> T \<le> t"
  shows "calls_in_hour T (granted m ts) \<le> 2 * quota m - callsInWindow m"
  using assms
proof (induction ts arbitrary: m)
  case (Cons t ts)
  note f = acquireToken_fields [OF Cons.prems(1), of t]
  let ?m = "snd (acquireToken t m)"
  have m: "0 < quota ?m" "0 \<le> callsInWindow ?m" "callsInWindow ?m \<le> quota ?m" "sorted ts"
      "\<And>t. t \<in> set ts \<Longrightarrow> T \<le> t"
    using Cons.prems f by auto
  show ?case
  proof (cases "windowStart m + hour \<le> t")
    case True
    with f Cons.prems(5) [of t] have "T \<le> windowStart ?m" by simp
    from granted_this_window [OF m(1,3) this m(4)] True f Cons.prems(3) show ?thesis
      by (simp add: granted_Cons)
  next
    case False
    with Cons.IH [OF m] f Cons.prems show ?thesis by (auto simp: granted_Cons split: if_splits)
  qed
qed simp

lemma granted_any:
  assumes "0 < quota m" and "0 \<le> callsInWindow m" and "callsInWindow m \<le> quota m" and "sorted ts"
  shows "calls_in_hour T (granted m ts) \<le> 2 * quota m"
  using assms
proof (induction ts arbitrary: m)
  case (Cons t ts)
  note f = acquireToken_fields [OF Cons.prems(1), of t]
  let ?m = "snd (acquireToken t m)"
  show ?case
  proof (cases "T \<le> t")
    case True
    with Cons.prems(4) have "\<And>u. u \<in> set (t # ts) \<Longrightarrow> T \<le> u" by force
    from granted_from_hour_start [OF Cons.prems this] Cons.prems(2) show ?thesis by simp
  next
    case False
    from Cons.prems f have "0 < quota ?m" "0 \<le> callsInWindow ?m" "callsInWindow ?m \<le> quota ?m"
        "sorted ts" by auto
    from Cons.IH [OF this] False f show ?thesis by (simp add: granted_Cons)
  qed
qed simp

section \<open>Properties\<close>

text \<open>
  The two copies of the endpoint code agree: the advisor splits and joins endpoints exactly
  as the variant generator does, on every string.
\<close>

theorem endpoint_copies_agree:
  "splitHostPortCompat = splitEndpointHostPort \<and> joinHostPortCompat = joinEndpointHostPort"
  by (simp add: fun_eq_iff splitHostPortCompat_eq joinHostPortCompat_eq)


definition demo_manager :: AIManager where
  "demo_manager = NewManager \<lparr>ReadKeyFile = (\<lambda>p. None), HTTPPost = (\<lambda>e k i. Inl ''down''),
       DecodeRecommendation = (\<lambda>b. Inl ''bad json'')\<rparr> 0
     (NewAttemptLog NoFile True 300) empty_presets
     (DefaultDaemonConfig\<lparr>AIAdvisor := (AIAdvisor DefaultDaemonConfig)
        \<lparr>ai_Enabled := True, ai_Provider := ''http_json'', ai_MaxCallsPerHour := 1\<rparr>\<rparr>)"


text \<open>
  C24: the recommended variant. An accepted recommendation gives a marked variant of its base
  with the same peers and credentials; its MTU is the base's or between 1200 and 1420, and the
  port of a VLESS server the base's or a valid one.
\<close>

theorem recommended_variant_safe:
  assumes "ValidateRecommendation r minConfidence = Inr ()"
    and "BuildVariantFromRecommendation (Some b) r = Inr v"
  shows "variant_of b v \<and> same_identity b v
    \<and> (MTU v = MTU b \<or> 1200 \<le> MTU v \<and> MTU v \<le> 1420)
    \<and> (VLESS b = Some vb \<and> VLESS v = Some vv
        \<longrightarrow> Port vv = Port vb \<or> 1 \<le> Port vv \<and> Port vv \<le> 65535)"
proof -
  note ok = assms(1) [unfolded ValidateRecommendation_ok]
  note v = BuildVariant_cases [OF assms(2)]
  from v ok have "MTU v = MTU b \<or> 1200 \<le> MTU v \<and> MTU v \<le> 1420"
    by (cases "rec_MTU r") auto
  moreover have "Port vv = Port vb \<or> 1 \<le> Port vv \<and> Port vv \<le> 65535"
    if "VLESS b = Some vb" "VLESS v = Some vv"
    using that v ok
    by (cases "rec_EndpointPort r") (auto simp: recommended_vless_port split: if_splits)
  ultimately show ?thesis using v by blast
qed

definition nl_vless :: TunnelConfig where
  "nl_vless = zero_tc\<lparr>ID := ''nl'', Protocol := ProtocolVLESS, VLESS := Some (zero_vless\<lparr>Port := 8443\<rparr>)\<rparr>"

lemma demo_rec_valid: "ValidateRecommendation demo_rec (1/2) = Inr ()"
  by (simp add: ValidateRecommendation_ok demo_rec_def)

lemma demo_rec_builds:
  "BuildVariantFromRecommendation (Some nl_vless) demo_rec
     = Inr (nl_vless\<lparr>ID := ''nl:dpi:ai'', IsVariant := True, BaseConfigID := ''nl'', MTU := 1280,
         VLESS := Some (zero_vless\<lparr>Port := 443, Transport := ''ws'', TransportPath := ''/cdn''\<rparr>)\<rparr>)"
  by (simp add: BuildVariantFromRecommendation_def nl_vless_def demo_rec_def recommended_vless_def
      HasPrefix_def zero_vless_def Let_def)

lemma recommended_variant_safe_witness:
  "variant_of nl_vless (nl_vless\<lparr>ID := ''nl:dpi:ai'', IsVariant := True, BaseConfigID := ''nl'', MTU := 1280,
         VLESS := Some (zero_vless\<lparr>Port := 443, Transport := ''ws'', TransportPath := ''/cdn''\<rparr>)\<rparr>)"
  using recommended_variant_safe [OF demo_rec_valid demo_rec_builds] by blast

text \<open>
  C18: what a recommendation has passed. The advisor gives a variant only when it is enabled,
  the limit grants the call and the provider answers; the recommendation is then valid, names a
  base among those offered, and the variant is the one built from them.
\<close>

theorem Recommend_checked:
  assumes "fst (Recommend env now now2 detected base m) = Inr (v, r)"
  shows "ai_enabled m \<and> fst (acquireToken now m)
    \<and> ValidateRecommendation r (ai_MinConfidence (m_cfg m)) = Inr ()
    \<and> (\<exists>b\<in>set base. ID b = rec_BaseConfigID r \<and> BuildVariantFromRecommendation (Some b) r = Inr v)
    \<and> st_LastStatus (m_status (snd (Recommend env now now2 detected base m))) = ''ok''"
  by (rule Recommend_facts [OF assms])

definition answering_env :: advisor_env where
  "answering_env = \<lparr>ReadKeyFile = (\<lambda>p. None), HTTPPost = (\<lambda>e k i. Inr (200, ''{}'')),
     DecodeRecommendation = (\<lambda>b. Inr demo_rec)\<rparr>"

definition answering_manager :: AIManager where
  "answering_manager = NewManager answering_env 0 (NewAttemptLog NoFile True 300) empty_presets
     (DefaultDaemonConfig\<lparr>AIAdvisor := (AIAdvisor DefaultDaemonConfig)
        \<lparr>ai_Enabled := True, ai_Provider := ''http_json'', ai_MaxCallsPerHour := 1,
         ai_MinConfidence := 1 / 2\<rparr>\<rparr>)"

lemma Recommend_checked_witness:
  "ai_enabled answering_manager
   \<and> st_LastStatus (m_status (snd (Recommend answering_env 1 2 zero_detection [nl_vless] answering_manager)))
      = ''ok''"
proof -
  have "fst (Recommend answering_env 1 2 zero_detection [nl_vless] answering_manager)
      = Inr (nl_vless\<lparr>ID := ''nl:dpi:ai'', IsVariant := True, BaseConfigID := ''nl'', MTU := 1280,
         VLESS := Some (zero_vless\<lparr>Port := 443, Transport := ''ws'', TransportPath := ''/cdn''\<rparr>)\<rparr>, demo_rec)"
    using demo_rec_valid demo_rec_builds
    by (simp add: Recommend_def ai_enabled_def answering_manager_def NewManager_def NewProvider_def
        acquireToken_def answering_env_def Let_def findBaseConfig_def unit_defs time_sub_def)
      (simp add: nl_vless_def demo_rec_def)
  from Recommend_checked [OF this] show ?thesis by blast
qed

end
