(* ===== verification/Switch_Engine.thy ===== *)
theory Switch_Engine
  imports Config_Store Tunnel_Managers Policy_Manager Ai_Advisor Strategy_Select Dpi_Learned
    Scoring_DB State_Machine
begin

text \<open>
  The switch engine of \<open>daemon/internal/switch/switch.go\<close>, which ties the other components
  together: it builds the pool of candidates, probes them, ranks those that work and applies
  them in turn. \<open>SwState\<close> is what it shares with the rest of the daemon; \<open>sw_env\<close> is the world
  around it: the system, the resolver, the advisor, the network at each round of probes, how long
  a round or an advice takes, and the random draws.

  \<open>parallelProbe\<close> runs one goroutine per candidate. They share the system and the map of
  sing-box processes, whose entries are filed under the candidate's id. The model runs them one
  after the other: the system's answers are arbitrary functions of everything asked before, so
  every answer a goroutine can get while others run is also one it can get here. \<open>Parallel_Probe\<close>
  treats the interleavings themselves.
\<close>

section \<open>State and environment\<close>

record Engine =
  en_cfg :: DaemonConfig
  en_policy :: PolicyManager

record SwState =
  sw_db :: scoreDB
  sw_machine :: Machine
  sw_learned :: LearnedDB
  sw_ai :: AIManager
  sw_world :: "conf_file world"

record sw_env =
  env_os :: tunnel_os
  env_policy :: policy_env
  env_advisor :: advisor_env
  env_net :: "conf_file oslog \<Rightarrow> string \<Rightarrow> nat list \<times> ProbeErrType list \<times> net_env"
  env_wait :: "conf_file oslog \<Rightarrow> nat"
  env_draws :: "nat \<Rightarrow> nat \<Rightarrow> int"

type_synonym 'a sw = "(SwState, 'a) state"

definition on_world :: "'a tunnel_io \<Rightarrow> 'a sw" where
  "on_world m = State (\<lambda>s. case run_state m (sw_world s) of (a, w) \<Rightarrow> (a, s\<lparr>sw_world := w\<rparr>))"

definition on_machine :: "(Machine \<Rightarrow> Machine) \<Rightarrow> unit sw" where
  "on_machine f = State (\<lambda>s. ((), s\<lparr>sw_machine := f (sw_machine s)\<rparr>))"

definition on_db :: "(scoreDB \<Rightarrow> scoreDB) \<Rightarrow> unit sw" where
  "on_db f = State (\<lambda>s. ((), s\<lparr>sw_db := f (sw_db s)\<rparr>))"

definition on_learned :: "(LearnedDB \<Rightarrow> LearnedDB) \<Rightarrow> unit sw" where
  "on_learned f = State (\<lambda>s. ((), s\<lparr>sw_learned := f (sw_learned s)\<rparr>))"

definition on_ai :: "(AIManager \<Rightarrow> AIManager) \<Rightarrow> unit sw" where
  "on_ai f = State (\<lambda>s. ((), s\<lparr>sw_ai := f (sw_ai s)\<rparr>))"

definition on_presets :: "(PresetStore \<Rightarrow> PresetStore) \<Rightarrow> unit sw" where
  "on_presets f = on_ai (\<lambda>m. m\<lparr>m_presets := f (m_presets m)\<rparr>)"

definition sw_now :: "gotime sw" where
  "sw_now = State (\<lambda>s. (clock (sw_world s), s))"

lemma run_on [simp]:
  "run_state (on_world m) s = (result m (sw_world s), s\<lparr>sw_world := final m (sw_world s)\<rparr>)"
  "run_state (on_machine f) s = ((), s\<lparr>sw_machine := f (sw_machine s)\<rparr>)"
  "run_state (on_db g) s = ((), s\<lparr>sw_db := g (sw_db s)\<rparr>)"
  "run_state (on_learned k) s = ((), s\<lparr>sw_learned := k (sw_learned s)\<rparr>)"
  "run_state (on_ai a) s = ((), s\<lparr>sw_ai := a (sw_ai s)\<rparr>)"
  "run_state sw_now s = (clock (sw_world s), s)"
  by (simp_all add: on_world_def on_machine_def on_db_def on_learned_def on_ai_def sw_now_def
      case_prod_beta)

definition probe_round ::
    "sw_env \<Rightarrow> DaemonConfig \<Rightarrow> string \<Rightarrow> 32 word \<Rightarrow> AggResult outcome tunnel_io" where
  "probe_round env cfg who fwmark = State (\<lambda>w.
     case env_net env (calls w) who of
       (perm, order, net) \<Rightarrow>
         (ProbeAll perm order net cfg fwmark, w\<lparr>clock := clock w + int (env_wait env (calls w))\<rparr>))"

section \<open>The pool of candidates\<close>

definition filterVariantsByProfile ::
    "DaemonConfig \<Rightarrow> TunnelConfig list \<Rightarrow> BlockType \<Rightarrow> string \<Rightarrow> float64 \<Rightarrow> TunnelConfig list" where
  "filterVariantsByProfile cfg variants hint reason confidence =
     (if variants = [] then variants
      else let profile = (if DPIProfile cfg = [] then ''balanced'' else DPIProfile cfg);
               profile = (if confidence < fl 0.4 then ''compat'' else profile)
           in SelectVariants profile reason hint confidence variants)"

definition fresh_variants ::
    "sw_env \<Rightarrow> DaemonConfig \<Rightarrow> BlockType \<Rightarrow> string \<Rightarrow> float64 \<Rightarrow> nat \<Rightarrow> TunnelConfig \<Rightarrow> TunnelConfig list" where
  "fresh_variants env cfg hint reason confidence i bc =
     (if (case DPI bc of None \<Rightarrow> True | Some d \<Rightarrow> AutoTune d)
      then filterVariantsByProfile cfg
             (GenerateVariants (env_draws env i) bc hint (DPIMaxVariants cfg)) hint reason confidence
      else [])"

definition preset_variant :: "AIManager \<Rightarrow> gotime \<Rightarrow> TunnelConfig \<Rightarrow> TunnelConfig option" where
  "preset_variant ai now bc = (case GetActive (ID bc) now (m_presets ai) of
       None \<Rightarrow> None
     | Some p \<Rightarrow> (case BuildVariantFromRecommendation (Some bc) (p_Recommendation p) of
         Inl _ \<Rightarrow> None
       | Inr v \<Rightarrow> Some (v\<lparr>ID := ID bc @ '':dpi:ai:preset''\<rparr>)))"

definition candidate_pool ::
    "sw_env \<Rightarrow> DaemonConfig \<Rightarrow> LearnedDB \<Rightarrow> AIManager \<Rightarrow> gotime \<Rightarrow> TunnelConfig list
      \<Rightarrow> BlockType \<Rightarrow> string \<Rightarrow> float64 \<Rightarrow> TunnelConfig list" where
  "candidate_pool env cfg learned ai now base hint reason confidence =
     (let candidates = concat (map (\<lambda>bc. GetCandidates learned (ID bc) (Some bc)) base);
          candidates = candidates @ base;
          candidates = candidates @
            (if DPIAutoTune cfg
             then concat (map (\<lambda>(i, bc). fresh_variants env cfg hint reason confidence i bc)
                    (enumerate 0 base))
             else [])
      in if ai_enabled ai
         then rev (List.map_filter (preset_variant ai now) base) @ candidates
         else candidates)"

section \<open>Probing\<close>

record parallelProbeResult =
  pr_tc :: TunnelConfig
  pr_res :: AggResult
  pr_err :: "string option"

definition zero_agg :: AggResult where
  "zero_agg = \<lparr>a_Success = False, AvgRTT = 0, PacketLoss = 0, Results = [], DominantErrType = ProbeErrNone\<rparr>"

definition probe_failed :: "TunnelConfig \<Rightarrow> string \<Rightarrow> parallelProbeResult" where
  "probe_failed tc e = \<lparr>pr_tc = tc, pr_res = zero_agg, pr_err = Some e\<rparr>"

definition probe_interface :: "string \<Rightarrow> TunnelConfig \<Rightarrow> TunnelConfig" where
  "probe_interface activeID tc =
     (if ID tc \<noteq> activeID \<and> IsVariant tc \<and> InterfaceName tc \<noteq> []
      then let h = rune_hash (ID tc)
           in tc\<lparr>InterfaceName := ''vw'' @ Itoa ((h smod 9000 + 9000) smod 9000 + 1000)\<rparr>
      else tc)"

text \<open>Bringing the tunnel up and letting it settle: an error, or a panic of \<open>Down\<close>.\<close>

definition up_and_settle :: "sw_env \<Rightarrow> Manager \<Rightarrow> TunnelConfig \<Rightarrow> string option outcome tunnel_io" where
  "up_and_settle env mgr tc = do {
     err \<leftarrow> Up (env_os env) mgr tc;
     case err of Some e \<Rightarrow> State_Monad.return (Return (Some e))
     | None \<Rightarrow> do {
         err \<leftarrow> attempt (env_os env) (After second);
         case err of None \<Rightarrow> State_Monad.return (Return None)
         | Some e \<Rightarrow> do {
             r \<leftarrow> Down (env_os env) mgr tc;
             State_Monad.return (obind r (\<lambda>_. Return (Some e))) } } }"

definition probeConfig ::
    "sw_env \<Rightarrow> DaemonConfig \<Rightarrow> string \<Rightarrow> TunnelConfig \<Rightarrow> parallelProbeResult outcome tunnel_io" where
  "probeConfig env cfg activeID tc =
     (let tc = probe_interface activeID tc
      in case ForConfig tc cfg of
           Inl e \<Rightarrow> State_Monad.return (Return (probe_failed tc e))
         | Inr mgr \<Rightarrow> do {
             up \<leftarrow> (if ID tc \<noteq> activeID then up_and_settle env mgr tc
                    else State_Monad.return (Return None));
             case up of Panic p \<Rightarrow> State_Monad.return (Panic p)
             | Return (Some e) \<Rightarrow> State_Monad.return (Return (probe_failed tc e))
             | Return None \<Rightarrow> do {
                 res \<leftarrow> probe_round env cfg (ID tc) (FWMark tc);
                 State_Monad.return
                   (obind res (\<lambda>a. Return \<lparr>pr_tc = tc, pr_res = a, pr_err = None\<rparr>)) } })"

fun parallelProbe ::
    "sw_env \<Rightarrow> DaemonConfig \<Rightarrow> string \<Rightarrow> TunnelConfig list \<Rightarrow> parallelProbeResult list outcome tunnel_io"
where
  "parallelProbe env cfg activeID [] = State_Monad.return (Return [])"
| "parallelProbe env cfg activeID (tc # tcs) = do {
     r \<leftarrow> probeConfig env cfg activeID tc;
     rs \<leftarrow> parallelProbe env cfg activeID tcs;
     State_Monad.return (obind r (\<lambda>a. obind rs (\<lambda>as. Return (a # as)))) }"

definition tear_down_one ::
    "sw_env \<Rightarrow> DaemonConfig \<Rightarrow> TunnelConfig \<Rightarrow> string option outcome tunnel_io" where
  "tear_down_one env cfg tc = (case ForConfig tc cfg of
       Inl _ \<Rightarrow> State_Monad.return (Return None)
     | Inr mgr \<Rightarrow> Down (env_os env) mgr tc)"

fun tear_down ::
    "sw_env \<Rightarrow> DaemonConfig \<Rightarrow> string \<Rightarrow> parallelProbeResult list \<Rightarrow> unit outcome tunnel_io" where
  "tear_down env cfg activeID [] = State_Monad.return (Return ())"
| "tear_down env cfg activeID (r # rs) =
     (if pr_err r = None \<and> ID (pr_tc r) \<noteq> activeID then do {
        d \<leftarrow> tear_down_one env cfg (pr_tc r);
        case d of Panic p \<Rightarrow> State_Monad.return (Panic p)
        | Return _ \<Rightarrow> tear_down env cfg activeID rs }
      else tear_down env cfg activeID rs)"

definition record_results :: "parallelProbeResult list \<Rightarrow> scoreDB \<Rightarrow> scoreDB" where
  "record_results results db =
     fold (\<lambda>r db. if pr_err r = None then RecordProbeResult (ID (pr_tc r)) (pr_res r) db else db)
       results db"

definition viable_of :: "parallelProbeResult list \<Rightarrow> TunnelConfig list" where
  "viable_of results = map pr_tc (filter (\<lambda>r. pr_err r = None \<and> a_Success (pr_res r)) results)"

section \<open>Applying a candidate\<close>

definition apply_config :: "sw_env \<Rightarrow> Engine \<Rightarrow> TunnelConfig \<Rightarrow> string option tunnel_io" where
  "apply_config env e tc = (case ForConfig tc (en_cfg e) of
       Inl err \<Rightarrow> State_Monad.return (Some err)
     | Inr mgr \<Rightarrow> do {
         err \<leftarrow> Up (env_os env) mgr tc;
         if err \<noteq> None then State_Monad.return err
         else do {
           _ \<leftarrow> Apply (env_policy env) (env_os env) (en_policy e) (FWMark tc);
           State_Monad.return None } })"

definition fwmarkFor :: "TunnelConfig \<Rightarrow> 32 word" where
  "fwmarkFor tc =
     (if 0 < RoutingTableID tc then uint32 (RoutingTableID tc)
      else let h = rune_hash (ID tc) in uint32 (100 + (h smod 100 + 100) smod 100))"

definition verify :: "sw_env \<Rightarrow> Engine \<Rightarrow> bool outcome tunnel_io" where
  "verify env e = do {
     err \<leftarrow> attempt (env_os env) (After (3 * second));
     if err \<noteq> None then State_Monad.return (Return False)
     else do {
       res \<leftarrow> probe_round env (en_cfg e) [] 0;
       State_Monad.return (obind res (\<lambda>a. Return (a_Success a))) } }"

definition attempt_entry ::
    "Engine \<Rightarrow> TunnelConfig \<Rightarrow> string \<Rightarrow> bool \<Rightarrow> string \<Rightarrow> BlockType \<Rightarrow> string \<Rightarrow> gotime \<Rightarrow> AttemptEntry"
where
  "attempt_entry e tc stage success errSummary hint reason now =
     (let base = (if BaseConfigID tc \<noteq> [] then BaseConfigID tc else ID tc)
      in \<lparr>ae_Timestamp = now, ae_ConfigID = ID tc, ae_BaseConfigID = base, ae_VariantID = ID tc,
          ae_ReasonCode = reason, ae_BlockType = BlockType_String hint,
          ae_Profile = DPIProfile (en_cfg e), ae_Stage = stage, ae_Success = success,
          ae_ErrorSummary = errSummary\<rparr>)"

definition recordAttempt ::
    "Engine \<Rightarrow> TunnelConfig \<Rightarrow> string \<Rightarrow> bool \<Rightarrow> string \<Rightarrow> BlockType \<Rightarrow> string \<Rightarrow> unit sw" where
  "recordAttempt e tc stage success errSummary hint reason = do {
     now \<leftarrow> sw_now;
     on_ai (\<lambda>m. m\<lparr>m_attempts :=
       AddAttempt (attempt_entry e tc stage success errSummary hint reason now) (m_attempts m)\<rparr>) }"

definition record_session :: "TunnelConfig \<Rightarrow> gotime \<Rightarrow> bool \<Rightarrow> BlockType \<Rightarrow> unit sw" where
  "record_session tc start success hint = do {
     _ \<leftarrow> on_db (RecordSession \<lparr>ss_ConfigID = ID tc, ss_StartedAt = start, ss_Success = success,
            ss_RTT = 0, ss_Loss = 0\<rparr>);
     if hint \<noteq> BlockNone then on_db (RecordDPIResult (ID tc) (BlockType_String hint) success)
     else State_Monad.return () }"

text \<open>
  The end of the two failure branches of the loop, and the success branch. One records the scores
  before it clears the policy, the other after.
\<close>

definition give_up_on ::
    "sw_env \<Rightarrow> Engine \<Rightarrow> int \<Rightarrow> BlockType \<Rightarrow> string \<Rightarrow> TunnelConfig \<Rightarrow> gotime \<Rightarrow> string \<Rightarrow> string \<Rightarrow> unit sw"
where
  "give_up_on env e maxAttempts hint reason tc start stage err = do {
     _ \<leftarrow> record_session tc start False hint;
     _ \<leftarrow> on_world (Clear (env_os env) (en_policy e) (fwmarkFor tc));
     _ \<leftarrow> on_machine (\<lambda>m. snd (SwitchFailed maxAttempts m));
     recordAttempt e tc stage False err hint reason }"

definition give_up_unverified ::
    "sw_env \<Rightarrow> Engine \<Rightarrow> int \<Rightarrow> BlockType \<Rightarrow> string \<Rightarrow> TunnelConfig \<Rightarrow> gotime \<Rightarrow> unit sw" where
  "give_up_unverified env e maxAttempts hint reason tc start = do {
     _ \<leftarrow> on_world (Clear (env_os env) (en_policy e) (fwmarkFor tc));
     _ \<leftarrow> record_session tc start False hint;
     _ \<leftarrow> on_machine (\<lambda>m. snd (SwitchFailed maxAttempts m));
     recordAttempt e tc ''verify'' False ''verify failed'' hint reason }"

definition switched_to :: "Engine \<Rightarrow> BlockType \<Rightarrow> string \<Rightarrow> TunnelConfig \<Rightarrow> gotime \<Rightarrow> unit sw" where
  "switched_to e hint reason tc start = do {
     _ \<leftarrow> record_session tc start True hint;
     now \<leftarrow> sw_now;
     _ \<leftarrow> (if IsVariant tc then on_learned (RecordLearned now tc) else State_Monad.return ());
     _ \<leftarrow> on_machine (SwitchSucceeded now (ID tc));
     _ \<leftarrow> recordAttempt e tc ''verify'' True [] hint reason;
     s \<leftarrow> State_Monad.get;
     if ai_enabled (sw_ai s) then on_presets (MarkSuccess (BaseConfigID tc))
     else State_Monad.return () }"

fun try_configs ::
    "sw_env \<Rightarrow> Engine \<Rightarrow> int \<Rightarrow> BlockType \<Rightarrow> string \<Rightarrow> TunnelConfig list \<Rightarrow> string outcome sw" where
  "try_configs env e maxAttempts hint reason [] = State_Monad.return (Return [])"
| "try_configs env e maxAttempts hint reason (tc # tcs) = do {
     _ \<leftarrow> on_machine (EnterSwitching (ID tc));
     start \<leftarrow> sw_now;
     applyErr \<leftarrow> on_world (apply_config env e tc);
     case applyErr of
       Some err \<Rightarrow> do {
         _ \<leftarrow> give_up_on env e maxAttempts hint reason tc start ''apply'' err;
         try_configs env e maxAttempts hint reason tcs }
     | None \<Rightarrow> do {
         ok \<leftarrow> on_world (verify env e);
         case ok of
           Panic p \<Rightarrow> State_Monad.return (Panic p)
         | Return True \<Rightarrow> do {
             _ \<leftarrow> switched_to e hint reason tc start;
             State_Monad.return (Return (ID tc)) }
         | Return False \<Rightarrow> do {
             d \<leftarrow> on_world (tear_down_one env (en_cfg e) tc);
             case d of
               Panic p \<Rightarrow> State_Monad.return (Panic p)
             | Return _ \<Rightarrow> do {
                 _ \<leftarrow> give_up_unverified env e maxAttempts hint reason tc start;
                 try_configs env e maxAttempts hint reason tcs } } } }"

text \<open>The scores and the policy are different parts of the state, so the order does not matter.\<close>

lemma give_up_unverified_eq [simp]:
  "give_up_unverified env e n hint reason tc start
     = give_up_on env e n hint reason tc start ''verify'' ''verify failed''"
proof -
  have swap: "s\<lparr>sw_world := w, sw_db := d\<rparr> = s\<lparr>sw_db := d, sw_world := w\<rparr>" for s :: SwState and w d
    by simp
  show ?thesis
    by (simp add: give_up_unverified_def give_up_on_def record_session_def on_world_def on_db_def
        case_prod_beta State_Monad.bind_def swap)
qed

section \<open>The switch\<close>

text \<open>When no candidate works, the advisor may name one more, which is probed in its turn.\<close>

definition ai_fallback ::
    "sw_env \<Rightarrow> Engine \<Rightarrow> string \<Rightarrow> TunnelConfig list \<Rightarrow> BlockType \<Rightarrow> string \<Rightarrow> float64
      \<Rightarrow> TunnelConfig list outcome sw" where
  "ai_fallback env e activeID base hint reason confidence = do {
     s \<leftarrow> State_Monad.get;
     if \<not> ai_enabled (sw_ai s) then State_Monad.return (Return [])
     else do {
       now \<leftarrow> sw_now;
       let answered = now + int (env_wait env (calls (sw_world s)));
       case Recommend (env_advisor env) now answered
              \<lparr>d_BlockType = hint, d_ReasonCode = reason, d_Confidence = confidence,
               d_Evidence = [], d_StageResults = [], d_TestedAt = 0\<rparr> base (sw_ai s) of
         (ans, ai) \<Rightarrow> do {
           _ \<leftarrow> on_ai (\<lambda>_. ai);
           _ \<leftarrow> on_world (State (\<lambda>w. ((), w\<lparr>clock := answered\<rparr>)));
           case ans of
             Inl _ \<Rightarrow> State_Monad.return (Return [])
           | Inr (v, r) \<Rightarrow> do {
               results \<leftarrow> on_world (parallelProbe env (en_cfg e) activeID [v]);
               case results of
                 Panic p \<Rightarrow> State_Monad.return (Panic p)
               | Return rs \<Rightarrow> do {
                   later \<leftarrow> sw_now;
                   if viable_of rs \<noteq> [] then do {
                     _ \<leftarrow> on_presets (SavePreset (rec_BaseConfigID r) r
                            (ai_PresetTTL (AIAdvisor (en_cfg e))) later later);
                     State_Monad.return (Return (viable_of rs)) }
                   else do {
                     _ \<leftarrow> on_presets (MarkFailure (rec_BaseConfigID r) ''ai_probe_failed''
                            (30 * 60 * second) later);
                     State_Monad.return (Return []) } } } } } }"

definition max_attempts :: "DaemonConfig \<Rightarrow> int" where
  "max_attempts cfg = (if MaxSwitchAttempts cfg \<le> 0 then 3 else MaxSwitchAttempts cfg)"

definition apply_best ::
    "sw_env \<Rightarrow> Engine \<Rightarrow> BlockType \<Rightarrow> string \<Rightarrow> TunnelConfig list \<Rightarrow> string outcome sw" where
  "apply_best env e hint reason viable = do {
     s \<leftarrow> State_Monad.get;
     try_configs env e (max_attempts (en_cfg e)) hint reason
       (take (nat (max_attempts (en_cfg e))) (Rank (sw_db s) viable)) }"

definition ProbeAndSwitch ::
    "sw_env \<Rightarrow> Engine \<Rightarrow> TunnelConfig list \<Rightarrow> string \<Rightarrow> BlockType \<Rightarrow> string \<Rightarrow> float64
      \<Rightarrow> string outcome sw" where
  "ProbeAndSwitch env e base activeID hint reason confidence =
     (if base = [] then State_Monad.return (Return [])
      else do {
        s \<leftarrow> State_Monad.get;
        let candidates = candidate_pool env (en_cfg e) (sw_learned s) (sw_ai s)
              (clock (sw_world s)) base hint reason confidence;
        results \<leftarrow> on_world (parallelProbe env (en_cfg e) activeID candidates);
        case results of
          Panic p \<Rightarrow> State_Monad.return (Panic p)
        | Return rs \<Rightarrow> do {
            torn \<leftarrow> on_world (tear_down env (en_cfg e) activeID rs);
            case torn of
              Panic p \<Rightarrow> State_Monad.return (Panic p)
            | Return _ \<Rightarrow> do {
                _ \<leftarrow> on_db (record_results rs);
                viable \<leftarrow> (if viable_of rs \<noteq> [] then State_Monad.return (Return (viable_of rs))
                          else ai_fallback env e activeID base hint reason confidence);
                case viable of
                  Panic p \<Rightarrow> State_Monad.return (Panic p)
                | Return vs \<Rightarrow> (if vs = [] then State_Monad.return (Return [])
                               else apply_best env e hint reason vs) } } })"

section \<open>The candidates\<close>

text \<open>What \<open>LoadAll\<close> has checked of a configuration.\<close>

definition candidate_ok :: "TunnelConfig \<Rightarrow> bool" where
  "candidate_ok tc \<longleftrightarrow> validate tc = Inr ()"

lemma candidate_ok_iff:
  "candidate_ok tc \<longleftrightarrow> ID tc \<noteq> [] \<and> (case Protocol tc of
       ProtocolWireGuard \<Rightarrow> WireGuard tc \<noteq> None
     | ProtocolAmneziaWG \<Rightarrow> AmneziaWG tc \<noteq> None
     | ProtocolVLESS \<Rightarrow> VLESS tc \<noteq> None
     | OtherProtocol p \<Rightarrow> False)"
  by (simp add: candidate_ok_def validate_def split: Protocol.split)

lemma candidate_ok_transfer:
  assumes "candidate_ok b" and "ID v \<noteq> []" and "Protocol v = Protocol b"
    and "WireGuard v = None \<longleftrightarrow> WireGuard b = None" and "AmneziaWG v = None \<longleftrightarrow> AmneziaWG b = None"
    and "VLESS v = None \<longleftrightarrow> VLESS b = None"
  shows "candidate_ok v"
  using assms unfolding candidate_ok_iff by (simp split: Protocol.splits)

lemma variant_candidate_ok:
  assumes "candidate_ok b" and "variant_of b v" and "same_identity b v"
  shows "candidate_ok v"
proof (rule candidate_ok_transfer [OF assms(1)])
  show "ID v \<noteq> []" "Protocol v = Protocol b"
    using assms(2) by (auto simp: variant_of_def HasPrefix_iff)
  show "WireGuard v = None \<longleftrightarrow> WireGuard b = None" "AmneziaWG v = None \<longleftrightarrow> AmneziaWG b = None"
    "VLESS v = None \<longleftrightarrow> VLESS b = None"
    using assms(3) unfolding same_identity_def by (metis option.map_disc_iff)+
qed

lemma learned_candidate_ok:
  assumes "candidate_ok b" and "v \<in> set (GetCandidates learned i (Some b))"
  shows "candidate_ok v"
proof -
  from assms(2) obtain e where e: "rebuildVariant (Some b) e = Some v"
    by (auto simp: GetCandidates_def List.map_filter_def)
  then have "Protocol b \<in> {ProtocolWireGuard, ProtocolAmneziaWG, ProtocolVLESS}"
    by (cases "Protocol b") (auto simp: rebuildVariant_def)
  from rebuild_known [OF this, of e] e
  have "ID v \<noteq> []" "Protocol v = Protocol b" "WireGuard v = None \<longleftrightarrow> WireGuard b = None"
      "AmneziaWG v = None \<longleftrightarrow> AmneziaWG b = None" "VLESS v = None \<longleftrightarrow> VLESS b = None"
    by (auto simp: learned_id_def)
  then show ?thesis by (rule candidate_ok_transfer [OF assms(1)])
qed

lemma SelectVariants_subset:
  "set (SelectVariants profile reason hint confidence variants) \<subseteq> set variants"
proof (cases "variants = []")
  case False
  then show ?thesis
  proof (cases rule: select_cases [of variants profile confidence reason hint])
    case (compat r)
    then show ?thesis using select_bodies(1) [OF False, of r hint] by simp
  next
    case aggressive
    then show ?thesis using select_bodies(3) [of reason hint variants] by simp
  next
    case balanced
    then show ?thesis using select_bodies(2) [of reason hint variants] by simp
  qed
qed (simp add: SelectVariants_def)

lemma filterVariants_eq:
  "filterVariantsByProfile cfg variants hint reason confidence
     = SelectVariants (DPIProfile cfg) reason hint confidence variants"
  by (simp add: filterVariantsByProfile_def SelectVariants_def Let_def)

lemma fresh_candidate_ok:
  assumes "candidate_ok b" and "v \<in> set (fresh_variants env cfg hint reason confidence i b)"
  shows "candidate_ok v"
proof -
  from assms(2) have "v \<in> set (GenerateVariants (env_draws env i) b hint (DPIMaxVariants cfg))"
    using SelectVariants_subset by (fastforce simp: fresh_variants_def filterVariants_eq split: if_splits)
  then have "good_variant b v" by (rule GenerateVariants_good)
  with assms(1) show ?thesis by (auto simp: good_variant_def intro: variant_candidate_ok)
qed

lemma preset_candidate_ok:
  assumes "candidate_ok b" and "preset_variant ai now b = Some v"
  shows "candidate_ok v"
proof -
  from assms(2) obtain r u where u: "BuildVariantFromRecommendation (Some b) r = Inr u"
      "v = u\<lparr>ID := ID b @ '':dpi:ai:preset''\<rparr>"
    by (auto simp: preset_variant_def split: option.splits sum.splits)
  from BuildVariant_cases [OF u(1)] assms(1) have "candidate_ok u"
    by (auto intro: variant_candidate_ok)
  with u(2) show ?thesis by (simp add: candidate_ok_iff split: Protocol.splits)
qed

lemma list_all_rev_iff: "list_all P (rev xs) = list_all P xs"
  by (simp add: list_all_iff)

lemma pool_candidate_ok:
  assumes "list_all candidate_ok base"
  shows "list_all candidate_ok (candidate_pool env cfg learned ai now base hint reason confidence)"
proof -
  have ok: "candidate_ok b" if "b \<in> set base" for b using assms that by (simp add: list_all_iff)
  have "list_all candidate_ok (concat (map (\<lambda>bc. GetCandidates learned (ID bc) (Some bc)) base))"
    by (auto simp: list_all_iff intro: learned_candidate_ok [OF ok])
  moreover have "list_all candidate_ok (concat (map (\<lambda>(i, bc).
      fresh_variants env cfg hint reason confidence i bc) (enumerate 0 base)))"
    by (auto simp: list_all_iff in_set_enumerate_eq intro: fresh_candidate_ok [OF ok [OF nth_mem]])
  moreover have "list_all candidate_ok (List.map_filter (preset_variant ai now) base)"
    by (auto simp: list_all_iff List.map_filter_def intro: preset_candidate_ok [OF ok])
  ultimately show ?thesis
    using assms by (simp add: candidate_pool_def Let_def list_all_rev_iff)
qed

section \<open>Rounds of probes and tunnels that cannot panic\<close>

definition nets_ok :: "sw_env \<Rightarrow> bool" where
  "nets_ok env \<longleftrightarrow> (\<forall>h who. resolver_ok (snd (snd (env_net env h who))))"

lemma ProbeAll_Return: "resolver_ok net \<Longrightarrow> \<exists>a. ProbeAll perm order net cfg fwmark = Return a"
proof -
  assume ok: "resolver_ok net"
  let ?ps = "map (\<lambda>t. runProbe net t fwmark cfg) (selectTargets perm cfg)"
  have "\<exists>as. outcomes ?ps = Return as \<and> ?ps = map Return as"
    using runProbe_ex [OF ok] by (intro outcomes_Return) auto
  then show ?thesis by (auto simp: ProbeAll_def probe_targets_def)
qed

lemma probe_round_Return: "nets_ok env \<Longrightarrow> \<exists>a. result (probe_round env cfg who fwmark) w = Return a"
proof -
  assume "nets_ok env"
  then have "resolver_ok (snd (snd (env_net env (calls w) who)))" by (simp add: nets_ok_def)
  from ProbeAll_Return [OF this] show ?thesis by (simp add: probe_round_def case_prod_beta)
qed

lemma probe_round_frame [simp]:
  "calls (final (probe_round env cfg who fwmark) w) = calls w"
  "procMap (final (probe_round env cfg who fwmark) w) = procMap w"
  by (simp_all add: probe_round_def split: prod.split)

lemma ForConfig_VLESS: "ForConfig tc cfg = Inr (VLESSManager c) \<Longrightarrow> Protocol tc = ProtocolVLESS"
  by (simp add: ForConfig_def split: Protocol.splits)

lemma Down_Return:
  assumes "ForConfig tc cfg = Inr mgr" and "candidate_ok tc"
  shows "\<exists>r. result (Down os mgr tc) w = Return r"
  using assms
  by (cases mgr) (auto simp: candidate_ok_iff vless_Down_def teardownRouting_def Let_def
      dest!: ForConfig_VLESS)

lemma probe_interface_fields [simp]:
  "ID (probe_interface activeID tc) = ID tc"
  "Protocol (probe_interface activeID tc) = Protocol tc"
  "VLESS (probe_interface activeID tc) = VLESS tc"
  "candidate_ok (probe_interface activeID tc) = candidate_ok tc"
  by (simp_all add: probe_interface_def candidate_ok_iff Let_def split: Protocol.split)

lemma up_and_settle_Return:
  assumes "ForConfig tc cfg = Inr mgr" and "candidate_ok tc"
  shows "\<exists>r. result (up_and_settle env mgr tc) w = Return r"
proof -
  have down: "\<exists>r. result (Down (env_os env) mgr tc) v = Return r" for v
    by (rule Down_Return [OF assms])
  show ?thesis
  proof (cases "result (Up (env_os env) mgr tc) w")
    case None
    let ?v = "do_call (env_os env) (After second) (final (Up (env_os env) mgr tc) w)"
    obtain r where "result (Down (env_os env) mgr tc) ?v = Return r" using down by blast
    with None show ?thesis by (simp add: up_and_settle_def split: option.split)
  qed (simp add: up_and_settle_def)
qed

lemma probeConfig_Return:
  assumes "nets_ok env" and "candidate_ok tc"
  shows "\<exists>r. result (probeConfig env cfg activeID tc) w = Return r \<and> ID (pr_tc r) = ID tc
     \<and> candidate_ok (pr_tc r)"
proof (cases "ForConfig (probe_interface activeID tc) cfg")
  case (Inl e)
  with assms(2) show ?thesis by (simp add: probeConfig_def probe_failed_def)
next
  case (Inr mgr)
  let ?tc = "probe_interface activeID tc"
  let ?up = "if ID tc \<noteq> activeID then up_and_settle env mgr ?tc else State_Monad.return (Return None)"
  obtain r where r: "result ?up w = Return r"
    using up_and_settle_Return [OF Inr, of env w] assms(2) by (cases "ID tc = activeID") auto
  obtain a where "result (probe_round env cfg (ID tc) (FWMark ?tc)) (final ?up w) = Return a"
    using probe_round_Return [OF assms(1)] by blast
  with Inr r assms(2) show ?thesis
    by (cases r) (simp_all add: probeConfig_def probe_failed_def Let_def)
qed

lemma parallelProbe_Return:
  assumes "nets_ok env" and "list_all candidate_ok tcs"
  shows "\<exists>rs. result (parallelProbe env cfg activeID tcs) w = Return rs
     \<and> map (\<lambda>r. ID (pr_tc r)) rs = map ID tcs \<and> list_all (\<lambda>r. candidate_ok (pr_tc r)) rs"
  using assms(2)
proof (induction tcs arbitrary: w)
  case (Cons tc tcs)
  let ?w = "final (probeConfig env cfg activeID tc) w"
  from Cons.prems obtain r where r: "result (probeConfig env cfg activeID tc) w = Return r"
      "ID (pr_tc r) = ID tc" "candidate_ok (pr_tc r)"
    using probeConfig_Return [OF assms(1), of tc cfg activeID w] by auto
  from Cons.prems Cons.IH [of ?w] obtain rs where
      "result (parallelProbe env cfg activeID tcs) ?w = Return rs"
      "map (\<lambda>r. ID (pr_tc r)) rs = map ID tcs" "list_all (\<lambda>r. candidate_ok (pr_tc r)) rs" by auto
  with r show ?case by simp
qed simp

lemma tear_down_one_Return:
  "candidate_ok tc \<Longrightarrow> \<exists>r. result (tear_down_one env cfg tc) w = Return r"
  using Down_Return by (auto simp: tear_down_one_def split: sum.split)

lemma tear_down_Return:
  "list_all (\<lambda>r. candidate_ok (pr_tc r)) rs \<Longrightarrow> result (tear_down env cfg activeID rs) w = Return ()"
proof (induction rs arbitrary: w)
  case (Cons r rs)
  obtain d where "result (tear_down_one env cfg (pr_tc r)) w = Return d"
    using tear_down_one_Return Cons.prems by (metis list.pred_inject(2))
  with Cons show ?case by simp
qed simp

section \<open>The process of the active tunnel\<close>

lemma up_and_settle_others:
  assumes "i \<noteq> ID tc"
  shows "map_of (procMap (final (up_and_settle env mgr tc) w)) i = map_of (procMap w) i"
  by (simp add: up_and_settle_def Manager_others [OF assms] split: option.split)

lemma probeConfig_of_active: "calls (final (probeConfig env cfg (ID tc) tc) w) = calls w"
  "procMap (final (probeConfig env cfg (ID tc) tc) w) = procMap w"
  by (simp_all add: probeConfig_def probe_interface_def Let_def split: sum.split)

lemma probeConfig_active:
  "map_of (procMap (final (probeConfig env cfg activeID tc) w)) activeID = map_of (procMap w) activeID"
proof (cases "ID tc = activeID")
  case False
  let ?tc = "probe_interface activeID tc"
  show ?thesis
  proof (cases "ForConfig ?tc cfg")
    case (Inr mgr)
    have up: "map_of (procMap (final (up_and_settle env mgr ?tc) w)) activeID = map_of (procMap w) activeID"
      using False by (simp add: up_and_settle_others)
    show ?thesis
      using up False Inr
      by (simp add: probeConfig_def Let_def split: outcome.split option.split)
  qed (simp add: probeConfig_def)
qed (use probeConfig_of_active(2) in metis)

lemma parallelProbe_active:
  "map_of (procMap (final (parallelProbe env cfg activeID tcs) w)) activeID = map_of (procMap w) activeID"
  by (induction tcs arbitrary: w) (simp_all add: probeConfig_active)

lemma tear_down_one_others:
  "i \<noteq> ID tc \<Longrightarrow> map_of (procMap (final (tear_down_one env cfg tc) w)) i = map_of (procMap w) i"
  by (simp add: tear_down_one_def Manager_others split: sum.split)

lemma tear_down_active:
  "map_of (procMap (final (tear_down env cfg activeID rs) w)) activeID = map_of (procMap w) activeID"
  by (induction rs arbitrary: w) (auto simp: tear_down_one_others [OF not_sym] split: outcome.split)

section \<open>Trying the candidates\<close>

lemma verify_Return:
  assumes "nets_ok env"
  shows "\<exists>b. result (verify env e) w = Return b"
proof -
  let ?w = "do_call (env_os env) (After (3 * second)) w"
  obtain a where "result (probe_round env (en_cfg e) [] 0) ?w = Return a"
    using probe_round_Return [OF assms] by blast
  then show ?thesis
    by (cases "reply_err (answer (env_os env) (calls w) (After (3 * second)))")
      (auto simp: verify_def)
qed

text \<open>What the recording steps change: the machine, what was learned, the log of attempts.\<close>

lemma attempt_entry_fields [simp]:
  "ae_Success (attempt_entry e tc stage ok err hint reason now) = ok"
  "ae_ConfigID (attempt_entry e tc stage ok err hint reason now) = ID tc"
  by (simp_all add: attempt_entry_def Let_def)

lemma record_session_frame [simp]:
  "sw_machine (snd (run_state (record_session tc start ok hint) s)) = sw_machine s"
  "sw_ai (snd (run_state (record_session tc start ok hint) s)) = sw_ai s"
  "sw_world (snd (run_state (record_session tc start ok hint) s)) = sw_world s"
  "sw_learned (snd (run_state (record_session tc start ok hint) s)) = sw_learned s"
  by (simp_all add: record_session_def)

lemma recordAttempt_fields [simp]:
  "sw_machine (snd (run_state (recordAttempt e tc stage ok err hint reason) s)) = sw_machine s"
  "sw_learned (snd (run_state (recordAttempt e tc stage ok err hint reason) s)) = sw_learned s"
  "m_attempts (sw_ai (snd (run_state (recordAttempt e tc stage ok err hint reason) s)))
     = AddAttempt (attempt_entry e tc stage ok err hint reason (clock (sw_world s)))
         (m_attempts (sw_ai s))"
  by (simp_all add: recordAttempt_def)

lemma give_up_on_fields:
  "sw_machine (snd (run_state (give_up_on env e n hint reason tc start stage err) s))
     = snd (SwitchFailed n (sw_machine s))"
  "sw_learned (snd (run_state (give_up_on env e n hint reason tc start stage err) s)) = sw_learned s"
  "\<exists>t. m_attempts (sw_ai (snd (run_state (give_up_on env e n hint reason tc start stage err) s)))
     = AddAttempt (attempt_entry e tc stage False err hint reason t) (m_attempts (sw_ai s))"
  by (auto simp: give_up_on_def)

lemma switched_to_fields:
  "sw_machine (snd (run_state (switched_to e hint reason tc start) s))
     = SwitchSucceeded (clock (sw_world s)) (ID tc) (sw_machine s)"
  "sw_learned (snd (run_state (switched_to e hint reason tc start) s))
     = (if IsVariant tc then RecordLearned (clock (sw_world s)) tc (sw_learned s) else sw_learned s)"
  "\<exists>t. m_attempts (sw_ai (snd (run_state (switched_to e hint reason tc start) s)))
     = AddAttempt (attempt_entry e tc ''verify'' True [] hint reason t) (m_attempts (sw_ai s))"
  by (auto simp: switched_to_def on_presets_def)

text \<open>
  The loop. It returns: the id of the candidate it switched to, with the machine healthy and
  active on it, or the empty string, with the active configuration unchanged and the machine
  back in probing. Every try is logged, and only a last one can be a success.
\<close>

definition tried :: "nat \<Rightarrow> string \<Rightarrow> AttemptLog \<Rightarrow> AttemptLog \<Rightarrow> bool" where
  "tried n a l l' \<longleftrightarrow> (\<exists>es. length es \<le> n \<and> l' = fold AddAttempt es l
     \<and> (if a = [] then list_all (\<lambda>x. \<not> ae_Success x) es
        else es \<noteq> [] \<and> list_all (\<lambda>x. \<not> ae_Success x) (butlast es)
          \<and> ae_Success (last es) \<and> ae_ConfigID (last es) = a))"

definition switch_outcome :: "TunnelConfig list \<Rightarrow> string \<Rightarrow> SwState \<Rightarrow> SwState \<Rightarrow> bool" where
  "switch_outcome tcs a s s' \<longleftrightarrow>
     (if a = [] then activeConfigID (sw_machine s') = activeConfigID (sw_machine s)
        \<and> sw_learned s' = sw_learned s
        \<and> (if tcs = [] then sw_machine s' = sw_machine s else current (sw_machine s') = StateProbing)
      else a \<in> ID ` set tcs \<and> current (sw_machine s') = StateHealthy
        \<and> activeConfigID (sw_machine s') = a \<and> switchAttempts (sw_machine s') = 0)
     \<and> tried (length tcs) a (m_attempts (sw_ai s)) (m_attempts (sw_ai s'))"

lemma tried_failure:
  assumes "tried n a (AddAttempt x l) l'" and "\<not> ae_Success x"
  shows "tried (Suc n) a l l'"
proof -
  from assms(1) obtain es where "length es \<le> n" "l' = fold AddAttempt es (AddAttempt x l)"
      "if a = [] then list_all (\<lambda>x. \<not> ae_Success x) es
       else es \<noteq> [] \<and> list_all (\<lambda>x. \<not> ae_Success x) (butlast es)
          \<and> ae_Success (last es) \<and> ae_ConfigID (last es) = a"
    unfolding tried_def by blast
  with assms(2) show ?thesis
    unfolding tried_def by (intro exI [of _ "x # es"]) (auto split: if_splits)
qed

lemma switch_outcome_failure:
  assumes "switch_outcome tcs a u s'"
    and "sw_machine u = snd (SwitchFailed n (EnterSwitching i (sw_machine s)))"
    and "sw_learned u = sw_learned s"
    and "m_attempts (sw_ai u) = AddAttempt x (m_attempts (sw_ai s))" and "\<not> ae_Success x"
  shows "switch_outcome (tc # tcs) a s s'"
  using assms(1) tried_failure [of "length tcs" a x "m_attempts (sw_ai s)"] assms(2-5)
  by (auto simp: switch_outcome_def fo.failover_laws split: if_splits)

lemma give_up_outcome:
  assumes "s' = snd (run_state (give_up_on env e n hint reason tc start stage err) sx)"
    and "sw_machine sx = EnterSwitching (ID tc) (sw_machine s)" and "sw_learned sx = sw_learned s"
    and "sw_ai sx = sw_ai s"
    and "\<exists>a. fst (run_state m s') = Return a \<and> switch_outcome tcs a s' (snd (run_state m s'))"
  shows "\<exists>a. fst (run_state m s') = Return a \<and> switch_outcome (tc # tcs) a s (snd (run_state m s'))"
proof -
  obtain x where x: "m_attempts (sw_ai s') = AddAttempt x (m_attempts (sw_ai s))" "\<not> ae_Success x"
    using give_up_on_fields(3) [of env e n hint reason tc start stage err sx] assms(1,4) by auto
  have "sw_machine s' = snd (SwitchFailed n (EnterSwitching (ID tc) (sw_machine s)))"
      "sw_learned s' = sw_learned s"
    unfolding assms(1) by (simp_all add: give_up_on_fields(1,2) assms(2,3))
  with assms(5) switch_outcome_failure [OF _ this x] show ?thesis by blast
qed

lemma switched_to_outcome:
  assumes "candidate_ok tc" and "sw_ai sx = sw_ai s"
  shows "switch_outcome (tc # tcs) (ID tc) s (snd (run_state (switched_to e hint reason tc start) sx))"
proof -
  let ?s' = "snd (run_state (switched_to e hint reason tc start) sx)"
  have ne: "ID tc \<noteq> []" using assms(1) by (simp add: candidate_ok_iff)
  obtain t where "m_attempts (sw_ai ?s')
      = AddAttempt (attempt_entry e tc ''verify'' True [] hint reason t) (m_attempts (sw_ai s))"
    using switched_to_fields(3) [of e hint reason tc start sx] assms(2) by auto
  then have "tried (length (tc # tcs)) (ID tc) (m_attempts (sw_ai s)) (m_attempts (sw_ai ?s'))"
    using ne unfolding tried_def
    by (intro exI [of _ "[attempt_entry e tc ''verify'' True [] hint reason t]"]) simp
  with ne show ?thesis by (simp add: switch_outcome_def switched_to_fields(1))
qed

lemma try_configs_outcome:
  assumes "nets_ok env"
  shows "list_all candidate_ok tcs \<Longrightarrow>
    \<exists>a. fst (run_state (try_configs env e n hint reason tcs) s) = Return a
      \<and> switch_outcome tcs a s (snd (run_state (try_configs env e n hint reason tcs) s))"
proof (induction tcs arbitrary: s)
  case Nil
  show ?case by (auto simp: switch_outcome_def tried_def intro: exI [of _ "[]"])
next
  case (Cons tc tcs)
  let ?s2 = "s\<lparr>sw_machine := EnterSwitching (ID tc) (sw_machine s),
    sw_world := final (apply_config env e tc) (sw_world s)\<rparr>"
  let ?s3 = "?s2\<lparr>sw_world := final (verify env e) (sw_world ?s2)\<rparr>"
  let ?s4 = "?s3\<lparr>sw_world := final (tear_down_one env (en_cfg e) tc) (sw_world ?s3)\<rparr>"
  let ?give_up = "give_up_on env e n hint reason tc (clock (sw_world s))"
  from Cons have ih: "\<exists>a. fst (run_state (try_configs env e n hint reason tcs) u) = Return a
      \<and> switch_outcome tcs a u (snd (run_state (try_configs env e n hint reason tcs) u))" for u by simp
  show ?case
  proof (cases "result (apply_config env e tc) (sw_world s)")
    case (Some err)
    with give_up_outcome [OF refl _ _ _ ih, where sx = ?s2 and tc = tc and s = s] show ?thesis by simp
  next
    case applied: None
    obtain ok where ok: "result (verify env e) (sw_world ?s2) = Return ok"
      using verify_Return [OF assms] by blast
    obtain d where down: "result (tear_down_one env (en_cfg e) tc) (sw_world ?s3) = Return d"
      using tear_down_one_Return Cons.prems by (metis list.pred_inject(2))
    show ?thesis
    proof (cases ok)
      case True
      with applied ok Cons.prems switched_to_outcome [of tc ?s3 s] show ?thesis by simp
    next
      case False
      with applied ok down give_up_outcome [OF refl _ _ _ ih, where sx = ?s4 and tc = tc and s = s]
      show ?thesis by simp
    qed
  qed
qed

section \<open>The whole switch\<close>

lemma viable_of_ok:
  "list_all (\<lambda>r. candidate_ok (pr_tc r)) rs \<Longrightarrow> list_all candidate_ok (viable_of rs)"
  by (auto simp: viable_of_def list_all_iff)

lemma ai_fallback_outcome:
  assumes "nets_ok env" and "list_all candidate_ok base"
  shows "\<exists>vs. fst (run_state (ai_fallback env e activeID base hint reason confidence) s) = Return vs
    \<and> list_all candidate_ok vs
    \<and> sw_machine (snd (run_state (ai_fallback env e activeID base hint reason confidence) s)) = sw_machine s
    \<and> sw_learned (snd (run_state (ai_fallback env e activeID base hint reason confidence) s)) = sw_learned s
    \<and> m_attempts (sw_ai (snd (run_state (ai_fallback env e activeID base hint reason confidence) s)))
        = m_attempts (sw_ai s)"
proof (cases "ai_enabled (sw_ai s)")
  case False
  then show ?thesis by (simp add: ai_fallback_def)
next
  case True
  let ?d = "\<lparr>d_BlockType = hint, d_ReasonCode = reason, d_Confidence = confidence,
               d_Evidence = [], d_StageResults = [], d_TestedAt = 0\<rparr>"
  let ?t = "clock (sw_world s) + int (env_wait env (calls (sw_world s)))"
  let ?R = "Recommend (env_advisor env) (clock (sw_world s)) ?t ?d base (sw_ai s)"
  let ?s = "s\<lparr>sw_ai := snd ?R, sw_world := (sw_world s)\<lparr>clock := ?t\<rparr>\<rparr>"
  obtain ans ai where R: "?R = (ans, ai)" by (cases ?R)
  then have ai: "m_attempts ai = m_attempts (sw_ai s)"
    using Recommend_attempts [of "env_advisor env" "clock (sw_world s)" ?t ?d base "sw_ai s"] by simp
  show ?thesis
  proof (cases ans)
    case (Inl err)
    with True R ai show ?thesis by (simp add: ai_fallback_def Let_def)
  next
    case (Inr vr)
    obtain v r where vr: "vr = (v, r)" by (cases vr)
    have "\<exists>b\<in>set base. BuildVariantFromRecommendation (Some b) r = Inr v"
      using Recommend_facts [of "env_advisor env" "clock (sw_world s)" ?t ?d base "sw_ai s" v r]
        R Inr vr by auto
    then have "candidate_ok v"
      using assms(2) BuildVariant_cases by (fastforce simp: list_all_iff intro: variant_candidate_ok)
    then obtain rs where rs: "result (parallelProbe env (en_cfg e) activeID [v]) (sw_world ?s) = Return rs"
        "list_all (\<lambda>r. candidate_ok (pr_tc r)) rs"
      using parallelProbe_Return [OF assms(1), of "[v]" "en_cfg e" activeID "sw_world ?s"]
      by (metis list.pred_inject)
    show ?thesis
      using True R Inr vr ai rs viable_of_ok [OF rs(2)]
      by (cases "viable_of rs = []")
        (simp_all add: ai_fallback_def Let_def on_presets_def del: parallelProbe.simps)
  qed
qed

lemma tried_mono: "tried n a l l' \<Longrightarrow> n \<le> k \<Longrightarrow> tried k a l l'"
  unfolding tried_def by (elim exE conjE, intro exI conjI) (assumption | rule order_trans)+

lemma apply_best_outcome:
  assumes "nets_ok env" and "list_all candidate_ok viable"
  shows "\<exists>a vs. fst (run_state (apply_best env e hint reason viable) s) = Return a
    \<and> switch_outcome vs a s (snd (run_state (apply_best env e hint reason viable) s))
    \<and> length vs \<le> nat (max_attempts (en_cfg e)) \<and> set vs \<subseteq> set viable"
proof -
  let ?vs = "take (nat (max_attempts (en_cfg e))) (Rank (sw_db s) viable)"
  have sub: "set ?vs \<subseteq> set viable" using set_take_subset rk.rank_set by metis
  with assms(2) have "list_all candidate_ok ?vs" by (auto simp: list_all_iff)
  from try_configs_outcome [OF assms(1) this, of e "max_attempts (en_cfg e)" hint reason s]
  obtain a where "fst (run_state (try_configs env e (max_attempts (en_cfg e)) hint reason ?vs) s) = Return a"
      "switch_outcome ?vs a s (snd (run_state (try_configs env e (max_attempts (en_cfg e)) hint reason ?vs) s))"
    by blast
  with sub show ?thesis
    by (intro exI [of _ a] exI [of _ ?vs]) (simp add: apply_best_def)
qed

lemma switch_outcome_frame:
  "switch_outcome vs a u s' \<Longrightarrow> sw_machine u = sw_machine s \<Longrightarrow> sw_learned u = sw_learned s
     \<Longrightarrow> m_attempts (sw_ai u) = m_attempts (sw_ai s) \<Longrightarrow> switch_outcome vs a s s'"
  by (simp add: switch_outcome_def)

lemma ProbeAndSwitch_outcome:
  assumes "nets_ok env" and "list_all candidate_ok base"
  shows "\<exists>a vs. fst (run_state (ProbeAndSwitch env e base activeID hint reason confidence) s) = Return a
    \<and> switch_outcome vs a s (snd (run_state (ProbeAndSwitch env e base activeID hint reason confidence) s))
    \<and> length vs \<le> nat (max_attempts (en_cfg e))"
proof (cases "base = []")
  case True
  then show ?thesis
    by (intro exI [of _ "[]"]) (simp add: ProbeAndSwitch_def switch_outcome_def tried_def)
next
  case False
  let ?pool = "candidate_pool env (en_cfg e) (sw_learned s) (sw_ai s) (clock (sw_world s)) base
    hint reason confidence"
  let ?w1 = "final (parallelProbe env (en_cfg e) activeID ?pool) (sw_world s)"
  obtain rs where rs: "result (parallelProbe env (en_cfg e) activeID ?pool) (sw_world s) = Return rs"
      "list_all (\<lambda>r. candidate_ok (pr_tc r)) rs"
    using parallelProbe_Return [OF assms(1) pool_candidate_ok [OF assms(2)]] by blast
  let ?s1 = "s\<lparr>sw_world := final (tear_down env (en_cfg e) activeID rs) ?w1,
     sw_db := record_results rs (sw_db s)\<rparr>"
  note torn = tear_down_Return [OF rs(2), of env "en_cfg e" activeID ?w1]
  let ?fb = "if viable_of rs \<noteq> [] then State_Monad.return (Return (viable_of rs))
    else ai_fallback env e activeID base hint reason confidence"
  obtain vs where vs: "fst (run_state ?fb ?s1) = Return vs" "list_all candidate_ok vs"
      "sw_machine (snd (run_state ?fb ?s1)) = sw_machine s"
      "sw_learned (snd (run_state ?fb ?s1)) = sw_learned s"
      "m_attempts (sw_ai (snd (run_state ?fb ?s1))) = m_attempts (sw_ai s)"
    using ai_fallback_outcome [OF assms, of e activeID hint reason confidence ?s1] viable_of_ok [OF rs(2)]
    by (cases "viable_of rs = []") auto
  have eq: "run_state (ProbeAndSwitch env e base activeID hint reason confidence) s
      = run_state (if vs = [] then State_Monad.return (Return []) else apply_best env e hint reason vs)
          (snd (run_state ?fb ?s1))"
    using False rs(1) torn vs(1) by (simp add: ProbeAndSwitch_def Let_def)
  show ?thesis
  proof (cases "vs = []")
    case True
    with vs show ?thesis
      unfolding eq by (intro exI [of _ "[]"]) (simp add: switch_outcome_def tried_def)
  next
    case False
    obtain a us where us: "fst (run_state (apply_best env e hint reason vs) (snd (run_state ?fb ?s1))) = Return a"
        "switch_outcome us a (snd (run_state ?fb ?s1))
           (snd (run_state (apply_best env e hint reason vs) (snd (run_state ?fb ?s1))))"
        "length us \<le> nat (max_attempts (en_cfg e))"
      using apply_best_outcome [OF assms(1) vs(2)] by blast
    note out = switch_outcome_frame [OF us(2) vs(3-5)]
    show ?thesis
      by (intro exI [of _ a] exI [of _ us] conjI; simp only: eq False if_False us(1,3) out)
  qed
qed

section \<open>When everything works\<close>

text \<open>A system on which every call succeeds, and networks on which every round of probes does.\<close>

definition all_succeed :: "'f os \<Rightarrow> bool" where
  "all_succeed os \<longleftrightarrow> (\<forall>h c. reply_err (answer os h c) = None)"

definition probes_succeed :: "sw_env \<Rightarrow> DaemonConfig \<Rightarrow> bool" where
  "probes_succeed env cfg \<longleftrightarrow> (\<forall>who fwmark w. \<exists>a.
     result (probe_round env cfg who fwmark) w = Return a \<and> a_Success a)"

lemma all_succeedD: "all_succeed os \<Longrightarrow> reply_err (answer os h c) = None"
  by (simp add: all_succeed_def)

lemma poll_succeeds: "all_succeed os \<Longrightarrow> clock w < deadline \<Longrightarrow> fst (poll os deadline p w)"
  by (simp add: poll.simps [of os _ p] all_succeedD)

lemma second_pos [simp]: "0 < second"
  by (simp add: unit_defs)

lemma write_file_succeeds: "all_succeed os \<Longrightarrow> result (write_file os path content) w = Inr path"
  by (simp add: write_file_def all_succeed_def)

lemma start_proc_succeeds: "all_succeed os \<Longrightarrow> \<exists>pid. result (start_proc os name args) w = Inr pid"
proof -
  assume ok: "all_succeed os"
  then have "reply_err (answer os (calls w) (Start name args)) = None" by (simp add: all_succeed_def)
  then show ?thesis by (cases "answer os (calls w) (Start name args)") (simp_all add: start_proc_def)
qed

lemma quick_up_succeeds:
  assumes "all_succeed os"
  shows "result (quick_up os quick label confPath iface) w = None"
  by (simp add: quick_up_def waitForInterface_def interfaceExists_def all_succeedD [OF assms]
      poll_succeeds [OF assms])

lemma setupRouting_succeeds: "all_succeed os \<Longrightarrow> result (setupRouting os port tableID fwmark) w = None"
  by (simp add: setupRouting_def all_succeed_def)

lemma Up_succeeds:
  assumes "all_succeed os" and "candidate_ok tc" and "ForConfig tc cfg = Inr mgr"
  shows "result (Up os mgr tc) w = None"
proof (cases "Protocol tc")
  case ProtocolWireGuard
  with assms obtain wgc where "WireGuard tc = Some wgc" "mgr = WGManager cfg"
    by (auto simp: candidate_ok_iff ForConfig_def)
  then show ?thesis
    by (simp add: wg_Up_def wg_writeConf_def Let_def all_succeedD [OF assms(1)]
        write_file_succeeds [OF assms(1)] quick_up_succeeds [OF assms(1)])
next
  case ProtocolAmneziaWG
  with assms obtain awg where "AmneziaWG tc = Some awg" "mgr = AWGManager cfg"
    by (auto simp: candidate_ok_iff ForConfig_def)
  with assms(1) show ?thesis
    by (simp add: awg_Up_def awg_writeConf_def write_file_succeeds quick_up_succeeds)
next
  case ProtocolVLESS
  with assms obtain v where v: "VLESS tc = Some v" "mgr = VLESSManager cfg"
    by (auto simp: candidate_ok_iff ForConfig_def)
  let ?w = "final (vless_writeConf os tc v (localPort tc v)) (final (killProc os (ID tc)) w)"
  obtain pid where "result (start_proc os (if SingBoxBin cfg = [] then ''sing-box'' else SingBoxBin cfg)
      [''run'', ''-c'', vless_confPath tc]) ?w = Inr pid"
    using start_proc_succeeds [OF assms(1)] by blast
  with v assms(1) show ?thesis
    by (simp add: vless_Up_def vless_writeConf_def write_file_succeeds setupRouting_succeeds
        waitForPort_def poll_succeeds Let_def)
next
  case (OtherProtocol p)
  with assms(2) show ?thesis by (simp add: candidate_ok_iff)
qed

lemma ForConfig_ok: "candidate_ok tc \<Longrightarrow> \<exists>mgr. ForConfig tc cfg = Inr mgr"
  by (simp add: candidate_ok_iff ForConfig_def split: Protocol.splits)

lemma probeConfig_works:
  assumes "all_succeed (env_os env)" and "probes_succeed env cfg" and "candidate_ok tc"
  shows "\<exists>r. result (probeConfig env cfg activeID tc) w = Return r \<and> pr_err r = None
     \<and> a_Success (pr_res r) \<and> candidate_ok (pr_tc r)"
proof -
  let ?tc = "probe_interface activeID tc"
  have ok: "candidate_ok ?tc" using assms(3) by simp
  obtain mgr where mgr: "ForConfig ?tc cfg = Inr mgr" using ForConfig_ok [OF ok] by blast
  let ?up = "if ID tc \<noteq> activeID then up_and_settle env mgr ?tc else State_Monad.return (Return None)"
  have up: "result ?up w = Return None"
    by (simp add: up_and_settle_def Up_succeeds [OF assms(1) ok mgr] all_succeedD [OF assms(1)])
  obtain a where "result (probe_round env cfg (ID tc) (FWMark ?tc)) (final ?up w) = Return a" "a_Success a"
    using assms(2) unfolding probes_succeed_def by blast
  with mgr up ok show ?thesis by (simp add: probeConfig_def Let_def)
qed

lemma parallelProbe_works:
  assumes "all_succeed (env_os env)" and "probes_succeed env cfg" and "list_all candidate_ok tcs"
  shows "\<exists>rs. result (parallelProbe env cfg activeID tcs) w = Return rs \<and> length rs = length tcs
     \<and> list_all (\<lambda>r. pr_err r = None \<and> a_Success (pr_res r) \<and> candidate_ok (pr_tc r)) rs"
  using assms(3)
proof (induction tcs arbitrary: w)
  case (Cons tc tcs)
  let ?w = "final (probeConfig env cfg activeID tc) w"
  obtain r where "result (probeConfig env cfg activeID tc) w = Return r" "pr_err r = None"
      "a_Success (pr_res r)" "candidate_ok (pr_tc r)"
    using probeConfig_works [OF assms(1,2)] Cons.prems by (metis list.pred_inject(2))
  moreover obtain rs where "result (parallelProbe env cfg activeID tcs) ?w = Return rs"
      "length rs = length tcs"
      "list_all (\<lambda>r. pr_err r = None \<and> a_Success (pr_res r) \<and> candidate_ok (pr_tc r)) rs"
    using Cons.IH [of ?w] Cons.prems by auto
  ultimately show ?case by simp
qed simp

lemma try_configs_works:
  assumes "all_succeed (env_os env)" and "probes_succeed env (en_cfg e)" and "candidate_ok tc"
  shows "fst (run_state (try_configs env e n hint reason (tc # tcs)) s) = Return (ID tc)
    \<and> current (sw_machine (snd (run_state (try_configs env e n hint reason (tc # tcs)) s))) = StateHealthy
    \<and> activeConfigID (sw_machine (snd (run_state (try_configs env e n hint reason (tc # tcs)) s))) = ID tc"
proof -
  obtain mgr where mgr: "ForConfig tc (en_cfg e) = Inr mgr" using ForConfig_ok [OF assms(3)] by blast
  have applied: "result (apply_config env e tc) w = None" for w
    by (simp add: apply_config_def mgr Up_succeeds [OF assms(1,3) mgr])
  have verify: "result (verify env e) w = Return True" for w
  proof -
    let ?w = "do_call (env_os env) (After (3 * second)) w"
    obtain a where "result (probe_round env (en_cfg e) [] 0) ?w = Return a" "a_Success a"
      using assms(2) unfolding probes_succeed_def by blast
    then show ?thesis by (simp add: verify_def all_succeedD [OF assms(1)])
  qed
  show ?thesis by (simp add: applied verify switched_to_fields(1))
qed

lemma ProbeAndSwitch_works:
  assumes "base \<noteq> []" and "list_all candidate_ok base"
    and "all_succeed (env_os env)" and "probes_succeed env (en_cfg e)"
  shows "\<exists>a. fst (run_state (ProbeAndSwitch env e base activeID hint reason confidence) s) = Return a
    \<and> a \<noteq> []
    \<and> current (sw_machine (snd (run_state (ProbeAndSwitch env e base activeID hint reason confidence) s)))
        = StateHealthy
    \<and> activeConfigID (sw_machine (snd (run_state (ProbeAndSwitch env e base activeID hint reason confidence) s)))
        = a"
proof -
  let ?pool = "candidate_pool env (en_cfg e) (sw_learned s) (sw_ai s) (clock (sw_world s)) base
    hint reason confidence"
  let ?w1 = "final (parallelProbe env (en_cfg e) activeID ?pool) (sw_world s)"
  have ne: "?pool \<noteq> []" using assms(1) by (simp add: candidate_pool_def Let_def)
  obtain rs where rs: "result (parallelProbe env (en_cfg e) activeID ?pool) (sw_world s) = Return rs"
      "length rs = length ?pool"
      "list_all (\<lambda>r. pr_err r = None \<and> a_Success (pr_res r) \<and> candidate_ok (pr_tc r)) rs"
    using parallelProbe_works [OF assms(3,4) pool_candidate_ok [OF assms(2)]] by blast
  then have torn: "result (tear_down env (en_cfg e) activeID rs) ?w1 = Return ()"
    by (intro tear_down_Return) (auto simp: list_all_iff)
  have "rs \<noteq> []" using rs(2) ne by auto
  with rs(3) have v: "viable_of rs \<noteq> []" "list_all candidate_ok (viable_of rs)"
    by (cases rs; auto simp: viable_of_def list_all_iff)+
  let ?s1 = "s\<lparr>sw_world := final (tear_down env (en_cfg e) activeID rs) ?w1,
     sw_db := record_results rs (sw_db s)\<rparr>"
  have "0 < nat (max_attempts (en_cfg e))" by (simp add: max_attempts_def)
  moreover have "length (Rank (sw_db ?s1) (viable_of rs)) = length (viable_of rs)" by (rule rk.rank_length)
  ultimately obtain tc tcs where tcs: "take (nat (max_attempts (en_cfg e)))
      (Rank (sw_db ?s1) (viable_of rs)) = tc # tcs"
    using v(1) by (cases "take (nat (max_attempts (en_cfg e))) (Rank (sw_db ?s1) (viable_of rs))") auto
  then have "tc \<in> set (Rank (sw_db ?s1) (viable_of rs))" by (metis in_set_takeD list.set_intros(1))
  then have tc: "candidate_ok tc" using v(2) by (simp add: rk.rank_set list_all_iff)
  have "run_state (ProbeAndSwitch env e base activeID hint reason confidence) s
      = run_state (try_configs env e (max_attempts (en_cfg e)) hint reason (tc # tcs)) ?s1"
    using assms(1) rs(1) torn v(1) tcs
    by (simp add: ProbeAndSwitch_def apply_best_def Let_def del: try_configs.simps)
  moreover have "ID tc \<noteq> []" using tc by (simp add: candidate_ok_iff)
  ultimately show ?thesis
    using try_configs_works [OF assms(3,4) tc, of "max_attempts (en_cfg e)" hint reason tcs ?s1]
    by (intro exI [of _ "ID tc"]) simp
qed

section \<open>Properties\<close>

text \<open>
  C3: what a switch does. Given that resolvers answer a lookup with an address or an error and
  that the configurations are those \<open>LoadAll\<close> has checked, a switch never panics. It returns
  the id of the configuration it switched to, and the machine is healthy and active on it; or
  it returns nothing, the active configuration and what was learned are as before, and the
  machine is as it was or back in probing, never left in the middle of a switch.
\<close>

theorem switch_result:
  assumes "nets_ok env" and "list_all candidate_ok base"
  shows "\<exists>a. fst (run_state (ProbeAndSwitch env e base activeID hint reason confidence) s) = Return a
    \<and> (let s' = snd (run_state (ProbeAndSwitch env e base activeID hint reason confidence) s)
       in if a = [] then activeConfigID (sw_machine s') = activeConfigID (sw_machine s)
            \<and> sw_learned s' = sw_learned s
            \<and> (sw_machine s' = sw_machine s \<or> current (sw_machine s') = StateProbing)
          else current (sw_machine s') = StateHealthy \<and> activeConfigID (sw_machine s') = a
            \<and> switchAttempts (sw_machine s') = 0)"
  using ProbeAndSwitch_outcome [OF assms, of e activeID hint reason confidence s]
  by (auto simp: switch_outcome_def Let_def split: if_splits)

definition demo_cfg :: DaemonConfig where
  "demo_cfg = DefaultDaemonConfig\<lparr>ProbeRotateTargets := False,
     ProbeTargets := [zero_pt\<lparr>pt_Host := ''1.1.1.1'', pt_Type := ProbeICMP\<rparr>]\<rparr>"

definition demo_net :: net_env where
  "demo_net = \<lparr>ParseIP = Some, LookupHost = (\<lambda>h. Inl (DNSError False ''no such host'')),
     DoHQuery = (\<lambda>m e h. Inl (ErrText ''unreachable'')), DialTCP = (\<lambda>m a. None),
     HTTPHead = (\<lambda>m u h k. None), Elapsed = (\<lambda>t. second)\<rparr>"

definition demo_env :: sw_env where
  "demo_env =
     \<lparr>env_os = \<lparr>answer = (\<lambda>h c. case c of Start n a \<Rightarrow> Proc 7 | _ \<Rightarrow> Done), elapsed = (\<lambda>h c. 0)\<rparr>,
      env_policy = demo_policy_env, env_advisor = answering_env,
      env_net = (\<lambda>h who. ([], all_err_types, demo_net)), env_wait = (\<lambda>h. 0),
      env_draws = (\<lambda>i n. 0)\<rparr>"

definition demo_engine :: Engine where
  "demo_engine = \<lparr>en_cfg = demo_cfg, en_policy = demo_policy\<rparr>"

definition demo_state :: SwState where
  "demo_state =
     \<lparr>sw_db = NewDB NoFile True, sw_machine = New (JSON \<lparr>ps_Current = StateProbing,
        ps_ActiveConfigID = ''old'', ps_LastSwitch = 5\<rparr>) True,
      sw_learned = empty_learned, sw_ai = demo_manager, sw_world = idle_world\<rparr>"

lemma demo_env_ok:
  "nets_ok demo_env" "list_all candidate_ok [nl_vless]"
  by (simp_all add: nets_ok_def demo_env_def demo_net_def resolver_ok_def candidate_ok_iff nl_vless_def)

lemma switch_result_witness:
  "\<exists>a. fst (run_state (ProbeAndSwitch demo_env demo_engine [nl_vless] ''old'' BlockNone [] 0) demo_state)
     = Return a"
  using switch_result [OF demo_env_ok, of demo_engine "''old''" BlockNone "[]" 0 demo_state] by blast

text \<open>
  C7: how often a switch tries. The attempts a switch adds to the log are at most as many as
  the settings allow, or three; all but a last one failed, and the last one succeeded exactly
  when a configuration is returned, under whose id it is logged.
\<close>

theorem switch_tries_bounded:
  assumes "nets_ok env" and "list_all candidate_ok base"
  shows "\<exists>a. fst (run_state (ProbeAndSwitch env e base activeID hint reason confidence) s) = Return a
    \<and> tried (nat (if MaxSwitchAttempts (en_cfg e) \<le> 0 then 3 else MaxSwitchAttempts (en_cfg e))) a
        (m_attempts (sw_ai s))
        (m_attempts (sw_ai (snd (run_state
          (ProbeAndSwitch env e base activeID hint reason confidence) s))))"
proof -
  obtain a vs where "fst (run_state (ProbeAndSwitch env e base activeID hint reason confidence) s) = Return a"
      "switch_outcome vs a s (snd (run_state (ProbeAndSwitch env e base activeID hint reason confidence) s))"
      "length vs \<le> nat (max_attempts (en_cfg e))"
    using ProbeAndSwitch_outcome [OF assms] by blast
  then show ?thesis by (auto simp: switch_outcome_def max_attempts_def intro: tried_mono)
qed

lemma switch_tries_bounded_witness:
  "\<exists>a. tried 3 a (m_attempts (sw_ai demo_state)) (m_attempts (sw_ai (snd (run_state
     (ProbeAndSwitch demo_env demo_engine [nl_vless] ''old'' BlockNone [] 0) demo_state))))"
  using switch_tries_bounded [OF demo_env_ok, of demo_engine "''old''" BlockNone "[]" 0 demo_state]
  by (auto simp: demo_engine_def demo_cfg_def DefaultDaemonConfig_def)

text \<open>
  C8: a switch succeeds when something works. If every call to the system succeeds and every
  round of probes does, one switch from any state ends healthy on some configuration.
\<close>

theorem switch_succeeds:
  assumes "base \<noteq> []" and "list_all candidate_ok base"
    and "all_succeed (env_os env)" and "probes_succeed env (en_cfg e)"
  shows "\<exists>a. fst (run_state (ProbeAndSwitch env e base activeID hint reason confidence) s) = Return a
    \<and> a \<noteq> []
    \<and> current (sw_machine (snd (run_state (ProbeAndSwitch env e base activeID hint reason confidence) s)))
        = StateHealthy
    \<and> activeConfigID (sw_machine (snd (run_state (ProbeAndSwitch env e base activeID hint reason confidence) s)))
        = a"
  by (rule ProbeAndSwitch_works [OF assms])

lemma demo_env_works: "all_succeed (env_os demo_env)" "probes_succeed demo_env demo_cfg"
proof -
  show "all_succeed (env_os demo_env)"
    by (auto simp: all_succeed_def demo_env_def split: syscall.split)
  have "fl (1 / 2) < fl 1" using fl_quotient_half [of 1 1] by simp
  moreover have "fl 1 = 1" using fl_of_int [of 1] by simp
  ultimately show "probes_succeed demo_env demo_cfg"
    by (simp add: probes_succeed_def probe_round_def demo_env_def ProbeAll_def selectTargets_def
        demo_cfg_def probe_targets_def runProbe_def probeICMP_def lookupHost_def demo_net_def
        first_addr_def aggregate_def Let_def)
qed

lemma switch_succeeds_witness:
  "current (sw_machine (snd (run_state (ProbeAndSwitch demo_env demo_engine [nl_vless] ''old'' BlockNone [] 0)
     demo_state))) = StateHealthy"
  using switch_succeeds [of "[nl_vless]" demo_env demo_engine "''old''" BlockNone "[]" 0 demo_state]
    demo_env_ok demo_env_works
  by (simp add: demo_engine_def)

lemma only_probe_round [effect_intros]: "only P (probe_round env cfg who fwmark)"
  by (simp add: only_def)

lemma only_tear_down:
  assumes "list_all (\<lambda>r. pr_err r = None \<and> ID (pr_tc r) \<noteq> activeID
      \<longrightarrow> only P (tear_down_one env cfg (pr_tc r))) rs"
  shows "only P (tear_down env cfg activeID rs)"
  using assms
proof (induction rs)
  case (Cons r rs)
  then have ih: "only P (tear_down env cfg activeID rs)" by simp
  have "only P (case d of Panic p \<Rightarrow> State_Monad.return (Panic p) | Return _ \<Rightarrow> tear_down env cfg activeID rs)"
    for d :: "string option outcome"
    using ih by (cases d) (auto intro: effect_intros)
  with Cons.prems ih show ?case by (auto intro!: effect_intros)
qed (auto intro: effect_intros)

text \<open>
  The active configuration is left alone while the others are probed. Whatever holds of
  every call made to bring up, settle and take down the other candidates holds of every call
  of the probing phase and of the tear-down after it: the active configuration's own probe and
  its result cause none. Its interface keeps its name.
\<close>

theorem probing_spares_active:
  assumes "\<And>tc mgr. tc \<in> set tcs \<Longrightarrow> ID tc \<noteq> activeID
      \<Longrightarrow> ForConfig (probe_interface activeID tc) cfg = Inr mgr
      \<Longrightarrow> only P (up_and_settle env mgr (probe_interface activeID tc))"
    and "\<And>r. r \<in> set rs \<Longrightarrow> pr_err r = None \<Longrightarrow> ID (pr_tc r) \<noteq> activeID
      \<Longrightarrow> only P (tear_down_one env cfg (pr_tc r))"
  shows "only P (parallelProbe env cfg activeID tcs) \<and> only P (tear_down env cfg activeID rs)
    \<and> (ID tc = activeID \<longrightarrow> probe_interface activeID tc = tc)"
proof -
  have one: "only P (probeConfig env cfg activeID tc)" if "tc \<in> set tcs" for tc
  proof (cases "ForConfig (probe_interface activeID tc) cfg")
    case (Inr mgr)
    have "only P (case up of Panic p \<Rightarrow> State_Monad.return (Panic p)
        | Return (Some e) \<Rightarrow> State_Monad.return (Return (probe_failed (probe_interface activeID tc) e))
        | Return None \<Rightarrow> do {
            res \<leftarrow> probe_round env cfg (ID tc) (FWMark (probe_interface activeID tc));
            State_Monad.return (obind res (\<lambda>a. Return
              \<lparr>pr_tc = probe_interface activeID tc, pr_res = a, pr_err = None\<rparr>)) })" for up
      by (cases up; auto intro!: effect_intros split: option.split)
    then show ?thesis
      using assms(1) [OF that _ Inr] Inr
      by (auto simp: probeConfig_def Let_def intro!: effect_intros)
  qed (auto simp: probeConfig_def intro: effect_intros)
  then have "only P (parallelProbe env cfg activeID tcs)"
    by (induction tcs) (auto intro!: effect_intros)
  moreover have "only P (tear_down env cfg activeID rs)"
    using assms(2) by (intro only_tear_down) (simp add: list_all_iff)
  ultimately show ?thesis by (simp add: probe_interface_def)
qed

lemma probing_spares_active_witness:
  "only (\<lambda>c. False) (parallelProbe demo_env demo_cfg ''nl'' [nl_vless])"
proof -
  have "only (\<lambda>c. False) (parallelProbe demo_env demo_cfg ''nl'' [nl_vless])
      \<and> only (\<lambda>c. False) (tear_down demo_env demo_cfg ''nl'' [])
      \<and> (ID nl_vless = ''nl'' \<longrightarrow> probe_interface ''nl'' nl_vless = nl_vless)"
    by (rule probing_spares_active) (simp_all add: nl_vless_def)
  then show ?thesis by blast
qed

text \<open>
  The active tunnel survives the probing of the others. Whatever the candidates are, and
  also when some carry the active id, bringing them up, probing them and taking them down leaves
  the sing-box process kept for the active id what it was; and probing the active configuration
  itself makes no call to the system.
\<close>

theorem probing_keeps_active:
  "map_of (procMap (final (parallelProbe env cfg activeID tcs) w)) activeID = map_of (procMap w) activeID
   \<and> map_of (procMap (final (tear_down env cfg activeID rs) w)) activeID = map_of (procMap w) activeID
   \<and> calls (final (probeConfig env cfg (ID tc) tc) w) = calls w"
  by (simp add: parallelProbe_active tear_down_active probeConfig_of_active(1))

text \<open>
  The engine's copies of other code agree with it: the mark it clears the policy for is the
  mark the tunnel managers set, and its own reading of the profile, default and low confidence
  included, selects exactly what the strategy selector does from the setting as it is.
\<close>

theorem engine_copies_agree:
  "fwmarkFor tc = FWMark tc
   \<and> filterVariantsByProfile cfg variants hint reason confidence
       = SelectVariants (DPIProfile cfg) reason hint confidence variants"
  by (simp add: filterVariants_eq fwmarkFor_def FWMark_def fwmarkForTable_def routingTableID_def Let_def)

text \<open>
  The interface a candidate variant is probed on is \<open>vw\<close> and a number between 1000 and
  9999, short enough for the kernel, and is a function of its id alone: two variants with the
  same id, a learned one and a fresh one, are probed on the same interface.
\<close>

theorem probe_interface_names:
  assumes "ID tc \<noteq> activeID" and "IsVariant tc" and "InterfaceName tc \<noteq> []"
  shows "(\<exists>k. 1000 \<le> k \<and> k \<le> 9999
        \<and> InterfaceName (probe_interface activeID tc) = ''vw'' @ Itoa k)
    \<and> (ID tc' = ID tc \<and> IsVariant tc' \<and> InterfaceName tc' \<noteq> []
        \<longrightarrow> InterfaceName (probe_interface activeID tc') = InterfaceName (probe_interface activeID tc))"
proof -
  let ?h = "(rune_hash (ID tc) smod 9000 + 9000) smod 9000"
  have "0 \<le> ?h \<and> ?h < 9000" by (rule smod_fold_range) simp
  with assms show ?thesis
    by (auto simp: probe_interface_def Let_def intro!: exI [of _ "?h + 1000"])
qed

lemma probe_interface_names_witness:
  "\<exists>k. 1000 \<le> k \<and> k \<le> 9999 \<and> InterfaceName (probe_interface ''nl''
     (zero_tc\<lparr>ID := ''nl:dpi:mtu1280'', IsVariant := True, InterfaceName := ''wg0''\<rparr>)) = ''vw'' @ Itoa k"
  using probe_interface_names [of "zero_tc\<lparr>ID := ''nl:dpi:mtu1280'', IsVariant := True, InterfaceName := ''wg0''\<rparr>"
      "''nl''" zero_tc]
  by simp

end
