(* ===== verification/Watchdog_Loop.thy ===== *)
theory Watchdog_Loop
  imports Switch_Engine
begin

text \<open>
  The event loop of \<open>daemon/internal/watchdog/watchdog.go\<close>. \<open>Watchdog\<close> is the struct: the
  store and the probe engine hold nothing but the settings, and the scores, the machine, the
  learned variants and the advisor, which the switch engine shares, are \<open>w_sw\<close>. \<open>wd_env\<close> is the
  world at one event of the loop; an event is a tick, a signal or the end of the context, and
  the loop runs on a list of them in the order the \<open>select\<close> takes them.
\<close>

section \<open>The watchdog and its world\<close>

text \<open>
  The files the daemon reads when it starts: four in the state directory, by its name, and two
  that are kept across reboots. \<open>dk_writable\<close> says whether files in a directory can be written.
\<close>

record state_files =
  f_scores :: "Entry list json_file"
  f_machine :: "persistedState json_file"
  f_learned :: "LearnedEntry list json_file"
  f_detection :: "DetectionResult json_file"
  f_attempts :: "AttemptEntry list json_file"

record wd_disk =
  dk_state :: "string \<Rightarrow> state_files"
  dk_writable :: "string \<Rightarrow> bool"
  dk_learned :: "LearnedEntry list json_file"
  dk_presets :: "(string \<times> Preset) list json_file"
  dk_kept_writable :: bool

record wd_env =
  wd_sw :: sw_env
  wd_fs :: tunnel_fs
  wd_detect :: detect_env
  wd_detect_time :: nat
  wd_uci :: uci_env
  wd_lookPath :: "string \<Rightarrow> string res"

record Watchdog =
  w_cfg :: DaemonConfig
  w_eng :: Engine
  w_sw :: SwState
  lastDPIResult :: DetectionResult
  lastStateWasProbing :: bool
  w_detections :: "string \<Rightarrow> DetectionResult json_file"
  w_disk :: wd_disk

abbreviation w_machine :: "Watchdog \<Rightarrow> Machine" where
  "w_machine w \<equiv> sw_machine (w_sw w)"

abbreviation w_now :: "Watchdog \<Rightarrow> gotime" where
  "w_now w \<equiv> clock (sw_world (w_sw w))"

definition set_machine :: "Machine \<Rightarrow> Watchdog \<Rightarrow> Watchdog" where
  "set_machine m w = w\<lparr>w_sw := (w_sw w)\<lparr>sw_machine := m\<rparr>\<rparr>"

definition pass_time :: "nat \<Rightarrow> Watchdog \<Rightarrow> Watchdog" where
  "pass_time t w =
     w\<lparr>w_sw := (w_sw w)\<lparr>sw_world := (sw_world (w_sw w))\<lparr>clock := w_now w + int t\<rparr>\<rparr>\<rparr>"

definition in_sw :: "'a sw \<Rightarrow> Watchdog \<Rightarrow> 'a \<times> Watchdog" where
  "in_sw m w = (case run_state m (w_sw w) of (a, s) \<Rightarrow> (a, w\<lparr>w_sw := s\<rparr>))"

text \<open>\<open>switcher.New\<close>: the engine, and the advisor it makes for itself.\<close>

definition New_engine :: "(string \<Rightarrow> string res) \<Rightarrow> DaemonConfig \<Rightarrow> Engine" where
  "New_engine lookPath cfg = \<lparr>en_cfg = cfg, en_policy = New_policy lookPath cfg\<rparr>"

definition New_watchdog :: "wd_env \<Rightarrow> wd_disk \<Rightarrow> conf_file world \<Rightarrow> DaemonConfig \<Rightarrow> Watchdog" where
  "New_watchdog env disk world cfg =
     (let files = dk_state disk (StateDir cfg);
          rw = dk_writable disk (StateDir cfg)
      in \<lparr>w_cfg = cfg, w_eng = New_engine (wd_lookPath env) cfg,
          w_sw = \<lparr>sw_db = NewDB (f_scores files) rw,
                  sw_machine = State_Machine.New (f_machine files) rw,
                  sw_learned = NewLearnedDB (f_learned files) (dk_learned disk) rw
                    (dk_kept_writable disk),
                  sw_ai = NewManager (env_advisor (wd_sw env)) (clock world)
                    (NewAttemptLog (f_attempts files) rw 300)
                    (NewPresetStore (dk_presets disk) (dk_kept_writable disk)) cfg,
                  sw_world = world\<rparr>,
          lastDPIResult = (case LoadDetection (f_detection files) of
              (r, True) \<Rightarrow> r | (_, False) \<Rightarrow> zero_detection),
          lastStateWasProbing = False,
          w_detections = (\<lambda>dir. f_detection (dk_state disk dir)),
          w_disk = disk\<rparr>)"

section \<open>The handlers\<close>

definition doProbe :: "wd_env \<Rightarrow> Watchdog \<Rightarrow> Watchdog outcome" where
  "doProbe env w =
     (if current (w_machine w) = StateHealthy
         \<and> InCooldown (w_now w) (PostSwitchCooldown (w_cfg w)) (w_machine w)
      then Return w
      else case in_sw (on_world (probe_round (wd_sw env) (w_cfg w) [] 0)) w of
        (Panic p, _) \<Rightarrow> Panic p
      | (Return res, w) \<Rightarrow> Return
          (if a_Success res
           then (set_machine (RecordSuccess (DegradedThreshold (w_cfg w)) (w_machine w)) w)
                  \<lparr>lastStateWasProbing := False\<rparr>
           else set_machine (snd (RecordFailure (DegradedThreshold (w_cfg w))
                  (ProbingThreshold (w_cfg w)) (w_machine w))) w))"

definition detect_now :: "wd_env \<Rightarrow> Watchdog \<Rightarrow> Watchdog" where
  "detect_now env w =
     (let result = Detect ((wd_detect env)\<lparr>dt_now := w_now w\<rparr>) (ProbeTargets (w_cfg w)) 0;
          dir = StateDir (w_cfg w)
      in (pass_time (wd_detect_time env) w)
           \<lparr>lastDPIResult := result, lastStateWasProbing := True,
            w_detections := (w_detections w)(dir :=
              SaveDetection (dk_writable (w_disk w) dir) result (w_detections w dir))\<rparr>)"

definition dpi_hint :: "DetectionResult \<Rightarrow> BlockType" where
  "dpi_hint r = (if d_Confidence r < fl 0.6 then BlockNone else d_BlockType r)"

definition doSwitch :: "wd_env \<Rightarrow> Watchdog \<Rightarrow> Watchdog outcome" where
  "doSwitch env w =
     (let candidates = LoadAll (w_cfg w) (wd_fs env)
      in if candidates = [] then Return w
         else let w = (if \<not> lastStateWasProbing w then detect_now env w else w);
                  dpiResult = lastDPIResult w
              in case in_sw (ProbeAndSwitch (wd_sw env) (w_eng w) candidates
                     (activeConfigID (w_machine w)) (dpi_hint dpiResult)
                     (d_ReasonCode dpiResult) (d_Confidence dpiResult)) w of
                   (Panic p, _) \<Rightarrow> Panic p
                 | (Return appliedID, w) \<Rightarrow> Return
                     (if appliedID = [] then w else w\<lparr>lastStateWasProbing := False\<rparr>))"

definition tick :: "wd_env \<Rightarrow> Watchdog \<Rightarrow> Watchdog outcome" where
  "tick env w = (case current (w_machine w) of
       StateHealthy \<Rightarrow> doProbe env w
     | StateDegraded \<Rightarrow> doProbe env w
     | StateProbing \<Rightarrow> doSwitch env w
     | StateSwitching \<Rightarrow> Return w
     | OtherState _ \<Rightarrow> Return w)"

text \<open>
  A reload makes a new engine, and with it a new advisor, which reads its log of attempts from
  the new state directory and its presets from their file.
\<close>

definition reload_attempts :: "DaemonConfig \<Rightarrow> Watchdog \<Rightarrow> AttemptLog" where
  "reload_attempts cfg w =
     (let old = m_attempts (sw_ai (w_sw w)); dir = StateDir cfg
      in if dir = StateDir (w_cfg w) then NewAttemptLog (al_file old) (al_writable old) 300
         else NewAttemptLog (f_attempts (dk_state (w_disk w) dir)) (dk_writable (w_disk w) dir) 300)"

definition reload_advisor :: "wd_env \<Rightarrow> DaemonConfig \<Rightarrow> Watchdog \<Rightarrow> AIManager" where
  "reload_advisor env cfg w =
     (let ps = m_presets (sw_ai (w_sw w))
      in NewManager (env_advisor (wd_sw env)) (w_now w) (reload_attempts cfg w)
           (NewPresetStore (ps_file ps) (ps_writable ps)) cfg)"

definition reload :: "wd_env \<Rightarrow> Watchdog \<Rightarrow> Watchdog outcome" where
  "reload env w = obind (LoadDaemonConfigFromUCI (wd_uci env)) (\<lambda>cfg.
     Return (w\<lparr>w_cfg := cfg, w_eng := New_engine (wd_lookPath env) cfg,
       w_sw := (w_sw w)\<lparr>sw_ai := reload_advisor env cfg w\<rparr>\<rparr>))"

definition probeInterval :: "Watchdog \<Rightarrow> duration" where
  "probeInterval w = (case current (w_machine w) of
       StateDegraded \<Rightarrow> ProbeIntervalDegraded (w_cfg w)
     | StateProbing \<Rightarrow> 5 * second
     | StateSwitching \<Rightarrow> 5 * second
     | _ \<Rightarrow> ProbeIntervalHealthy (w_cfg w))"

section \<open>The loop\<close>

datatype event =
    Tick nat wd_env
  | Hangup wd_env
  | Terminate
  | Cancelled string

datatype run_end = Waiting | Ended "string option"

text \<open>
  \<open>Tick t env\<close> comes \<open>t\<close> nanoseconds after the last handler returned. When the list is at its
  end the loop waits for the next event. \<open>NewTicker\<close> and \<open>Reset\<close> panic unless the interval
  is positive.
\<close>

definition checked :: "string \<Rightarrow> Watchdog \<Rightarrow> Watchdog outcome" where
  "checked name w =
     (if probeInterval w \<le> 0 then Panic (''non-positive interval for '' @ name) else Return w)"

fun loop_events :: "event list \<Rightarrow> Watchdog \<Rightarrow> (Watchdog \<times> run_end) outcome" where
  "loop_events [] w = Return (w, Waiting)"
| "loop_events (Tick t env # es) w =
     obind (tick env (pass_time t w)) (\<lambda>w. obind (checked ''Ticker.Reset'' w) (loop_events es))"
| "loop_events (Hangup env # es) w = obind (reload env w) (loop_events es)"
| "loop_events (Terminate # es) w = Return (w, Ended None)"
| "loop_events (Cancelled err # es) w = Return (w, Ended (Some err))"

definition Run_watchdog :: "event list \<Rightarrow> Watchdog \<Rightarrow> (Watchdog \<times> run_end) outcome" where
  "Run_watchdog es w = obind (checked ''NewTicker'' w) (loop_events es)"

section \<open>The status snapshot\<close>

fun State_text :: "State \<Rightarrow> string" where
  "State_text StateHealthy = ''HEALTHY''"
| "State_text StateDegraded = ''DEGRADED''"
| "State_text StateProbing = ''PROBING''"
| "State_text StateSwitching = ''SWITCHING''"
| "State_text (OtherState s) = s"

record Status =
  st_State :: string
  st_ActiveConfigID :: string
  st_LastSwitch :: gotime
  st_ConsecFails :: int
  st_ScoreEntries :: "Entry list"
  st_DPIBlockType :: string
  st_DPIReasonCode :: string
  st_DPIConfidence :: float64
  st_DPIEvidence :: "string list"
  st_DPIStages :: "StageResult list"
  st_DPITestedAt :: gotime
  st_LearnedCount :: nat
  st_VPNDomains :: "string list"
  st_VPNIPs :: "string list"
  st_VPNDomainFiles :: "string list"
  st_AIStatus :: AIStatus

definition watchdog_status :: "Watchdog \<Rightarrow> Status" where
  "watchdog_status w =
     (let m = w_machine w; r = lastDPIResult w; s = w_sw w; cfg = w_cfg w
      in \<lparr>st_State = State_text (current m), st_ActiveConfigID = activeConfigID m,
          st_LastSwitch = lastSwitch m, st_ConsecFails = consecutiveFails m,
          st_ScoreEntries = map snd (sc_entries (sw_db s)),
          st_DPIBlockType = BlockType_String (d_BlockType r), st_DPIReasonCode = d_ReasonCode r,
          st_DPIConfidence = d_Confidence r, st_DPIEvidence = d_Evidence r,
          st_DPIStages = d_StageResults r, st_DPITestedAt = d_TestedAt r,
          st_LearnedCount = CountLearned (sw_learned s), st_VPNDomains = VPNDomains cfg,
          st_VPNIPs = VPNIPs cfg, st_VPNDomainFiles = VPNDomainFiles cfg,
          st_AIStatus = ManagerStatus (sw_ai s)\<rparr>)"

section \<open>One tick\<close>

lemma in_sw_run [simp]:
  "in_sw m w = (fst (run_state m (w_sw w)), w\<lparr>w_sw := snd (run_state m (w_sw w))\<rparr>)"
  by (simp add: in_sw_def case_prod_beta)

lemma set_machine_fields [simp]:
  "w_machine (set_machine m w) = m"
  "w_cfg (set_machine m w) = w_cfg w" "w_eng (set_machine m w) = w_eng w"
  "w_now (set_machine m w) = w_now w"
  "lastStateWasProbing (set_machine m w) = lastStateWasProbing w"
  "lastDPIResult (set_machine m w) = lastDPIResult w"
  by (simp_all add: set_machine_def)

lemma pass_time_fields [simp]:
  "w_machine (pass_time t w) = w_machine w" "w_now (pass_time t w) = w_now w + int t"
  "w_cfg (pass_time t w) = w_cfg w" "w_eng (pass_time t w) = w_eng w"
  "lastStateWasProbing (pass_time t w) = lastStateWasProbing w"
  "lastDPIResult (pass_time t w) = lastDPIResult w"
  "w_disk (pass_time t w) = w_disk w" "w_detections (pass_time t w) = w_detections w"
  "calls (sw_world (w_sw (pass_time t w))) = calls (sw_world (w_sw w))"
  by (simp_all add: pass_time_def)

lemma detect_now_fields [simp]:
  "w_machine (detect_now env w) = w_machine w" "w_cfg (detect_now env w) = w_cfg w"
  "w_eng (detect_now env w) = w_eng w" "lastStateWasProbing (detect_now env w)"
  "lastDPIResult (detect_now env w)
     = Detect ((wd_detect env)\<lparr>dt_now := w_now w\<rparr>) (ProbeTargets (w_cfg w)) 0"
  "w_detections (detect_now env w) = (w_detections w)(StateDir (w_cfg w) :=
     SaveDetection (dk_writable (w_disk w) (StateDir (w_cfg w)))
       (Detect ((wd_detect env)\<lparr>dt_now := w_now w\<rparr>) (ProbeTargets (w_cfg w)) 0)
       (w_detections w (StateDir (w_cfg w))))"
  by (simp_all add: detect_now_def Let_def)

text \<open>The outcome of the round of probes a tick makes through the active tunnel.\<close>

definition probe_verdict :: "wd_env \<Rightarrow> Watchdog \<Rightarrow> bool" where
  "probe_verdict env w =
     (case result (probe_round (wd_sw env) (w_cfg w) [] 0) (sw_world (w_sw w)) of
        Panic _ \<Rightarrow> False | Return a \<Rightarrow> a_Success a)"

definition resting :: "Watchdog \<Rightarrow> bool" where
  "resting w \<longleftrightarrow> current (w_machine w) = StateHealthy
     \<and> InCooldown (w_now w) (PostSwitchCooldown (w_cfg w)) (w_machine w)"

lemma doProbe_rests: "resting w \<Longrightarrow> doProbe env w = Return w"
  by (simp add: doProbe_def resting_def)

lemma clock_probe_round: "clock w \<le> clock (final (probe_round env cfg who fwmark) w)"
  by (simp add: probe_round_def split: prod.split)

lemma doProbe_probes:
  assumes "nets_ok (wd_sw env)" and "\<not> resting w"
  shows "\<exists>w'. doProbe env w = Return w' \<and> w_cfg w' = w_cfg w \<and> w_eng w' = w_eng w
    \<and> w_now w \<le> w_now w' \<and> (lastStateWasProbing w' \<longrightarrow> lastStateWasProbing w)
    \<and> w_machine w' = machine_step (probe_event (DegradedThreshold (w_cfg w))
        (ProbingThreshold (w_cfg w)) (probe_verdict env w)) (w_machine w)"
proof -
  obtain a where "result (probe_round (wd_sw env) (w_cfg w) [] 0) (sw_world (w_sw w)) = Return a"
    using probe_round_Return [OF assms(1)] by blast
  then show ?thesis
    unfolding doProbe_def if_not_P [OF assms(2) [unfolded resting_def]]
    by (cases "a_Success a")
      (simp_all add: probe_verdict_def probe_event_def clock_probe_round)
qed

lemma LoadAll_candidates: "list_all candidate_ok (LoadAll cfg fs)"
  by (auto simp: LoadAll_def list_all_iff candidate_ok_def validate_iff
      dest: loadFile_wf [OF sym] split: sum.splits if_splits)

text \<open>A tick in probing that has a configuration to try.\<close>

definition diagnosed :: "wd_env \<Rightarrow> Watchdog \<Rightarrow> Watchdog" where
  "diagnosed env w = (if \<not> lastStateWasProbing w then detect_now env w else w)"

definition switch_call :: "wd_env \<Rightarrow> Watchdog \<Rightarrow> string outcome sw" where
  "switch_call env w =
     (let r = lastDPIResult w
      in ProbeAndSwitch (wd_sw env) (w_eng w) (LoadAll (w_cfg w) (wd_fs env))
           (activeConfigID (w_machine w)) (dpi_hint r) (d_ReasonCode r) (d_Confidence r))"

lemma diagnosed_fields [simp]:
  "w_machine (diagnosed env w) = w_machine w" "w_cfg (diagnosed env w) = w_cfg w"
  "w_eng (diagnosed env w) = w_eng w" "lastStateWasProbing (diagnosed env w)"
  by (simp_all add: diagnosed_def)

lemma doSwitch_eq:
  assumes "LoadAll (w_cfg w) (wd_fs env) \<noteq> []"
    and "run_state (switch_call env (diagnosed env w)) (w_sw (diagnosed env w)) = (Return a, s)"
  shows "doSwitch env w = Return ((diagnosed env w)\<lparr>w_sw := s, lastStateWasProbing := (a = [])\<rparr>)"
proof -
  have "(diagnosed env w)\<lparr>w_sw := s, lastStateWasProbing := (a = [])\<rparr>
      = (if a = [] then (diagnosed env w)\<lparr>w_sw := s\<rparr>
         else (diagnosed env w)\<lparr>w_sw := s, lastStateWasProbing := False\<rparr>)"
    by (cases "a = []") (simp_all add: Watchdog.equality)
  moreover have "doSwitch env w = (case in_sw (switch_call env (diagnosed env w)) (diagnosed env w) of
      (Panic p, _) \<Rightarrow> Panic p
    | (Return a, w) \<Rightarrow> Return (if a = [] then w else w\<lparr>lastStateWasProbing := False\<rparr>))"
    by (simp only: doSwitch_def switch_call_def diagnosed_fields(2) Let_def if_not_P [OF assms(1)]
        flip: diagnosed_def)
  ultimately show ?thesis using assms(2) by simp
qed

lemma doSwitch_outcome:
  assumes "nets_ok (wd_sw env)" and "LoadAll (w_cfg w) (wd_fs env) \<noteq> []"
  shows "\<exists>a s vs. doSwitch env w
      = Return ((diagnosed env w)\<lparr>w_sw := s, lastStateWasProbing := (a = [])\<rparr>)
    \<and> switch_outcome vs a (w_sw (diagnosed env w)) s"
proof -
  let ?w = "diagnosed env w"
  obtain a vs where "fst (run_state (switch_call env ?w) (w_sw ?w)) = Return a"
      "switch_outcome vs a (w_sw ?w) (snd (run_state (switch_call env ?w) (w_sw ?w)))"
    using ProbeAndSwitch_outcome [OF assms(1) LoadAll_candidates]
    unfolding switch_call_def Let_def by blast
  moreover from this(1) have "run_state (switch_call env ?w) (w_sw ?w)
      = (Return a, snd (run_state (switch_call env ?w) (w_sw ?w)))" by (simp add: prod_eq_iff)
  ultimately show ?thesis using doSwitch_eq [OF assms(2)] by metis
qed

section \<open>The invariant of the loop\<close>

text \<open>
  Between two events the machine is healthy, degraded or probing, a diagnosis is only held for
  the outage it was made for, and the intervals are ones a ticker takes.
\<close>

definition settings_tick :: "DaemonConfig \<Rightarrow> bool" where
  "settings_tick cfg \<longleftrightarrow> 0 < ProbeIntervalHealthy cfg \<and> 0 < ProbeIntervalDegraded cfg"

definition steady :: "Watchdog \<Rightarrow> bool" where
  "steady w \<longleftrightarrow> current (w_machine w) \<in> {StateHealthy, StateDegraded, StateProbing}
     \<and> (lastStateWasProbing w \<longrightarrow> current (w_machine w) = StateProbing)
     \<and> settings_tick (w_cfg w)"

fun event_ok :: "event \<Rightarrow> bool" where
  "event_ok (Tick t env) = nets_ok (wd_sw env)"
| "event_ok (Hangup env) = (case LoadDaemonConfigFromUCI (wd_uci env) of
     Panic _ \<Rightarrow> False | Return cfg \<Rightarrow> settings_tick cfg)"
| "event_ok Terminate = True"
| "event_ok (Cancelled err) = True"

lemma steady_interval: "steady w \<Longrightarrow> 0 < probeInterval w"
  by (auto simp: steady_def settings_tick_def probeInterval_def)

lemma steady_checked: "steady w \<Longrightarrow> checked name w = Return w"
  using steady_interval by (fastforce simp: checked_def)

lemma steady_pass_time [simp]: "steady (pass_time t w) = steady w"
  by (simp add: steady_def)

lemma probe_event_state:
  assumes "current m \<in> {StateHealthy, StateDegraded}"
  shows "current (machine_step (probe_event d p b) m) \<in> {StateHealthy, StateDegraded, StateProbing}"
proof -
  have "edge (current m) (current (machine_step (probe_event d p b) m))"
    using probe_event_edge(1) [of m d] probe_event_edge(2) [of m d p] by (simp add: probe_event_def)
  with assms show ?thesis by (auto simp: edge_iff)
qed

lemma tick_steady:
  assumes "steady w" and "nets_ok (wd_sw env)"
  shows "\<exists>w'. tick env w = Return w' \<and> steady w'"
proof (cases "current (w_machine w) = StateProbing")
  case True
  show ?thesis
  proof (cases "LoadAll (w_cfg w) (wd_fs env) = []")
    case False
    from doSwitch_outcome [OF assms(2) this] obtain a s vs where
      "doSwitch env w = Return ((diagnosed env w)\<lparr>w_sw := s, lastStateWasProbing := (a = [])\<rparr>)"
      "switch_outcome vs a (w_sw (diagnosed env w)) s" by blast
    with True assms(1) show ?thesis
      by (auto simp: tick_def steady_def switch_outcome_def split: if_splits)
  qed (use True assms(1) in \<open>simp add: tick_def doSwitch_def\<close>)
next
  case False
  with assms(1) have st: "current (w_machine w) \<in> {StateHealthy, StateDegraded}"
      "\<not> lastStateWasProbing w" "settings_tick (w_cfg w)" by (auto simp: steady_def)
  then have tick: "tick env w = doProbe env w" by (auto simp: tick_def)
  show ?thesis
  proof (cases "resting w")
    case False
    from doProbe_probes [OF assms(2) this] obtain w' where w': "doProbe env w = Return w'"
        "w_cfg w' = w_cfg w" "lastStateWasProbing w' \<longrightarrow> lastStateWasProbing w"
        "w_machine w' = machine_step (probe_event (DegradedThreshold (w_cfg w))
          (ProbingThreshold (w_cfg w)) (probe_verdict env w)) (w_machine w)" by blast
    then have "steady w'" using st probe_event_state [OF st(1)] by (simp add: steady_def)
    with tick w'(1) show ?thesis by simp
  qed (use tick assms(1) doProbe_rests in simp)
qed

lemma reload_Return:
  "LoadDaemonConfigFromUCI (wd_uci env) = Return cfg \<Longrightarrow>
     reload env w = Return (w\<lparr>w_cfg := cfg, w_eng := New_engine (wd_lookPath env) cfg,
       w_sw := (w_sw w)\<lparr>sw_ai := reload_advisor env cfg w\<rparr>\<rparr>)"
  by (simp add: reload_def)

lemma reload_steady:
  assumes "steady w" and "event_ok (Hangup env)"
  shows "\<exists>w'. reload env w = Return w' \<and> steady w'"
proof -
  obtain cfg where cfg: "LoadDaemonConfigFromUCI (wd_uci env) = Return cfg" "settings_tick cfg"
    using assms(2) by (auto split: outcome.splits)
  with assms(1) show ?thesis by (auto simp: reload_Return [OF cfg(1)] steady_def)
qed

lemma loop_steady:
  assumes "steady w" and "list_all event_ok es"
  shows "\<exists>w' e. loop_events es w = Return (w', e) \<and> steady w'"
  using assms
proof (induction es arbitrary: w)
  case (Cons ev es)
  show ?case
  proof (cases ev)
    case (Tick t env)
    with Cons.prems obtain w' where w': "tick env (pass_time t w) = Return w'" "steady w'"
      using tick_steady [of "pass_time t w" env] by auto
    moreover have "checked ''Ticker.Reset'' w' = Return w'" by (rule steady_checked [OF w'(2)])
    ultimately show ?thesis using Tick Cons by simp
  next
    case (Hangup env)
    with Cons.prems obtain w' where "reload env w = Return w'" "steady w'"
      using reload_steady [of w env] by auto
    then show ?thesis using Hangup Cons by simp
  qed (use Cons.prems in simp_all)
qed simp

section \<open>Outages\<close>

text \<open>A network on which every round of probes ends without success.\<close>

definition probes_fail :: "sw_env \<Rightarrow> DaemonConfig \<Rightarrow> bool" where
  "probes_fail env cfg \<longleftrightarrow> (\<forall>who fwmark w. \<exists>a.
     result (probe_round env cfg who fwmark) w = Return a \<and> \<not> a_Success a)"

definition ticks :: "(nat \<times> wd_env) list \<Rightarrow> event list" where
  "ticks tes = map (\<lambda>(t, env). Tick t env) tes"

lemma ticks_simps [simp]:
  "ticks [] = []" "ticks ((t, env) # tes) = Tick t env # ticks tes"
  "ticks (tes @ us) = ticks tes @ ticks us"
  by (simp_all add: ticks_def)

lemma loop_ticks_append:
  "loop_events (ticks tes @ es) w = obind (loop_events (ticks tes) w) (\<lambda>(w, _). loop_events es w)"
proof (induction tes arbitrary: w)
  case (Cons te tes)
  obtain t env where te: "te = (t, env)" by (cases te)
  show ?case
  proof (cases "tick env (pass_time t w)")
    case (Return w')
    then show ?thesis
      by (cases "checked ''Ticker.Reset'' w'") (simp_all add: te Cons.IH)
  qed (simp add: te)
qed simp

lemma trailing_fails_replicate [simp]: "trailing_fails (replicate k False) = k"
  by (simp add: trailing_fails_def takeWhile_eq_all_conv [THEN iffD2])

lemma exhausted_replicate: "exhausted n (replicate k False) \<longleftrightarrow> n \<le> int k"
proof
  assume "n \<le> int k"
  then show "exhausted n (replicate k False)"
    by (auto simp: exhausted_def list_ex_iff intro!: bexI [of _ k])
qed (auto simp: exhausted_def list_ex_iff take_replicate min_def split: if_splits)

lemma not_resting_later:
  assumes "\<not> InCooldown t cd m" and "t \<le> t'"
  shows "\<not> InCooldown t' cd m"
  using assms by (auto simp: InCooldown_def time_sub_def)

lemma failure_lastSwitch [simp]:
  "lastSwitch (machine_step (probe_event d p b) m) = lastSwitch m"
  by (intro machine_step_lastSwitch) (simp add: keeps_switch_time_def probe_event_def)

text \<open>
  During an outage the machine counts: after \<open>k\<close> failed rounds, at most \<open>d + p\<close>, its state is
  what the abstract reading of \<open>k\<close> failures gives.
\<close>

definition in_outage :: "DaemonConfig \<Rightarrow> Engine \<Rightarrow> nat \<Rightarrow> Watchdog \<Rightarrow> bool" where
  "in_outage cfg e k w \<longleftrightarrow> w_cfg w = cfg \<and> w_eng w = e
     \<and> counts (DegradedThreshold cfg) (ProbingThreshold cfg) (replicate k False) (w_machine w)
     \<and> \<not> InCooldown (w_now w) (PostSwitchCooldown cfg) (w_machine w)"

lemma in_outage_state:
  assumes "in_outage cfg e k w" and "int k < DegradedThreshold cfg + ProbingThreshold cfg"
  shows "current (w_machine w) \<in> {StateHealthy, StateDegraded}"
  using assms by (auto simp: in_outage_def counts_def spec_state_def exhausted_replicate)

lemma in_outage_over:
  assumes "in_outage cfg e k w" and "int k = DegradedThreshold cfg + ProbingThreshold cfg"
  shows "current (w_machine w) = StateProbing"
  using assms by (simp add: in_outage_def counts_def spec_state_def exhausted_replicate)

lemma outage_step:
  assumes "in_outage cfg e k w" and "int k < DegradedThreshold cfg + ProbingThreshold cfg"
    and "1 \<le> DegradedThreshold cfg" and "1 \<le> ProbingThreshold cfg"
    and "DegradedThreshold cfg + ProbingThreshold cfg < 2 ^ 62"
    and "nets_ok (wd_sw env)" and "probes_fail (wd_sw env) cfg"
  shows "\<exists>w'. tick env w = Return w' \<and> in_outage cfg e (Suc k) w'"
proof -
  let ?d = "DegradedThreshold cfg" and ?p = "ProbingThreshold cfg"
  from assms(1) have w: "w_cfg w = cfg" "w_eng w = e" "counts ?d ?p (replicate k False) (w_machine w)"
      "\<not> InCooldown (w_now w) (PostSwitchCooldown cfg) (w_machine w)"
    by (simp_all add: in_outage_def)
  then have "\<not> resting w" by (simp add: resting_def)
  from doProbe_probes [OF assms(6) this] obtain w' where w': "doProbe env w = Return w'"
      "w_cfg w' = cfg" "w_eng w' = e" "w_now w \<le> w_now w'"
      "w_machine w' = machine_step (probe_event ?d ?p (probe_verdict env w)) (w_machine w)"
    using w(1,2) by auto
  obtain a where "result (probe_round (wd_sw env) cfg [] 0) (sw_world (w_sw w)) = Return a"
      "\<not> a_Success a"
    using assms(7) unfolding probes_fail_def by blast
  then have "\<not> probe_verdict env w" by (simp add: probe_verdict_def w(1))
  with w'(5) have m: "w_machine w' = machine_step (probe_event ?d ?p False) (w_machine w)" by simp
  have "counts ?d ?p (replicate k False @ [False]) (w_machine w')"
    unfolding m using assms(2-5) by (intro counts_step [OF w(3)]) simp_all
  then have "counts ?d ?p (replicate (Suc k) False) (w_machine w')"
    by (simp add: replicate_append_same)
  moreover have "\<not> InCooldown (w_now w') (PostSwitchCooldown cfg) (w_machine w')"
    using not_resting_later [OF w(4) w'(4)] unfolding m by (simp add: InCooldown_def)
  ultimately have "in_outage cfg e (Suc k) w'" using w'(2,3) by (simp add: in_outage_def)
  moreover have "tick env w = doProbe env w"
    using in_outage_state [OF assms(1,2)] by (auto simp: tick_def)
  ultimately show ?thesis using w'(1) by simp
qed

lemma in_outage_pass_time [simp]: "in_outage cfg e k w \<Longrightarrow> in_outage cfg e k (pass_time t w)"
  using not_resting_later by (auto simp: in_outage_def)

lemma outage_loop:
  assumes "in_outage cfg e k w" and "int k + int (length tes) \<le> DegradedThreshold cfg + ProbingThreshold cfg"
    and "1 \<le> DegradedThreshold cfg" and "1 \<le> ProbingThreshold cfg"
    and "DegradedThreshold cfg + ProbingThreshold cfg < 2 ^ 62" and "settings_tick cfg"
    and "list_all (\<lambda>(t, env). nets_ok (wd_sw env) \<and> probes_fail (wd_sw env) cfg) tes"
  shows "\<exists>w'. loop_events (ticks tes) w = Return (w', Waiting) \<and> in_outage cfg e (k + length tes) w'"
  using assms(1,2,7)
proof (induction tes arbitrary: k w)
  case (Cons te tes)
  obtain t env where te: "te = (t, env)" by (cases te)
  have "int k < DegradedThreshold cfg + ProbingThreshold cfg" using Cons.prems(2) by simp
  from outage_step [OF _ this assms(3-5), of e "pass_time t w" env] Cons.prems te
  obtain w' where w': "tick env (pass_time t w) = Return w'" "in_outage cfg e (Suc k) w'" by auto
  have "0 < probeInterval w'"
    using w'(2) assms(6) by (auto simp: probeInterval_def in_outage_def settings_tick_def
        counts_def spec_state_def)
  moreover obtain w'' where "loop_events (ticks tes) w' = Return (w'', Waiting)"
      "in_outage cfg e (Suc k + length tes) w''"
    using Cons.IH [OF w'(2)] Cons.prems te by auto
  ultimately show ?case using w'(1) te by (simp add: checked_def)
qed simp

section \<open>Properties\<close>


text \<open>
  C1: from an outage to recovery. On settings with positive thresholds, from a healthy watchdog
  with no failures counted and out of its cooldown, as many failing ticks as the two thresholds
  add up to, followed by one tick at which every call and every round of probes succeeds and
  the directory has a configuration, end healthy on some configuration.
\<close>

theorem outage_recovery:
  assumes "current (w_machine w) = StateHealthy" and "consecutiveFails (w_machine w) = 0"
    and "\<not> InCooldown (w_now w) (PostSwitchCooldown (w_cfg w)) (w_machine w)"
    and "en_cfg (w_eng w) = w_cfg w" and "settings_tick (w_cfg w)"
    and "1 \<le> DegradedThreshold (w_cfg w)" and "1 \<le> ProbingThreshold (w_cfg w)"
    and "int (length tes) = DegradedThreshold (w_cfg w) + ProbingThreshold (w_cfg w)"
    and "int (length tes) < 2 ^ 62"
    and "list_all (\<lambda>(t, env). nets_ok (wd_sw env) \<and> probes_fail (wd_sw env) (w_cfg w)) tes"
    and "all_succeed (env_os (wd_sw env))" and "probes_succeed (wd_sw env) (w_cfg w)"
    and "LoadAll (w_cfg w) (wd_fs env) \<noteq> []"
  shows "\<exists>w'. Run_watchdog (ticks (tes @ [(t, env)])) w = Return (w', Waiting)
    \<and> current (w_machine w') = StateHealthy \<and> activeConfigID (w_machine w') \<noteq> []"
proof -
  have "in_outage (w_cfg w) (w_eng w) 0 w"
    using assms(1-3,6,7) by (simp add: in_outage_def counts_def spec_state_def exhausted_def)
  from outage_loop [OF this _ assms(6,7) _ assms(5,10)] assms(8,9)
  obtain w1 where w1: "loop_events (ticks tes) w = Return (w1, Waiting)"
      "in_outage (w_cfg w) (w_eng w) (length tes) w1" by auto
  let ?w = "diagnosed env (pass_time t w1)"
  have eq: "w_cfg w1 = w_cfg w" "w_eng w1 = w_eng w" and probing: "current (w_machine w1) = StateProbing"
    using w1(2) in_outage_over [OF w1(2) assms(8)] by (simp_all add: in_outage_def)
  from ProbeAndSwitch_works [OF assms(13) LoadAll_candidates assms(11), of "w_eng w"] assms(4,12)
  obtain a s where s: "run_state (switch_call env ?w) (w_sw ?w) = (Return a, s)" "a \<noteq> []"
      "current (sw_machine s) = StateHealthy" "activeConfigID (sw_machine s) = a"
    unfolding switch_call_def Let_def by (simp add: eq prod_eq_iff) metis
  let ?w' = "?w\<lparr>w_sw := s, lastStateWasProbing := (a = [])\<rparr>"
  have "tick env (pass_time t w1) = Return ?w'"
    using doSwitch_eq [OF _ s(1)] assms(13) probing by (simp add: tick_def eq)
  moreover have "0 < probeInterval ?w'"
    using assms(5) by (simp add: probeInterval_def s(3) eq settings_tick_def)
  moreover have "0 < probeInterval w"
    using assms(5) by (simp add: probeInterval_def assms(1) settings_tick_def)
  ultimately show ?thesis
    using w1(1) s by (simp add: Run_watchdog_def checked_def loop_ticks_append)
qed

lemma lone_tunnel_loads:
  "concat (map (\<lambda>path. case loadFile [(''/etc/vpn-watchdog/configs/nl.json'',
        JSON (nl_vless\<lparr>Enabled := True\<rparr>))] path
      of Inl _ \<Rightarrow> [] | Inr tc \<Rightarrow> if Enabled tc then [tc] else [])
    (glob_json ''/etc/vpn-watchdog/configs'' [(''/etc/vpn-watchdog/configs/nl.json'',
        JSON (nl_vless\<lparr>Enabled := True\<rparr>))])) = [nl_vless\<lparr>Enabled := True\<rparr>]"
  by code_simp

definition demo_wd :: wd_env where
  "demo_wd = \<lparr>wd_sw = demo_env,
     wd_fs = [(''/etc/vpn-watchdog/configs/nl.json'', JSON (nl_vless\<lparr>Enabled := True\<rparr>))],
     wd_detect = tls_filter, wd_detect_time = 7, wd_uci = no_uci,
     wd_lookPath = (\<lambda>name. Inr (''/usr/sbin/'' @ name))\<rparr>"

lemma demo_wd_tunnels: "LoadAll demo_cfg (wd_fs demo_wd) = [nl_vless\<lparr>Enabled := True\<rparr>]"
  using lone_tunnel_loads
  by (simp only: LoadAll_def demo_cfg_def DefaultDaemonConfig_def demo_wd_def wd_env.simps
      DaemonConfig.simps)

definition cut_off :: wd_env where
  "cut_off = demo_wd\<lparr>wd_sw := demo_env\<lparr>env_net :=
     (\<lambda>h who. ([], all_err_types, demo_net\<lparr>ParseIP := (\<lambda>a. None)\<rparr>))\<rparr>\<rparr>"

definition demo_disk :: "persistedState json_file \<Rightarrow> wd_disk" where
  "demo_disk machine = \<lparr>dk_state = (\<lambda>dir. \<lparr>f_scores = NoFile, f_machine = machine,
       f_learned = NoFile, f_detection = NoFile, f_attempts = NoFile\<rparr>),
     dk_writable = (\<lambda>dir. True), dk_learned = NoFile, dk_presets = NoFile, dk_kept_writable = True\<rparr>"

definition demo_watchdog :: "persistedState json_file \<Rightarrow> Watchdog" where
  "demo_watchdog machine = New_watchdog demo_wd (demo_disk machine) idle_world demo_cfg"

lemma demo_watchdog_fields [simp]:
  "w_cfg (demo_watchdog machine) = demo_cfg"
  "w_machine (demo_watchdog machine) = State_Machine.New machine True"
  "en_cfg (w_eng (demo_watchdog machine)) = demo_cfg"
  "lastStateWasProbing (demo_watchdog machine) = False"
  by (simp_all add: demo_watchdog_def New_watchdog_def New_engine_def demo_disk_def Let_def)

lemma demo_cfg_fields [simp]:
  "DegradedThreshold demo_cfg = 3" "ProbingThreshold demo_cfg = 3" "settings_tick demo_cfg"
  "StateDir demo_cfg = ''/tmp/vpn-watchdog''"
  by (simp_all add: demo_cfg_def DefaultDaemonConfig_def settings_tick_def unit_defs)

lemma cut_off_fails: "nets_ok (wd_sw cut_off)" "probes_fail (wd_sw cut_off) demo_cfg"
proof -
  show "nets_ok (wd_sw cut_off)"
    by (simp add: nets_ok_def cut_off_def demo_net_def resolver_ok_def)
  have "\<not> fl (1 / 2) < fl 0" using fl_quotient_half [of 1 0] by simp
  then have "\<not> fl (1 / 2) < fl (fl 0 / fl 1)" by simp
  then show "probes_fail (wd_sw cut_off) demo_cfg"
    by (simp add: probes_fail_def probe_round_def cut_off_def demo_env_def ProbeAll_def
        selectTargets_def demo_cfg_def DefaultDaemonConfig_def probe_targets_def runProbe_def
        probeICMP_def lookupHost_def lookupHostDoH_def demo_net_def aggregate_def Let_def)
qed

lemma fresh_machine [simp]:
  "current (State_Machine.New NoFile b) = StateHealthy"
  "consecutiveFails (State_Machine.New NoFile b) = 0"
  "lastSwitch (State_Machine.New NoFile b) = 0"
  by (simp_all add: State_Machine.New_def load_def)


lemma outage_recovery_witness:
  "\<exists>w'. Run_watchdog (ticks (replicate 6 (0, cut_off) @ [(0, demo_wd)])) (demo_watchdog NoFile)
       = Return (w', Waiting) \<and> current (w_machine w') = StateHealthy"
proof -
  have "\<exists>w'. Run_watchdog (ticks (replicate 6 (0, cut_off) @ [(0, demo_wd)])) (demo_watchdog NoFile)
        = Return (w', Waiting) \<and> current (w_machine w') = StateHealthy \<and> activeConfigID (w_machine w') \<noteq> []"
    using cut_off_fails demo_env_works demo_wd_tunnels
    by (intro outage_recovery) (simp_all add: InCooldown_def IsZero_def list_all_length demo_wd_def)
  then show ?thesis by blast
qed

lemma switching_tick: "current (w_machine w) = StateSwitching \<Longrightarrow> tick env w = Return w"
  by (simp add: tick_def)

lemma switching_loop:
  "current (w_machine w) = StateSwitching \<Longrightarrow>
     loop_events (ticks tes) w = Return (fold (\<lambda>(t, env). pass_time t) tes w, Waiting)"
proof (induction tes arbitrary: w)
  case (Cons te tes)
  obtain t env where te: "te = (t, env)" by (cases te)
  have c: "current (w_machine (pass_time t w)) = StateSwitching" using Cons.prems by simp
  then have "0 < probeInterval (pass_time t w)" by (simp add: probeInterval_def)
  then show ?case using te switching_tick [OF c] Cons.IH [OF c] by (simp add: checked_def)
qed simp

lemma fold_pass_time:
  "w_machine (fold (\<lambda>(t, env). pass_time t) tes w) = w_machine w"
  "calls (sw_world (w_sw (fold (\<lambda>(t, env). pass_time t) tes w))) = calls (sw_world (w_sw w))"
  "w_now w \<le> w_now (fold (\<lambda>(t, env). pass_time t) tes w)"
proof -
  show "w_machine (fold (\<lambda>(t, env). pass_time t) tes w) = w_machine w"
    "calls (sw_world (w_sw (fold (\<lambda>(t, env). pass_time t) tes w))) = calls (sw_world (w_sw w))"
    by (induction tes arbitrary: w) auto
  show "w_now w \<le> w_now (fold (\<lambda>(t, env). pass_time t) tes w)"
  proof (induction tes arbitrary: w)
    case (Cons te tes)
    obtain t env where te: "te = (t, env)" by (cases te)
    from Cons.IH [of "pass_time t w"] show ?case by (simp add: te)
  qed simp
qed

text \<open>
  C17: a daemon killed in the middle of a switch stays there. When \<open>state.json\<close> is the one that
  entering a switch wrote, the restarted daemon does nothing at any later tick, whatever the
  network, the files and the system are: its state remains switching, its active configuration
  what it was, and it makes no call to the system and no round of probes.
\<close>

theorem killed_while_switching:
  assumes "persistWritable m"
    and "f_machine (dk_state disk (StateDir cfg)) = persistFile (EnterSwitching i m)"
  shows "\<exists>w'. Run_watchdog (ticks tes) (New_watchdog env disk world cfg) = Return (w', Waiting)
    \<and> current (w_machine w') = StateSwitching \<and> activeConfigID (w_machine w') = activeConfigID m
    \<and> calls (sw_world (w_sw w')) = calls world"
proof -
  let ?w = "New_watchdog env disk world cfg"
  have "persistFile (EnterSwitching i m) = JSON (persisted (EnterSwitching i m))"
    using assms(1) by (simp add: EnterSwitching_def save_def persisted_def)
  then have m: "current (w_machine ?w) = StateSwitching"
      "activeConfigID (w_machine ?w) = activeConfigID m" "sw_world (w_sw ?w) = world"
    by (simp_all add: New_watchdog_def assms(2) State_Machine.New_def load_def persisted_def Let_def)
  then have "checked ''NewTicker'' ?w = Return ?w"
    using second_pos by (simp add: checked_def probeInterval_def not_le)
  with switching_loop [OF m(1), of tes] show ?thesis
    using m by (simp add: Run_watchdog_def fold_pass_time)
qed

lemma killed_while_switching_witness:
  "\<exists>w'. Run_watchdog (ticks (replicate 9 (0, demo_wd)))
       (New_watchdog demo_wd (demo_disk (persistFile (EnterSwitching ''nl'' (State_Machine.New NoFile True))))
          idle_world demo_cfg) = Return (w', Waiting)
     \<and> current (w_machine w') = StateSwitching"
  using killed_while_switching [of "State_Machine.New NoFile True"
      "demo_disk (persistFile (EnterSwitching ''nl'' (State_Machine.New NoFile True)))" demo_cfg "''nl''"
      "replicate 9 (0, demo_wd)" demo_wd idle_world]
  by (simp add: demo_disk_def State_Machine.New_def load_def) blast

text \<open>
  C20: one diagnosis per outage. At a tick in probing with a configuration to try, the detector
  runs exactly when no diagnosis is held: then its result is kept, and found again after a
  restart; otherwise the tick is the same whatever the detector would answer. The diagnosis is
  held on as long as the machine stays in probing and dropped once a configuration is applied.
\<close>

theorem diagnosis_once:
  assumes "current (w_machine w) = StateProbing" and "LoadAll (w_cfg w) (wd_fs env) \<noteq> []"
    and "nets_ok (wd_sw env)"
  shows "\<exists>w'. tick env w = Return w'
    \<and> lastDPIResult w' = (if lastStateWasProbing w then lastDPIResult w
         else Detect ((wd_detect env)\<lparr>dt_now := w_now w\<rparr>) (ProbeTargets (w_cfg w)) 0)
    \<and> (lastStateWasProbing w \<longrightarrow> tick (env\<lparr>wd_detect := dt, wd_detect_time := n\<rparr>) w = tick env w)
    \<and> (lastStateWasProbing w' \<longleftrightarrow> current (w_machine w') = StateProbing)
    \<and> (\<not> lastStateWasProbing w \<and> dk_writable (w_disk w) (StateDir (w_cfg w)) \<longrightarrow>
         LoadDetection (w_detections w' (StateDir (w_cfg w))) = (lastDPIResult w', True))"
proof -
  obtain a s vs where s: "doSwitch env w
        = Return ((diagnosed env w)\<lparr>w_sw := s, lastStateWasProbing := (a = [])\<rparr>)"
      "switch_outcome vs a (w_sw (diagnosed env w)) s"
    using doSwitch_outcome [OF assms(3,2)] by blast
  have tick: "tick env w = doSwitch env w" for env using assms(1) by (simp add: tick_def)
  have "lastStateWasProbing w \<Longrightarrow> doSwitch (env\<lparr>wd_detect := dt, wd_detect_time := n\<rparr>) w = doSwitch env w"
    by (simp add: doSwitch_def Let_def)
  moreover have "current (sw_machine s) = StateProbing \<longleftrightarrow> a = []"
    using s(2) assms(1) by (auto simp: switch_outcome_def split: if_splits)
  ultimately show ?thesis
    by (intro exI [of _ "(diagnosed env w)\<lparr>w_sw := s, lastStateWasProbing := (a = [])\<rparr>"])
      (simp add: tick s(1), simp add: diagnosed_def SaveDetection_def LoadDetection_def)
qed

definition probing_watchdog :: Watchdog where
  "probing_watchdog = demo_watchdog (JSON \<lparr>ps_Current = StateProbing, ps_ActiveConfigID = ''old'',
     ps_LastSwitch = 5\<rparr>)"

lemma diagnosis_once_witness:
  "\<exists>w'. tick demo_wd probing_watchdog = Return w'
     \<and> lastDPIResult w' = Detect (tls_filter\<lparr>dt_now := w_now probing_watchdog\<rparr>) (ProbeTargets demo_cfg) 0"
proof -
  have "current (w_machine probing_watchdog) = StateProbing"
    by (simp add: probing_watchdog_def State_Machine.New_def load_def)
  moreover have "LoadAll (w_cfg probing_watchdog) (wd_fs demo_wd) \<noteq> []"
    by (simp add: probing_watchdog_def demo_wd_tunnels)
  moreover have "nets_ok (wd_sw demo_wd)" using demo_env_ok(1) by (simp add: demo_wd_def)
  ultimately have "\<exists>w'. tick demo_wd probing_watchdog = Return w'
    \<and> lastDPIResult w' = (if lastStateWasProbing probing_watchdog then lastDPIResult probing_watchdog
         else Detect ((wd_detect demo_wd)\<lparr>dt_now := w_now probing_watchdog\<rparr>)
           (ProbeTargets (w_cfg probing_watchdog)) 0)"
    using diagnosis_once [of probing_watchdog demo_wd] by blast
  then show ?thesis by (simp add: probing_watchdog_def demo_wd_def)
qed

text \<open>
  C27: what a reload keeps. A reload with readable settings replaces the settings everywhere and
  keeps the machine, the scores, what was learned, the diagnosis and the world. The new advisor
  has spent nothing of its hourly limit, so a call refused before the reload is granted after
  it, and its log is what the file of the log holds.
\<close>

theorem reload_keeps:
  assumes "LoadDaemonConfigFromUCI (wd_uci env) = Return cfg"
  shows "\<exists>w'. reload env w = Return w' \<and> w_cfg w' = cfg \<and> en_cfg (w_eng w') = cfg
    \<and> w_machine w' = w_machine w \<and> sw_db (w_sw w') = sw_db (w_sw w)
    \<and> sw_learned (w_sw w') = sw_learned (w_sw w) \<and> sw_world (w_sw w') = sw_world (w_sw w)
    \<and> lastDPIResult w' = lastDPIResult w \<and> lastStateWasProbing w' = lastStateWasProbing w
    \<and> fst (acquireToken now (sw_ai (w_sw w')))
    \<and> (StateDir cfg = StateDir (w_cfg w) \<and> al_file (m_attempts (sw_ai (w_sw w))) = JSON es
         \<longrightarrow> al_entries (m_attempts (sw_ai (w_sw w'))) = es)"
  using assms
  by (auto simp: reload_def New_engine_def reload_advisor_def reload_attempts_def NewManager_def
      NewAttemptLog_def load_attempts_def acquireToken_def Let_def)

lemma reload_keeps_witness:
  "\<exists>w'. reload demo_wd probing_watchdog = Return w' \<and> w_machine w' = w_machine probing_watchdog
     \<and> fst (acquireToken 99 (sw_ai (w_sw w')))"
proof -
  obtain cfg where "LoadDaemonConfigFromUCI (wd_uci demo_wd) = Return cfg"
    using no_uci_loads by (auto simp: demo_wd_def)
  from reload_keeps [OF this, of probing_watchdog 99 "[]"] show ?thesis by blast
qed

end
