(* ===== verification/Daemon_Main.thy ===== *)
theory Daemon_Main
  imports Watchdog_Loop
begin

text \<open>
  \<open>daemon/cmd/vpn-watchdog/main.go\<close>: the process from its start to its exit status, with its
  flags, the file that holds its id and its HTTP interface.
\<close>

section \<open>The process\<close>

text \<open>
  What the process gets from outside the other components: the two flags, its id, the answer of
  \<open>os.MkdirAll\<close> for a directory and whether the id's file can be written and removed.
  \<open>pe_main_panics\<close> says of a panic that it was one of the main goroutine, which still runs the
  deferred calls; a panic in the goroutine of a probe ends the process without them.
\<close>

record process_env =
  pe_logLevel :: string
  pe_statusAddr :: string
  pe_pid :: int
  pe_mkdir :: "string \<Rightarrow> bool"
  pe_pid_writable :: bool
  pe_main_panics :: bool

datatype LogLevel = LevelDebug | LevelInfo | LevelWarn | LevelError

definition log_level :: "string \<Rightarrow> LogLevel" where
  "log_level flag =
     (if flag = ''debug'' then LevelDebug else if flag = ''warn'' then LevelWarn
      else if flag = ''error'' then LevelError else LevelInfo)"

definition writePID :: "process_env \<Rightarrow> string option \<Rightarrow> string option" where
  "writePID penv pidfile = (if pe_pid_writable penv then Some (Itoa (pe_pid penv) @ nl) else pidfile)"

definition removePID :: "process_env \<Rightarrow> string option \<Rightarrow> string option" where
  "removePID penv pidfile = (if pe_pid_writable penv then None else pidfile)"

text \<open>\<open>Running\<close> is a process whose loop waits for its next event; \<open>da_api\<close> is the address served.\<close>

datatype process = ExitCode int | Crash string | Running Watchdog

record daemon =
  da_process :: process
  da_level :: LogLevel
  da_pidfile :: "string option"
  da_api :: "string option"

definition daemon_main ::
    "process_env \<Rightarrow> wd_env \<Rightarrow> wd_disk \<Rightarrow> conf_file world \<Rightarrow> event list \<Rightarrow> string option \<Rightarrow> daemon"
where
  "daemon_main penv env disk world es pidfile =
     (let d = \<lparr>da_process = ExitCode 0, da_level = log_level (pe_logLevel penv), da_pidfile = pidfile,
            da_api = None\<rparr>
      in case LoadDaemonConfigFromUCI (wd_uci env) of
           Panic p \<Rightarrow> d\<lparr>da_process := Crash p\<rparr>
         | Return cfg \<Rightarrow>
             if \<not> pe_mkdir penv (StateDir cfg) then d\<lparr>da_process := ExitCode 1\<rparr>
             else
               let d = d\<lparr>da_pidfile := writePID penv pidfile\<rparr>;
                   wd = New_watchdog env disk world cfg;
                   d = (if pe_statusAddr penv \<noteq> [] then d\<lparr>da_api := Some (pe_statusAddr penv)\<rparr> else d)
               in case Run_watchdog es wd of
                    Panic p \<Rightarrow> d\<lparr>da_process := Crash p, da_api := None,
                      da_pidfile := (if pe_main_panics penv then removePID penv (da_pidfile d)
                                     else da_pidfile d)\<rparr>
                  | Return (w, Waiting) \<Rightarrow> d\<lparr>da_process := Running w\<rparr>
                  | Return (w, Ended None) \<Rightarrow> d\<lparr>da_process := ExitCode 0, da_api := None,
                      da_pidfile := removePID penv (da_pidfile d)\<rparr>
                  | Return (w, Ended (Some err)) \<Rightarrow>
                      if err = ''context canceled''
                      then d\<lparr>da_process := ExitCode 0, da_api := None,
                             da_pidfile := removePID penv (da_pidfile d)\<rparr>
                      else d\<lparr>da_process := ExitCode 1, da_api := None\<rparr>)"

section \<open>The HTTP interface\<close>

record dpiResponse =
  dr_BlockType :: string
  dr_ReasonCode :: string
  dr_Confidence :: float64
  dr_Evidence :: "string list"
  dr_TestedAt :: gotime
  dr_LearnedCount :: nat

datatype api_reply =
    NotFound
  | MethodNotAllowed
  | StatusBody Status
  | DPIBody dpiResponse
  | AIBody AIStatus
  | HealthBody string

definition status_handler :: "string \<Rightarrow> Watchdog \<Rightarrow> api_reply" where
  "status_handler verb w =
     (if verb \<noteq> ''GET'' then MethodNotAllowed else StatusBody (watchdog_status w))"

definition dpi_handler :: "string \<Rightarrow> Watchdog \<Rightarrow> api_reply" where
  "dpi_handler verb w =
     (if verb \<noteq> ''GET'' then MethodNotAllowed
      else let status = watchdog_status w
           in DPIBody \<lparr>dr_BlockType = st_DPIBlockType status, dr_ReasonCode = st_DPIReasonCode status,
                dr_Confidence = st_DPIConfidence status, dr_Evidence = st_DPIEvidence status,
                dr_TestedAt = st_DPITestedAt status, dr_LearnedCount = st_LearnedCount status\<rparr>)"

definition ai_handler :: "string \<Rightarrow> Watchdog \<Rightarrow> api_reply" where
  "ai_handler verb w =
     (if verb \<noteq> ''GET'' then MethodNotAllowed else AIBody (st_AIStatus (watchdog_status w)))"

definition health_handler :: "string \<Rightarrow> Watchdog \<Rightarrow> api_reply" where
  "health_handler verb w = HealthBody (''ok'' @ nl)"

text \<open>The patterns of the mux match a path exactly; any other path has no handler.\<close>

definition api_mux :: "Watchdog \<Rightarrow> string \<Rightarrow> string \<Rightarrow> api_reply" where
  "api_mux w verb path =
     (if path = ''/status'' then status_handler verb w
      else if path = ''/dpi'' then dpi_handler verb w
      else if path = ''/ai'' then ai_handler verb w
      else if path = ''/health'' then health_handler verb w
      else NotFound)"

text \<open>What a request to the process gets: an answer when it runs and serves an address.\<close>

definition api_request :: "daemon \<Rightarrow> string \<Rightarrow> string \<Rightarrow> api_reply option" where
  "api_request d verb path = (case da_process d of
       Running w \<Rightarrow> (case da_api d of None \<Rightarrow> None | Some addr \<Rightarrow> Some (api_mux w verb path))
     | _ \<Rightarrow> None)"

section \<open>Properties\<close>

lemma interval_from_uci:
  "LoadDaemonConfigFromUCI uci = Return cfg \<Longrightarrow>
     ProbeIntervalHealthy cfg = getDur uci (global ''probe_interval_healthy'') (30 * second)"
  by (auto simp: LoadDaemonConfigFromUCI_def Let_def obind_Return_iff load_global_def
      DefaultDaemonConfig_def)

lemma loop_end:
  "loop_events es v = Return (w, e) \<Longrightarrow> (\<And>err. Cancelled err \<notin> set es)
     \<Longrightarrow> e = Waiting \<and> Terminate \<notin> set es \<or> e = Ended None \<and> Terminate \<in> set es"
  by (induction es v rule: loop_events.induct) (auto simp: obind_Return_iff)

text \<open>
  C40: an interval the ticker refuses stops the daemon. The settings reader takes any number of
  seconds; when the product in nanoseconds is zero, or wraps around in 64 bits to a value below,
  a daemon that starts healthy crashes before its first event.
\<close>

theorem bad_interval_crashes:
  assumes "uci_get (wd_uci env) (global ''probe_interval_healthy'') = Some (Itoa n)"
    and "0 \<le> n" and "n < 2 ^ 63" and "wrap64 (n * second) \<le> 0"
    and "LoadDaemonConfigFromUCI (wd_uci env) = Return cfg" and "pe_mkdir penv (StateDir cfg)"
    and "f_machine (dk_state disk (StateDir cfg)) = NoFile"
  shows "da_process (daemon_main penv env disk world es pidfile)
    = Crash ''non-positive interval for NewTicker''"
proof -
  have "ProbeIntervalHealthy cfg \<le> 0"
    using interval_from_uci [OF assms(5)] getDur_seconds [OF assms(2,3,1)] assms(4) by simp
  moreover have "current (w_machine (New_watchdog env disk world cfg)) = StateHealthy"
      "w_cfg (New_watchdog env disk world cfg) = cfg"
    by (simp_all add: New_watchdog_def Let_def assms(7))
  ultimately have "probeInterval (New_watchdog env disk world cfg) \<le> 0"
    by (simp add: probeInterval_def)
  then show ?thesis by (simp add: daemon_main_def Let_def assms(5,6) Run_watchdog_def checked_def)
qed

text \<open>A value of almost three centuries, whose nanoseconds wrap around.\<close>

definition slow_uci :: uci_env where
  "slow_uci = \<lparr>uci_get = (\<lambda>k. if k = global ''probe_interval_healthy'' then Some (Itoa 9223372037)
     else None), uci_show = (\<lambda>k. None), ParseFloat = (\<lambda>s. None)\<rparr>"

definition demo_process :: process_env where
  "demo_process = \<lparr>pe_logLevel = ''info'', pe_statusAddr = ''127.0.0.1:8765'', pe_pid = 4242,
     pe_mkdir = (\<lambda>dir. True), pe_pid_writable = True, pe_main_panics = True\<rparr>"

lemma bad_interval_crashes_witness:
  "da_process (daemon_main demo_process (demo_wd\<lparr>wd_uci := slow_uci\<rparr>) (demo_disk NoFile) idle_world [] None)
     = Crash ''non-positive interval for NewTicker''"
proof -
  obtain cfg where cfg: "LoadDaemonConfigFromUCI slow_uci = Return cfg"
    by (simp add: LoadDaemonConfigFromUCI_def loadUCIProbeTargets_def slow_uci_def Let_def)
  have "wrap64 (9223372037 * second) \<le> 0"
    by (simp add: wrap64_def second_def millisecond_def signed_take_bit_int_eq_self)
  with cfg show ?thesis
    by (intro bad_interval_crashes [where n = 9223372037 and cfg = cfg])
      (simp_all add: slow_uci_def demo_disk_def demo_process_def)
qed



end
