(* ===== verification/Goroutines.thy ===== *)
theory Goroutines
  imports Os_Calls
begin

text \<open>
  Operations that run at the same time. An operation of the state monad runs without a pause;
  to interleave several, each is read as a tree of the calls it makes, one goroutine. A state
  of the parallel run is what each goroutine still has to do, the log of all calls and the
  shared map of processes; in a step one goroutine makes its next call, passes through one
  critical section, or looks at the log (the network of a probe round answers in view of it).
  The system answers in view of the calls of all. How long a step takes, waiting for the others
  included, is left open.

  \<open>goes K n Q m\<close> says that \<open>m\<close> is such a tree, that makes at most \<open>n\<close> calls, changes the map of
  processes at the ids in \<open>K\<close> only and ends with a result in \<open>Q\<close>, whatever happens in between.
  It has one rule per combinator, collected in \<open>goes_intros\<close>.
\<close>

named_theorems goes_intros
  \<open>rules of the judgement \<open>goes\<close>\<close>

section \<open>Goroutines\<close>

type_synonym procs = "(string \<times> int) list"

text \<open>
  The continuation of a call gets the reply and the time the call took beyond its least time;
  a critical section maps the processes and goes on with what it found.
\<close>

datatype ('f, 'a) goroutine =
    Ret 'a
  | Call "'f syscall" "reply \<Rightarrow> nat \<Rightarrow> ('f, 'a) goroutine"
  | Mem "procs \<Rightarrow> procs" "procs \<Rightarrow> ('f, 'a) goroutine"
  | Look "'f oslog \<Rightarrow> nat" "'f oslog \<Rightarrow> ('f, 'a) goroutine"

primrec exec :: "('f, 'a) goroutine \<Rightarrow> 'f os \<Rightarrow> 'f world \<Rightarrow> 'a \<times> 'f world" where
  "exec (Ret x) os w = (x, w)"
| "exec (Call c k) os w =
     exec (k (answer os (calls w) c) (elapsed os (calls w) c)) os (do_call os c w)"
| "exec (Mem f k) os w = exec (k (procMap w)) os (w\<lparr>procMap := f (procMap w)\<rparr>)"
| "exec (Look d k) os w = exec (k (calls w)) os (w\<lparr>clock := clock w + int (d (calls w))\<rparr>)"

text \<open>The log holds what the system answered, each call in view of those before it.\<close>

lemma exec_log:
  "\<exists>cs. calls (snd (exec p os w)) = calls w @ cs
     \<and> (\<forall>k<length cs. snd (cs ! k) = answer os (calls w @ take k cs) (fst (cs ! k)))"
proof (induction p arbitrary: w)
  case (Call c k)
  let ?r = "answer os (calls w) c"
  obtain cs where cs: "calls (snd (exec (Call c k) os w)) = calls w @ (c, ?r) # cs"
      "\<forall>j<length cs. snd (cs ! j) = answer os (calls w @ (c, ?r) # take j cs) (fst (cs ! j))"
    using Call.IH [OF rangeI rangeI, of "answer os (calls w) c" "elapsed os (calls w) c" "do_call os c w"]
    by auto
  then show ?case by (intro exI [of _ "(c, ?r) # cs"]) (auto simp: nth_Cons split: nat.split)
next
  case (Mem f k)
  show ?case using Mem.IH [OF rangeI, of _ "w\<lparr>procMap := f (procMap w)\<rparr>"] by simp
next
  case (Look d k)
  show ?case using Look.IH [OF rangeI, of _ "w\<lparr>clock := clock w + int (d (calls w))\<rparr>"] by simp
qed simp

text \<open>Sequencing, with the clock the first part has reached.\<close>

primrec after ::
    "('f, 'a) goroutine \<Rightarrow> gotime \<Rightarrow> ('a \<Rightarrow> gotime \<Rightarrow> ('f, 'b) goroutine) \<Rightarrow> ('f, 'b) goroutine" where
  "after (Ret x) t q = q x t"
| "after (Call c k) t q = Call c (\<lambda>r e. after (k r e) (t + least_time c + int e) q)"
| "after (Mem f k) t q = Mem f (\<lambda>m. after (k m) t q)"
| "after (Look d k) t q = Look d (\<lambda>h. after (k h) (t + int (d h)) q)"

lemma exec_after:
  "exec (after p (clock w) q) os w
     = (case exec p os w of (x, w') \<Rightarrow> exec (q x (clock w')) os w')"
proof (induction p arbitrary: w)
  case (Call c k)
  show ?case using Call.IH [OF rangeI rangeI, of _ _ "do_call os c w"] by simp
next
  case (Mem f k)
  show ?case using Mem.IH [OF rangeI, of _ "w\<lparr>procMap := f (procMap w)\<rparr>"] by simp
next
  case (Look d k)
  show ?case using Look.IH [OF rangeI, of _ "w\<lparr>clock := clock w + int (d (calls w))\<rparr>"] by simp
qed simp

section \<open>Interleaving\<close>

type_synonym ('f, 'a) par_state = "('f, 'a) goroutine list \<times> 'f oslog \<times> procs"

inductive go_step :: "'f os \<Rightarrow> ('f, 'a) par_state \<Rightarrow> ('f, 'a) par_state \<Rightarrow> bool" for os where
  call: "i < length ps \<Longrightarrow> ps ! i = Call c k
    \<Longrightarrow> go_step os (ps, h, m) (ps[i := k (answer os h c) e], h @ [(c, answer os h c)], m)"
| mem: "i < length ps \<Longrightarrow> ps ! i = Mem f k \<Longrightarrow> go_step os (ps, h, m) (ps[i := k m], h, f m)"
| look: "i < length ps \<Longrightarrow> ps ! i = Look d k \<Longrightarrow> go_step os (ps, h, m) (ps[i := k h], h, m)"

abbreviation interleaved :: "'f os \<Rightarrow> ('f, 'a) par_state \<Rightarrow> ('f, 'a) par_state \<Rightarrow> bool" where
  "interleaved os \<equiv> (go_step os)\<^sup>*\<^sup>*"

text \<open>One goroutine that runs to its end while the others wait does what the operation does.\<close>

lemma exec_interleaved:
  "i < length ps \<Longrightarrow> ps ! i = p
     \<Longrightarrow> interleaved os (ps, calls w, procMap w)
          (ps[i := Ret (fst (exec p os w))], calls (snd (exec p os w)), procMap (snd (exec p os w)))"
proof (induction p arbitrary: ps w)
  case (Ret x)
  then show ?case by (metis exec.simps(1) fst_conv list_update_id rtranclp.rtrancl_refl snd_conv)
next
  case (Call c k)
  let ?r = "answer os (calls w) c" and ?e = "elapsed os (calls w) c" and ?w = "do_call os c w"
  have "go_step os (ps, calls w, procMap w) (ps[i := k ?r ?e], calls ?w, procMap ?w)"
    using go_step.call [OF Call.prems, of os "calls w" "procMap w" ?e] by simp
  moreover have "interleaved os (ps[i := k ?r ?e], calls ?w, procMap ?w)
      (ps[i := Ret (fst (exec (Call c k) os w))], calls (snd (exec (Call c k) os w)),
       procMap (snd (exec (Call c k) os w)))"
    using Call.IH [OF rangeI rangeI, where ps = "ps[i := k ?r ?e]" and w = ?w] Call.prems(1) by simp
  ultimately show ?case by (rule converse_rtranclp_into_rtranclp)
next
  case (Mem f k)
  let ?w = "w\<lparr>procMap := f (procMap w)\<rparr>"
  have "go_step os (ps, calls w, procMap w) (ps[i := k (procMap w)], calls ?w, procMap ?w)"
    using go_step.mem [OF Mem.prems, of os "calls w" "procMap w"] by simp
  moreover have "interleaved os (ps[i := k (procMap w)], calls ?w, procMap ?w)
      (ps[i := Ret (fst (exec (Mem f k) os w))], calls (snd (exec (Mem f k) os w)),
       procMap (snd (exec (Mem f k) os w)))"
    using Mem.IH [OF rangeI, where ps = "ps[i := k (procMap w)]" and w = ?w] Mem.prems(1) by simp
  ultimately show ?case by (rule converse_rtranclp_into_rtranclp)
next
  case (Look d k)
  let ?w = "w\<lparr>clock := clock w + int (d (calls w))\<rparr>"
  have "go_step os (ps, calls w, procMap w) (ps[i := k (calls w)], calls ?w, procMap ?w)"
    using go_step.look [OF Look.prems, of os "calls w" "procMap w"] by simp
  moreover have "interleaved os (ps[i := k (calls w)], calls ?w, procMap ?w)
      (ps[i := Ret (fst (exec (Look d k) os w))], calls (snd (exec (Look d k) os w)),
       procMap (snd (exec (Look d k) os w)))"
    using Look.IH [OF rangeI, where ps = "ps[i := k (calls w)]" and w = ?w] Look.prems(1) by simp
  ultimately show ?case by (rule converse_rtranclp_into_rtranclp)
qed

section \<open>What a goroutine can do\<close>

inductive ok :: "string set \<Rightarrow> ('a \<Rightarrow> bool) \<Rightarrow> nat \<Rightarrow> ('f, 'a) goroutine \<Rightarrow> bool" for K Q where
  ok_Ret: "Q x \<Longrightarrow> ok K Q n (Ret x)"
| ok_Call: "(\<And>r e. ok K Q n (k r e)) \<Longrightarrow> ok K Q (Suc n) (Call c k)"
| ok_Mem: "(\<And>m i. i \<notin> K \<Longrightarrow> map_of (f m) i = map_of m i) \<Longrightarrow> (\<And>m. ok K Q n (k m)) \<Longrightarrow> ok K Q n (Mem f k)"
| ok_Look: "(\<And>h. ok K Q n (k h)) \<Longrightarrow> ok K Q n (Look d k)"

inductive_cases ok_RetE: "ok K Q n (Ret x)"
inductive_cases ok_CallE: "ok K Q n (Call c k)"
inductive_cases ok_MemE: "ok K Q n (Mem f k)"
inductive_cases ok_LookE: "ok K Q n (Look d k)"

lemma ok_mono:
  "ok K Q n p \<Longrightarrow> n \<le> n' \<Longrightarrow> K \<subseteq> K' \<Longrightarrow> (\<And>x. Q x \<Longrightarrow> Q' x) \<Longrightarrow> ok K' Q' n' p"
proof (induction n p arbitrary: n' rule: ok.induct)
  case (ok_Call n k c)
  then obtain l where "n' = Suc l" "n \<le> l" by (cases n') auto
  with ok_Call show ?case by (auto intro!: ok.ok_Call)
next
  case (ok_Mem f n k)
  then show ?case by (intro ok.ok_Mem) blast+
qed (auto intro!: ok.intros)

lemma ok_after:
  "ok K Q n p \<Longrightarrow> (\<And>x t. Q x \<Longrightarrow> ok K R l (q x t)) \<Longrightarrow> ok K R (n + l) (after p t q)"
proof (induction n p arbitrary: t rule: ok.induct)
  case (ok_Ret x n)
  then have "ok K R l (q x t)" by blast
  then have "ok K R (n + l) (q x t)" by (rule ok_mono) simp_all
  then show ?case by simp
qed (auto intro!: ok.intros)

text \<open>
  The invariant of an interleaving: goroutine \<open>i\<close> has \<open>ns ! i\<close> calls left of the \<open>Ns ! i\<close> at
  the start and will end in \<open>Qs ! i\<close>; the log was \<open>n0\<close> long and holds the calls made since.
\<close>

definition par_inv ::
    "string set \<Rightarrow> ('a \<Rightarrow> bool) list \<Rightarrow> nat list \<Rightarrow> nat \<Rightarrow> procs \<Rightarrow> ('f, 'a) par_state \<Rightarrow> bool" where
  "par_inv K Qs Ns n0 m0 s = (case s of (ps, h, m) \<Rightarrow>
     length ps = length Qs
     \<and> (\<exists>ns. length ns = length ps \<and> length h + sum_list ns \<le> n0 + sum_list Ns
          \<and> (\<forall>i<length ps. ns ! i \<le> Ns ! i \<and> ok K (Qs ! i) (ns ! i) (ps ! i)))
     \<and> (\<forall>i. i \<notin> K \<longrightarrow> map_of m i = map_of m0 i))"

lemma sum_list_less_update:
  "i < length ns \<Longrightarrow> ns ! i = Suc n \<Longrightarrow> sum_list ns = Suc (sum_list (ns[i := n]))" for ns :: "nat list"
  by (induction ns arbitrary: i) (auto split: nat.splits)

lemma par_inv_step:
  assumes "par_inv K Qs Ns n0 m0 s" and "go_step os s s'"
  shows "par_inv K Qs Ns n0 m0 s'"
proof -
  obtain ps h m where s: "s = (ps, h, m)" by (cases s)
  from assms(1) obtain ns where ns: "length ns = length ps" "length h + sum_list ns \<le> n0 + sum_list Ns"
      "\<And>i. i < length ps \<Longrightarrow> ok K (Qs ! i) (ns ! i) (ps ! i)" "\<And>i. i < length ps \<Longrightarrow> ns ! i \<le> Ns ! i"
      and l: "length ps = length Qs" and m: "\<And>i. i \<notin> K \<Longrightarrow> map_of m i = map_of m0 i"
    by (auto simp: par_inv_def s)
  from assms(2) show ?thesis
  proof (cases rule: go_step.cases)
    case (call i ps' c k h' m' e)
    then have i: "i < length ps" "ps ! i = Call c k" by (simp_all add: s)
    from ns(3) [OF i(1)] i(2) obtain n where n: "ns ! i = Suc n" "\<And>r e. ok K (Qs ! i) n (k r e)"
      by (auto elim: ok_CallE)
    have "sum_list ns = Suc (sum_list (ns[i := n]))"
      using sum_list_less_update [OF _ n(1)] i(1) ns(1) by simp
    moreover from ns(4) [OF i(1)] n(1) have "n \<le> Ns ! i" by simp
    ultimately show ?thesis using call n ns l m
      by (auto simp: s par_inv_def nth_list_update intro!: exI [of _ "ns[i := n]"])
  next
    case (mem i ps' f k h' m')
    then have i: "i < length ps" "ps ! i = Mem f k" by (simp_all add: s)
    from ns(3) [OF i(1)] i(2) have "\<And>m. ok K (Qs ! i) (ns ! i) (k m)"
        "\<And>m j. j \<notin> K \<Longrightarrow> map_of (f m) j = map_of m j"
      by (auto elim: ok_MemE)
    with mem ns l m show ?thesis
      by (auto simp: s par_inv_def nth_list_update intro!: exI [of _ ns])
  next
    case (look i ps' d k h' m')
    then have i: "i < length ps" "ps ! i = Look d k" by (simp_all add: s)
    from ns(3) [OF i(1)] i(2) have "\<And>h. ok K (Qs ! i) (ns ! i) (k h)"
      by (auto elim: ok_LookE)
    with look ns l m show ?thesis
      by (auto simp: s par_inv_def nth_list_update intro!: exI [of _ ns])
  qed
qed

lemma par_inv_reach: "interleaved os s s' \<Longrightarrow> par_inv K Qs Ns n0 m0 s \<Longrightarrow> par_inv K Qs Ns n0 m0 s'"
  by (induction rule: rtranclp_induct) (auto intro: par_inv_step)

text \<open>No goroutine waits for another: one that has not ended can make a step.\<close>

lemma go_step_progress:
  assumes "i < length ps" and "\<And>x. ps ! i \<noteq> Ret x"
  shows "\<exists>s'. go_step os (ps, h, m) s'"
  using assms(2) go_step.intros [OF assms(1)] by (cases "ps ! i") blast+

section \<open>Termination\<close>

text \<open>Every step takes one goroutine to a part of it, so no interleaving goes on for ever.\<close>

inductive part_of :: "('f, 'a) goroutine \<Rightarrow> ('f, 'a) goroutine \<Rightarrow> bool" where
  "part_of (k r e) (Call c k)"
| "part_of (k m) (Mem f k)"
| "part_of (k h) (Look d k)"

inductive_simps part_of_simps:
  "part_of q (Ret x)" "part_of q (Call c k)" "part_of q (Mem f k)" "part_of q (Look d k)"

lemma wf_part_of: "wf {(q, p :: ('f, 'a) goroutine). part_of q p}"
proof (rule wfUNIVI)
  fix P :: "('f, 'a) goroutine \<Rightarrow> bool" and p
  assume "\<forall>p. (\<forall>q. (q, p) \<in> {(q, p). part_of q p} \<longrightarrow> P q) \<longrightarrow> P p"
  then have step: "(\<And>q. part_of q p \<Longrightarrow> P q) \<Longrightarrow> P p" for p by blast
  show "P p"
  proof (induction p)
    case (Call c k)
    show ?case by (rule step) (auto simp: part_of_simps intro: Call.IH [OF rangeI rangeI])
  next
    case (Mem f k)
    show ?case by (rule step) (auto simp: part_of_simps intro: Mem.IH [OF rangeI])
  next
    case (Look d k)
    show ?case by (rule step) (auto simp: part_of_simps intro: Look.IH [OF rangeI])
  next
    case (Ret x)
    show ?case by (rule step) (simp add: part_of_simps)
  qed
qed

lemma part_of_update:
  "i < length ps \<Longrightarrow> part_of q (ps ! i) \<Longrightarrow> (ps[i := q], ps) \<in> listrel1 {(q, p). part_of q p}"
  unfolding listrel1_iff_update by (intro exI [of _ "ps ! i"] exI [of _ i]) simp

lemma go_step_part: "go_step os s s' \<Longrightarrow> (fst s', fst s) \<in> listrel1 {(q, p). part_of q p}"
  by (induction rule: go_step.induct) (auto intro!: part_of_update intro: part_of.intros)

lemma go_step_wf: "wf {(s', s). go_step os s s'}"
proof (rule wf_subset)
  show "wf (inv_image (listrel1 {(q, p). part_of q p}) fst)"
    by (rule wf_inv_image) (simp add: wf_part_of)
qed (auto simp: inv_image_def dest: go_step_part)

lemma no_endless_run: "\<not> (\<forall>n. go_step os (f n) (f (Suc n)))"
  using go_step_wf [of os] unfolding wf_iff_no_infinite_down_chain by auto

lemma interleaving_ends: "\<exists>s'. interleaved os s s' \<and> (\<forall>t. \<not> go_step os s' t)"
proof (induction s rule: wf_induct_rule [OF go_step_wf [of os]])
  case (1 s)
  show ?case
  proof (cases "\<exists>t. go_step os s t")
    case True
    then obtain t where t: "go_step os s t" ..
    with 1 [of t] obtain s' where "interleaved os t s'" "\<forall>u. \<not> go_step os s' u" by auto
    with t show ?thesis by (blast intro: converse_rtranclp_into_rtranclp)
  qed blast
qed

section \<open>Operations as goroutines\<close>

text \<open>
  An operation as a goroutine is a function of the time it starts at; the combinators mirror
  those of the state monad. \<open>update_g\<close> is a critical section.
\<close>

type_synonym ('f, 'a) routine = "gotime \<Rightarrow> ('f, 'a) goroutine"

definition ret_g :: "'a \<Rightarrow> ('f, 'a) routine" where
  "ret_g x t = Ret x"

definition seq_g :: "('f, 'a) routine \<Rightarrow> ('a \<Rightarrow> ('f, 'b) routine) \<Rightarrow> ('f, 'b) routine" where
  "seq_g g h t = after (g t) t h"

definition syscall_g :: "'f syscall \<Rightarrow> ('f, reply) routine" where
  "syscall_g c t = Call c (\<lambda>r e. Ret r)"

definition attempt_g :: "'f syscall \<Rightarrow> ('f, string option) routine" where
  "attempt_g c t = Call c (\<lambda>r e. Ret (reply_err r))"

definition update_g :: "(procs \<Rightarrow> procs) \<Rightarrow> (procs \<Rightarrow> ('f, 'a) routine) \<Rightarrow> ('f, 'a) routine" where
  "update_g f k t = Mem f (\<lambda>ps. k ps t)"

definition goes ::
    "string set \<Rightarrow> nat \<Rightarrow> ('a \<Rightarrow> bool) \<Rightarrow> ('f os \<Rightarrow> ('f, 'a) io) \<Rightarrow> ('f, 'a) routine \<Rightarrow> bool" where
  "goes K n Q m g \<longleftrightarrow>
     (\<forall>os w. run_state (m os) w = exec (g (clock w)) os w) \<and> (\<forall>t. ok K Q n (g t))"

lemma goesI:
  "(\<And>os w. run_state (m os) w = exec (g (clock w)) os w) \<Longrightarrow> (\<And>t. ok K Q n (g t)) \<Longrightarrow> goes K n Q m g"
  unfolding goes_def by blast

lemma goes_run: "goes K n Q m g \<Longrightarrow> run_state (m os) w = exec (g (clock w)) os w"
  by (simp add: goes_def)

lemma goes_ok: "goes K n Q m g \<Longrightarrow> ok K Q n (g t)"
  by (simp add: goes_def)

lemma goes_weaken:
  "goes K n Q m g \<Longrightarrow> n \<le> n' \<Longrightarrow> K \<subseteq> K' \<Longrightarrow> (\<And>x. Q x \<Longrightarrow> Q' x) \<Longrightarrow> goes K' n' Q' m g"
  unfolding goes_def by (meson ok_mono)

lemma goes_le: "goes K n Q m g \<Longrightarrow> n \<le> n' \<Longrightarrow> goes K n' Q m g"
  by (erule goes_weaken) simp_all

lemma exec_result: "ok K Q n p \<Longrightarrow> Q (fst (exec p os w))"
  by (induction n p arbitrary: w rule: ok.induct) simp_all

lemma goes_return [goes_intros]: "Q x \<Longrightarrow> goes K 0 Q (\<lambda>os. State_Monad.return x) (ret_g x)"
  by (rule goesI) (auto simp: ret_g_def intro: ok.intros)

lemma goes_bind_on:
  assumes "goes K n Q m g" and "\<And>x. Q x \<Longrightarrow> goes K l R (f x) (h x)"
  shows "goes K (n + l) R (\<lambda>os. State_Monad.bind (m os) (\<lambda>x. f x os)) (seq_g g h)"
proof (rule goesI)
  fix os w
  have "Q (fst (exec (g (clock w)) os w))" by (rule exec_result [OF goes_ok [OF assms(1)]])
  then show "run_state (State_Monad.bind (m os) (\<lambda>x. f x os)) w = exec (seq_g g h (clock w)) os w"
    by (simp add: seq_g_def exec_after goes_run [OF assms(1)] goes_run [OF assms(2)] case_prod_beta)
next
  show "ok K R (n + l) (seq_g g h t)" for t
    unfolding seq_g_def by (rule ok_after [OF goes_ok [OF assms(1)] goes_ok [OF assms(2)]])
qed

lemmas goes_bind [goes_intros] = goes_bind_on [where Q = "\<lambda>_. True", simplified]

lemma goes_calls [goes_intros]:
  "goes K 1 (\<lambda>_. True) (\<lambda>os. syscall os c) (syscall_g c)"
  "goes K 1 (\<lambda>_. True) (\<lambda>os. attempt os c) (attempt_g c)"
  unfolding One_nat_def
  by (rule goesI; auto simp: syscall_g_def attempt_g_def intro!: ok.intros)+

lemma goes_if [goes_intros]:
  assumes "b \<Longrightarrow> goes K n Q m g" and "\<not> b \<Longrightarrow> goes K l Q m' g'"
  shows "goes K (max n l) Q (\<lambda>os. if b then m os else m' os) (if b then g else g')"
  using assms by (cases b) (auto elim: goes_weaken)

lemma goes_option [goes_intros]:
  assumes "x = None \<Longrightarrow> goes K n Q m g" and "\<And>y. x = Some y \<Longrightarrow> goes K l Q (m' y) (g' y)"
  shows "goes K (max n l) Q (\<lambda>os. case x of None \<Rightarrow> m os | Some y \<Rightarrow> m' y os)
     (case x of None \<Rightarrow> g | Some y \<Rightarrow> g' y)"
  using assms by (cases x) (auto elim: goes_weaken)

lemma goes_sum [goes_intros]:
  assumes "\<And>y. x = Inl y \<Longrightarrow> goes K n Q (m y) (g y)" and "\<And>y. x = Inr y \<Longrightarrow> goes K l Q (m' y) (g' y)"
  shows "goes K (max n l) Q (\<lambda>os. case x of Inl y \<Rightarrow> m y os | Inr y \<Rightarrow> m' y os)
     (case x of Inl y \<Rightarrow> g y | Inr y \<Rightarrow> g' y)"
  using assms by (cases x) (auto elim: goes_weaken)

text \<open>A critical section: reading the processes and writing them back, changed at \<open>K\<close>.\<close>

lemma goes_update [goes_intros]:
  assumes "\<And>m i. i \<notin> K \<Longrightarrow> map_of (f m) i = map_of m i" and "\<And>ps. goes K n Q (k ps) (g ps)"
  shows "goes K n Q (\<lambda>os. State_Monad.bind get_procs
    (\<lambda>ps. State_Monad.bind (set_procs (f ps)) (\<lambda>_. k ps os))) (update_g f g)"
  by (rule goesI)
    (auto simp: update_g_def goes_run [OF assms(2)] intro!: ok.intros assms(1) goes_ok [OF assms(2)])

text \<open>The polling loop, by the time of its next check.\<close>

function poll_tree :: "gotime \<Rightarrow> poller \<Rightarrow> gotime \<Rightarrow> ('f, bool) goroutine" where
  "poll_tree deadline p t =
     (if \<not> t < deadline then Ret False
      else Call (poll_check p) (\<lambda>r e.
        if reply_err r = None then Ret True
        else Call (Sleep (poll_pause p)) (\<lambda>_ e'.
          poll_tree deadline p (t + int e + poll_pause p + int e'))))"
  by pat_completeness auto
termination
proof (relation "measure (\<lambda>(deadline, p, t). nat (deadline - t))")
  fix deadline t :: gotime and p :: poller and e e' :: nat
  assume "\<not> \<not> t < deadline"
  with poll_pause_pos [of p] show "((deadline, p, t + int e + poll_pause p + int e'), deadline, p, t)
      \<in> measure (\<lambda>(deadline, p, t). nat (deadline - t))"
    by (simp del: poll_pause_pos)
qed simp

declare poll_tree.simps [simp del]

lemma exec_poll_tree: "exec (poll_tree deadline p (clock w)) os w = poll os deadline p w"
proof (induction os deadline p w rule: poll.induct)
  case (1 os deadline p w)
  have l: "least_time (poll_check p) = 0" "least_time (Sleep (poll_pause p)) = poll_pause p"
    using poll_pause_pos [of p] by (cases p, simp_all del: poll_pause_pos poll_pause.simps add: max_def)
  show ?case
    using 1 by (subst poll_tree.simps, subst poll.simps) (auto simp: l)
qed

definition rounds :: "duration \<Rightarrow> poller \<Rightarrow> nat" where
  "rounds d p = nat ((d + poll_pause p - 1) div poll_pause p)"

lemma ok_poll_tree: "ok K (\<lambda>_. True) (2 * rounds (deadline - t) p) (poll_tree deadline p t :: ('f, bool) goroutine)"
proof (induction deadline p t rule: poll_tree.induct)
  case (1 deadline p t)
  show ?case
  proof (cases "t < deadline")
    case True
    have less: "Suc (rounds (deadline - (t + int e + poll_pause p + int e')) p) \<le> rounds (deadline - t) p"
      for e e'
    proof -
      let ?P = "poll_pause p" and ?d = "deadline - t"
      have "(?d - (int e + int e') - 1) div ?P \<le> (?d - 1) div ?P"
        using poll_pause_pos [of p] by (intro zdiv_mono1) (simp_all del: poll_pause_pos)
      moreover have "(?d + ?P - 1) div ?P = (?d - 1) div ?P + 1"
        using poll_pause_pos [of p] div_add_self2 [of ?P "?d - 1"]
        by (simp add: algebra_simps del: poll_pause_pos)
      moreover have "0 \<le> (?d - 1) div ?P"
        using True poll_pause_pos [of p] by (intro pos_imp_zdiv_nonneg_iff [THEN iffD2]) (simp_all del: poll_pause_pos)
      ultimately show ?thesis by (simp add: rounds_def algebra_simps nat_le_eq_zle Suc_le_eq)
    qed
    have "ok K (\<lambda>_. True) (2 * rounds (deadline - t) p) (Call (poll_check p :: 'f syscall) (\<lambda>r e.
        if reply_err r = None then Ret True
        else Call (Sleep (poll_pause p)) (\<lambda>_ e'. poll_tree deadline p (t + int e + poll_pause p + int e'))))"
    proof -
      obtain l where l: "rounds (deadline - t) p = Suc l"
        using less [of 0 0] by (cases "rounds (deadline - t) p") simp_all
      have ih: "ok K (\<lambda>_. True) (2 * l)
          (poll_tree deadline p (t + int e + poll_pause p + int e') :: ('f, bool) goroutine)" for e e'
      proof (rule ok_mono)
        show "ok K (\<lambda>_. True) (2 * rounds (deadline - (t + int e + poll_pause p + int e')) p)
            (poll_tree deadline p (t + int e + poll_pause p + int e') :: ('f, bool) goroutine)"
          using 1 [of "Failed []" e e'] True by simp
      qed (use less [of e e'] l in simp_all)
      have n: "2 * rounds (deadline - t) p = Suc (Suc (2 * l))" by (simp add: l)
      show ?thesis unfolding n by (auto intro!: ok.intros ih)
    qed
    with True show ?thesis by (subst poll_tree.simps) simp
  next
    case False
    then show ?thesis by (subst poll_tree.simps) (simp add: ok.intros)
  qed
qed

definition poll_g :: "duration \<Rightarrow> poller \<Rightarrow> ('f, bool) routine" where
  "poll_g timeout p t = poll_tree (t + timeout) p t"

lemma goes_poll [goes_intros]:
  "goes K (2 * rounds timeout p) (\<lambda>_. True) (\<lambda>os. poll_until os timeout p) (poll_g timeout p)"
proof (rule goesI)
  show "ok K (\<lambda>_. True) (2 * rounds timeout p) (poll_g timeout p t)" for t
    unfolding poll_g_def using ok_poll_tree [of K "t + timeout" t p] by simp
qed (simp add: poll_g_def exec_poll_tree)

end
