(* ===== verification/Parallel_Probe.thy ===== *)
theory Parallel_Probe
  imports Switch_Engine Goroutines
begin

text \<open>
  The goroutines of \<open>parallelProbe\<close> in \<open>daemon/internal/switch/switch.go\<close>. \<open>Switch_Engine\<close> runs
  the probes of the candidates one after the other. Here each probe is a goroutine that makes
  the calls of \<open>probeConfig\<close> one by one, between any calls of the others, and shares the map of
  sing-box processes with them; each critical section of \<open>vless.go\<close> is one step. Run alone, the
  goroutine is \<open>probeConfig\<close>; run one after the other, the goroutines are \<open>parallelProbe\<close>; and
  what is proved here holds of every interleaving.
\<close>

section \<open>The managers as goroutines\<close>

type_synonym 'a tunnel_go = "(conf_file, 'a) routine"

definition runCmd_g :: "string \<Rightarrow> string list \<Rightarrow> string option tunnel_go" where
  "runCmd_g name args = seq_g (attempt_g (Run name args)) (\<lambda>err. ret_g
     (map_option (\<lambda>e. name @ '' ['' @ Join args '' '' @ '']: '' @ e) err))"

definition interfaceExists_g :: "string \<Rightarrow> bool tunnel_go" where
  "interfaceExists_g name = seq_g (attempt_g (StatNet name)) (\<lambda>err. ret_g (err = None))"

definition write_file_g :: "string \<Rightarrow> conf_file \<Rightarrow> string res tunnel_go" where
  "write_file_g path content = seq_g (attempt_g (MkdirAll run_dir)) (\<lambda>err.
     case err of Some e \<Rightarrow> ret_g (Inl e)
     | None \<Rightarrow> seq_g (attempt_g (WriteFile path content)) (\<lambda>err.
         ret_g (case err of Some e \<Rightarrow> Inl e | None \<Rightarrow> Inr path)))"

definition quick_up_g :: "string \<Rightarrow> string \<Rightarrow> string \<Rightarrow> string \<Rightarrow> string option tunnel_go" where
  "quick_up_g quick label confPath iface = seq_g (interfaceExists_g iface) (\<lambda>ex.
     seq_g (if ex then runCmd_g quick [''down'', confPath] else ret_g None) (\<lambda>_.
     seq_g (runCmd_g quick [''up'', confPath]) (\<lambda>err.
       case err of Some e \<Rightarrow> ret_g (Some (label @ '' up: '' @ e))
       | None \<Rightarrow> seq_g (poll_g (5 * second) (Interface iface)) (\<lambda>ok.
           ret_g (if ok then None
             else Some (''interface '' @ iface @ '' did not appear after '' @ label @ '' up''))))))"

definition quick_Down_g :: "string \<Rightarrow> string \<Rightarrow> string \<Rightarrow> string option tunnel_go" where
  "quick_Down_g quick confPath iface = seq_g (syscall_g (Stat confPath)) (\<lambda>r.
     if r = not_exist then seq_g (interfaceExists_g iface) (\<lambda>ex.
       if ex then runCmd_g ''ip'' [''link'', ''del'', iface] else ret_g None)
     else runCmd_g quick [''down'', confPath])"

definition wg_Up_g :: "TunnelConfig \<Rightarrow> string option tunnel_go" where
  "wg_Up_g tc = (case WireGuard tc of
       None \<Rightarrow> ret_g (Some (''wg config is nil for '' @ ID tc))
     | Some wgc \<Rightarrow>
         let pskPath = path_join run_dir (ID tc @ ''-psk'') in
         seq_g (if PresharedKey wgc \<noteq> []
                then attempt_g (WriteFile pskPath (TextFile (PresharedKey wgc @ nl)))
                else ret_g None) (\<lambda>err.
         case err of Some e \<Rightarrow> ret_g (Some (''write psk: '' @ e))
         | None \<Rightarrow>
             let d = wg_data tc wgc;
                 d = (if PresharedKey wgc \<noteq> [] then d\<lparr>wd_PSKFile := pskPath\<rparr> else d) in
             seq_g (write_file_g (wg_confPath tc) (TextFile (wgConfTemplate d))) (\<lambda>conf.
             case conf of Inl e \<Rightarrow> ret_g (Some e)
             | Inr confPath \<Rightarrow> quick_up_g ''wg-quick'' ''wg-quick'' confPath (InterfaceName tc))))"

definition awg_Up_g :: "DaemonConfig \<Rightarrow> TunnelConfig \<Rightarrow> string option tunnel_go" where
  "awg_Up_g cfg tc = (case AmneziaWG tc of
       None \<Rightarrow> ret_g (Some (''awg config is nil for '' @ ID tc))
     | Some awg \<Rightarrow>
         seq_g (write_file_g (awg_confPath tc) (TextFile (awgConfTemplate (awg_data tc awg)))) (\<lambda>conf.
         case conf of Inl e \<Rightarrow> ret_g (Some e)
         | Inr confPath \<Rightarrow> quick_up_g (awgQuick cfg) ''awg-quick'' confPath (InterfaceName tc)))"

text \<open>Taking the process out of the map is one critical section of \<open>killProc\<close>.\<close>

definition killProc_g :: "string \<Rightarrow> unit tunnel_go" where
  "killProc_g i = update_g (AList.delete i) (\<lambda>ps. case map_of ps i of
       None \<Rightarrow> ret_g ()
     | Some pid \<Rightarrow>
         seq_g (syscall_g (Kill (- pid) SIGTERM)) (\<lambda>_.
         seq_g (syscall_g (Sleep (500 * millisecond))) (\<lambda>_.
         seq_g (syscall_g (Kill (- pid) SIGKILL)) (\<lambda>_.
         seq_g (syscall_g (Wait pid)) (\<lambda>_. ret_g ())))))"

definition setupRouting_g :: "int \<Rightarrow> int \<Rightarrow> 32 word \<Rightarrow> string option tunnel_go" where
  "setupRouting_g socksPort tableID fwmark =
     seq_g (runCmd_g ''ip'' (rule_args ''add'' fwmark tableID)) (\<lambda>err.
     case err of Some e \<Rightarrow> ret_g (Some (''ip rule add: '' @ e))
     | None \<Rightarrow>
     seq_g (runCmd_g ''ip'' [''route'', ''add'', ''default'', ''via'', ''127.0.0.1'', ''table'', Itoa tableID]) (\<lambda>err.
     case err of Some e \<Rightarrow>
         seq_g (runCmd_g ''ip'' (rule_args ''del'' fwmark tableID)) (\<lambda>_.
         ret_g (Some (''ip route add: '' @ e)))
     | None \<Rightarrow>
     seq_g (runCmd_g ''iptables'' (redirect_args ''-A'' fwmark socksPort)) (\<lambda>err.
     case err of Some e \<Rightarrow>
         seq_g (runCmd_g ''ip'' [''route'', ''flush'', ''table'', Itoa tableID]) (\<lambda>_.
         seq_g (runCmd_g ''ip'' (rule_args ''del'' fwmark tableID)) (\<lambda>_.
         ret_g (Some (''iptables REDIRECT: '' @ e))))
     | None \<Rightarrow> ret_g None)))"

definition start_proc_g :: "string \<Rightarrow> string list \<Rightarrow> int res tunnel_go" where
  "start_proc_g name args = seq_g (syscall_g (Start name args)) (\<lambda>r.
     ret_g (case r of Failed e \<Rightarrow> Inl e | Proc pid \<Rightarrow> Inr pid | Done \<Rightarrow> Inr 0))"

definition vless_Up_g :: "DaemonConfig \<Rightarrow> TunnelConfig \<Rightarrow> string option tunnel_go" where
  "vless_Up_g cfg tc = (case VLESS tc of
       None \<Rightarrow> ret_g (Some (''vless config is nil for '' @ ID tc))
     | Some vless \<Rightarrow>
         let port = localPort tc vless; tableID = routingTableID tc;
             singBox = (if SingBoxBin cfg = [] then ''sing-box'' else SingBoxBin cfg) in
         seq_g (killProc_g (ID tc)) (\<lambda>_.
         seq_g (write_file_g (vless_confPath tc) (SingBoxFile (singBox_config vless port))) (\<lambda>conf.
         case conf of Inl e \<Rightarrow> ret_g (Some (''write sing-box config: '' @ e))
         | Inr confPath \<Rightarrow>
             seq_g (start_proc_g singBox [''run'', ''-c'', confPath]) (\<lambda>r.
             case r of Inl e \<Rightarrow> ret_g (Some (''start sing-box: '' @ e))
             | Inr pid \<Rightarrow> update_g (AList.update (ID tc) pid) (\<lambda>_.
                 seq_g (poll_g (10 * second) (SocksPort port)) (\<lambda>ok.
                 if \<not> ok then seq_g (killProc_g (ID tc)) (\<lambda>_. ret_g
                   (Some (''sing-box did not listen on :'' @ Itoa port @ '' within timeout'')))
                 else seq_g (setupRouting_g port tableID (fwmarkForTable tableID)) (\<lambda>err.
                   case err of Some e \<Rightarrow> seq_g (killProc_g (ID tc)) (\<lambda>_.
                       ret_g (Some (''setup routing: '' @ e)))
                   | None \<Rightarrow> ret_g None)))))))"

definition teardownRouting_g :: "TunnelConfig \<Rightarrow> unit outcome tunnel_go" where
  "teardownRouting_g tc = (case VLESS tc of
       None \<Rightarrow> ret_g (Panic ''nil pointer dereference'')
     | Some vless \<Rightarrow>
         let tableID = routingTableID tc; fwmark = fwmarkForTable tableID in
         seq_g (runCmd_g ''ip'' (rule_args ''del'' fwmark tableID)) (\<lambda>_.
         seq_g (runCmd_g ''ip'' [''route'', ''flush'', ''table'', Itoa tableID]) (\<lambda>_.
         seq_g (runCmd_g ''iptables'' (redirect_args ''-D'' fwmark (localPort tc vless))) (\<lambda>_.
         ret_g (Return ())))))"

definition vless_Down_g :: "TunnelConfig \<Rightarrow> string option outcome tunnel_go" where
  "vless_Down_g tc = seq_g (teardownRouting_g tc) (\<lambda>r.
     case r of Panic e \<Rightarrow> ret_g (Panic e)
     | Return _ \<Rightarrow> seq_g (killProc_g (ID tc)) (\<lambda>_. ret_g (Return None)))"

fun Up_g :: "Manager \<Rightarrow> TunnelConfig \<Rightarrow> string option tunnel_go" where
  "Up_g (WGManager cfg) tc = wg_Up_g tc"
| "Up_g (AWGManager cfg) tc = awg_Up_g cfg tc"
| "Up_g (VLESSManager cfg) tc = vless_Up_g cfg tc"

fun Down_g :: "Manager \<Rightarrow> TunnelConfig \<Rightarrow> string option outcome tunnel_go" where
  "Down_g (WGManager cfg) tc =
     seq_g (quick_Down_g ''wg-quick'' (wg_confPath tc) (InterfaceName tc)) (\<lambda>r. ret_g (Return r))"
| "Down_g (AWGManager cfg) tc =
     seq_g (quick_Down_g (awgQuick cfg) (awg_confPath tc) (InterfaceName tc)) (\<lambda>r. ret_g (Return r))"
| "Down_g (VLESSManager cfg) tc = vless_Down_g tc"

section \<open>The probe of a candidate\<close>

definition up_and_settle_g :: "Manager \<Rightarrow> TunnelConfig \<Rightarrow> string option outcome tunnel_go" where
  "up_and_settle_g mgr tc = seq_g (Up_g mgr tc) (\<lambda>err.
     case err of Some e \<Rightarrow> ret_g (Return (Some e))
     | None \<Rightarrow> seq_g (attempt_g (After second)) (\<lambda>err.
         case err of None \<Rightarrow> ret_g (Return None)
         | Some e \<Rightarrow> seq_g (Down_g mgr tc) (\<lambda>r. ret_g (obind r (\<lambda>_. Return (Some e))))))"

definition probe_round_g ::
    "sw_env \<Rightarrow> DaemonConfig \<Rightarrow> string \<Rightarrow> 32 word \<Rightarrow> AggResult outcome tunnel_go" where
  "probe_round_g env cfg who fwmark t = Look (env_wait env) (\<lambda>h. Ret
     (case env_net env h who of (perm, order, net) \<Rightarrow> ProbeAll perm order net cfg fwmark))"

definition probeConfig_g ::
    "sw_env \<Rightarrow> DaemonConfig \<Rightarrow> string \<Rightarrow> TunnelConfig \<Rightarrow> parallelProbeResult outcome tunnel_go" where
  "probeConfig_g env cfg activeID tc =
     (let tc = probe_interface activeID tc
      in case ForConfig tc cfg of
           Inl e \<Rightarrow> ret_g (Return (probe_failed tc e))
         | Inr mgr \<Rightarrow>
             seq_g (if ID tc \<noteq> activeID then up_and_settle_g mgr tc else ret_g (Return None)) (\<lambda>up.
             case up of Panic p \<Rightarrow> ret_g (Panic p)
             | Return err \<Rightarrow> (case err of
                 Some e \<Rightarrow> ret_g (Return (probe_failed tc e))
               | None \<Rightarrow> seq_g (probe_round_g env cfg (ID tc) (FWMark tc)) (\<lambda>res.
                   ret_g (obind res (\<lambda>a. Return \<lparr>pr_tc = tc, pr_res = a, pr_err = None\<rparr>))))))"

text \<open>The goroutines at their start, each at the time it is first scheduled.\<close>

definition probes_g ::
    "sw_env \<Rightarrow> DaemonConfig \<Rightarrow> string \<Rightarrow> TunnelConfig list \<Rightarrow> gotime list
      \<Rightarrow> (conf_file, parallelProbeResult outcome) goroutine list" where
  "probes_g env cfg activeID tcs ts = map2 (probeConfig_g env cfg activeID) tcs ts"

section \<open>The goroutines are the operations\<close>

lemma goes_outcome [goes_intros]:
  assumes "\<And>y. x = Panic y \<Longrightarrow> goes K n Q (m y) (g y)" and "\<And>y. x = Return y \<Longrightarrow> goes K l Q (m' y) (g' y)"
  shows "goes K (max n l) Q (\<lambda>os. case x of Panic y \<Rightarrow> m y os | Return y \<Rightarrow> m' y os)
     (case x of Panic y \<Rightarrow> g y | Return y \<Rightarrow> g' y)"
  using assms by (cases x) (auto elim: goes_weaken)

lemma goes_runCmd [goes_intros]: "goes K 1 (\<lambda>_. True) (\<lambda>os. runCmd os name args) (runCmd_g name args)"
  unfolding runCmd_def runCmd_g_def
  by (rule goes_le, (rule goes_intros TrueI)+) simp_all

lemma goes_interfaceExists [goes_intros]:
  "goes K 1 (\<lambda>_. True) (\<lambda>os. interfaceExists os name) (interfaceExists_g name)"
  unfolding interfaceExists_def interfaceExists_g_def
  by (rule goes_le, (rule goes_intros TrueI)+) simp_all

lemma goes_write_file [goes_intros]:
  "goes K 2 (\<lambda>_. True) (\<lambda>os. write_file os path content) (write_file_g path content)"
  unfolding write_file_def write_file_g_def
  by (rule goes_le, (rule goes_intros TrueI)+) simp_all

lemma goes_start_proc [goes_intros]:
  "goes K 1 (\<lambda>_. True) (\<lambda>os. start_proc os name args) (start_proc_g name args)"
  unfolding start_proc_def start_proc_g_def
  by (rule goes_le, (rule goes_intros TrueI)+) simp_all

lemma goes_waits [goes_intros]:
  "goes K 50 (\<lambda>_. True) (\<lambda>os. waitForInterface os name (5 * second)) (poll_g (5 * second) (Interface name))"
  "goes K 68 (\<lambda>_. True) (\<lambda>os. waitForPort os port (10 * second)) (poll_g (10 * second) (SocksPort port))"
  unfolding waitForInterface_def waitForPort_def
  by (rule goes_le, rule goes_poll, simp add: rounds_def second_def millisecond_def)+

lemma goes_quick_up [goes_intros]:
  "goes K 53 (\<lambda>_. True) (\<lambda>os. quick_up os quick label confPath iface) (quick_up_g quick label confPath iface)"
  unfolding quick_up_def quick_up_g_def
  by (rule goes_le, (rule goes_intros TrueI)+) simp_all

lemma goes_quick_Down [goes_intros]:
  "goes K 3 (\<lambda>_. True) (\<lambda>os. quick_Down os quick confPath iface) (quick_Down_g quick confPath iface)"
  unfolding quick_Down_def quick_Down_g_def
  by (rule goes_le, (rule goes_intros TrueI)+) simp_all

lemma goes_wg_Up: "goes K 56 (\<lambda>_. True) (\<lambda>os. wg_Up os tc) (wg_Up_g tc)"
  unfolding wg_Up_def wg_Up_g_def wg_writeConf_def Let_def
  by (rule goes_le, (rule goes_intros TrueI)+) simp_all

lemma goes_awg_Up: "goes K 55 (\<lambda>_. True) (\<lambda>os. awg_Up os cfg tc) (awg_Up_g cfg tc)"
  unfolding awg_Up_def awg_Up_g_def awg_writeConf_def
  by (rule goes_le, (rule goes_intros TrueI)+) simp_all

text \<open>Removing nothing changes nothing, so \<open>killProc\<close> is one critical section in both cases.\<close>

lemma killProc_update:
  "killProc os i = do { ps \<leftarrow> get_procs; _ \<leftarrow> set_procs (AList.delete i ps);
     case map_of ps i of None \<Rightarrow> State_Monad.return ()
     | Some pid \<Rightarrow> do {
         _ \<leftarrow> syscall os (Kill (- pid) SIGTERM);
         _ \<leftarrow> syscall os (Sleep (500 * millisecond));
         _ \<leftarrow> syscall os (Kill (- pid) SIGKILL);
         _ \<leftarrow> syscall os (Wait pid);
         State_Monad.return () } }"
proof -
  have "AList.delete i ps = ps" if "map_of ps i = None" for ps :: procs
    using that by (induction ps) auto
  then show ?thesis
    by (intro state.expand ext) (simp add: killProc_def split: option.split)
qed

lemma goes_killProc [goes_intros]:
  "i \<in> K \<Longrightarrow> goes K 4 (\<lambda>_. True) (\<lambda>os. killProc os i) (killProc_g i)"
  unfolding killProc_update killProc_g_def
  by (rule goes_le, rule goes_update, force simp: delete_conv', (rule goes_intros TrueI)+) simp_all

lemma goes_setupRouting [goes_intros]:
  "goes K 5 (\<lambda>_. True) (\<lambda>os. setupRouting os port tableID fwmark) (setupRouting_g port tableID fwmark)"
  unfolding setupRouting_def setupRouting_g_def
  by (rule goes_le, (rule goes_intros TrueI)+) simp_all

lemma goes_vless_Up:
  "ID tc \<in> K \<Longrightarrow> goes K 84 (\<lambda>_. True) (\<lambda>os. vless_Up os cfg tc) (vless_Up_g cfg tc)"
  unfolding vless_Up_def vless_Up_g_def vless_writeConf_def Let_def
  by (rule goes_le, (rule goes_update goes_intros TrueI | assumption | force simp: update_conv')+)

lemma goes_Up [goes_intros]:
  "ID tc \<in> K \<Longrightarrow> goes K 84 (\<lambda>_. True) (\<lambda>os. Up os mgr tc) (Up_g mgr tc)"
  by (cases mgr)
    (simp_all add: goes_le [OF goes_wg_Up] goes_le [OF goes_awg_Up] goes_vless_Up)

text \<open>Taking down a tunnel that has the settings of its protocol does not panic.\<close>

lemma goes_vless_Down:
  assumes "ID tc \<in> K" and "VLESS tc \<noteq> None"
  shows "goes K 7 (\<lambda>r. r = Return None) (\<lambda>os. vless_Down os tc) (vless_Down_g tc)"
proof -
  have "goes K 3 (\<lambda>r. r = Return ()) (\<lambda>os. teardownRouting os tc) (teardownRouting_g tc)"
    unfolding teardownRouting_def teardownRouting_g_def Let_def using assms(2)
    by (intro goes_le [OF goes_option]) (rule goes_intros refl | simp)+
  then show ?thesis
    unfolding vless_Down_def vless_Down_g_def
    by (rule goes_le [OF goes_bind_on]) (auto intro!: goes_le [OF goes_bind] goes_intros assms(1))
qed

lemma goes_Down:
  assumes "ID tc \<in> K" and "candidate_ok tc" and "ForConfig tc cfg = Inr mgr"
  shows "goes K 7 (\<lambda>r. \<exists>a. r = Return a) (\<lambda>os. Down os mgr tc) (Down_g mgr tc)"
proof (cases mgr)
  case (VLESSManager c)
  with assms(2,3) have "VLESS tc \<noteq> None"
    using ForConfig_VLESS by (auto simp: candidate_ok_iff)
  from goes_vless_Down [OF assms(1) this] VLESSManager show ?thesis
    by (auto elim: goes_weaken)
qed (simp; unfold wg_Down_def awg_Down_def; rule goes_le, (rule goes_intros exI refl)+; simp)+

lemma goes_up_and_settle:
  assumes "ID tc \<in> K" and "candidate_ok tc" and "ForConfig tc cfg = Inr mgr"
  shows "goes K 92 (\<lambda>r. \<exists>a. r = Return a)
    (\<lambda>os. up_and_settle (env\<lparr>env_os := os\<rparr>) mgr tc) (up_and_settle_g mgr tc)"
proof -
  have down: "goes K 7 (\<lambda>r. \<exists>a. r = Return a)
      (\<lambda>os. do { r \<leftarrow> Down os mgr tc; State_Monad.return (obind r (\<lambda>_. Return (Some e))) })
      (seq_g (Down_g mgr tc) (\<lambda>r. ret_g (obind r (\<lambda>_. Return (Some e)))))" for e :: string
    by (rule goes_le, rule goes_bind_on [OF goes_Down [OF assms]], rule goes_return) auto
  show ?thesis
    unfolding up_and_settle_def up_and_settle_g_def
    by (simp, rule goes_le, (rule down goes_intros exI refl assms(1))+) simp_all
qed

lemma goes_probe_round:
  assumes "nets_ok env"
  shows "goes K 0 (\<lambda>r. \<exists>a. r = Return a) (\<lambda>os. probe_round (env\<lparr>env_os := os\<rparr>) cfg who fwmark)
    (probe_round_g env cfg who fwmark)"
proof (rule goesI)
  show "ok K (\<lambda>r. \<exists>a. r = Return a) 0 (probe_round_g env cfg who fwmark t)" for t
    unfolding probe_round_g_def
  proof (intro ok.intros)
    fix h
    from assms have "resolver_ok (snd (snd (env_net env h who)))" by (simp add: nets_ok_def)
    from ProbeAll_Return [OF this] show "\<exists>a. (case env_net env h who of (perm, order, net) \<Rightarrow>
        ProbeAll perm order net cfg fwmark) = Return a"
      by (simp add: case_prod_beta)
  qed
qed (simp add: probe_round_g_def probe_round_def case_prod_beta)

lemma goes_after_up:
  assumes "nets_ok env"
  shows "goes K 0 (\<lambda>r. \<exists>a. r = Return a \<and> pr_tc a = tc)
    (\<lambda>os. case up of None \<Rightarrow> do {
         res \<leftarrow> probe_round (env\<lparr>env_os := os\<rparr>) cfg who fwmark;
         State_Monad.return (obind res (\<lambda>a. Return \<lparr>pr_tc = tc, pr_res = a, pr_err = None\<rparr>)) }
       | Some e \<Rightarrow> State_Monad.return (Return (probe_failed tc e)))
    (case up of None \<Rightarrow> seq_g (probe_round_g env cfg who fwmark)
         (\<lambda>res. ret_g (obind res (\<lambda>a. Return \<lparr>pr_tc = tc, pr_res = a, pr_err = None\<rparr>)))
       | Some e \<Rightarrow> ret_g (Return (probe_failed tc e)))"
  by (rule goes_le, rule goes_option, rule goes_bind_on [OF goes_probe_round [OF assms]])
    (auto intro!: goes_return simp: probe_failed_def)

lemma goes_probeConfig:
  assumes "nets_ok env" and "candidate_ok tc"
  shows "goes (if ID tc = activeID then {} else {ID tc}) (if ID tc = activeID then 0 else 92)
    (\<lambda>r. \<exists>a. r = Return a \<and> pr_tc a = probe_interface activeID tc)
    (\<lambda>os. probeConfig (env\<lparr>env_os := os\<rparr>) cfg activeID tc) (probeConfig_g env cfg activeID tc)"
proof (cases "ForConfig (probe_interface activeID tc) cfg")
  case (Inl e)
  with ForConfig_ok [of "probe_interface activeID tc" cfg] assms(2) show ?thesis by auto
next
  case (Inr mgr)
  let ?tc = "probe_interface activeID tc" and ?K = "if ID tc = activeID then {} else {ID tc}"
  have "goes ?K (if ID tc = activeID then 0 else 92) (\<lambda>r. \<exists>a. r = Return a)
      (\<lambda>os. if ID ?tc \<noteq> activeID then up_and_settle (env\<lparr>env_os := os\<rparr>) mgr ?tc
        else State_Monad.return (Return None))
      (if ID ?tc \<noteq> activeID then up_and_settle_g mgr ?tc else ret_g (Return None))"
    using goes_up_and_settle [OF _ _ Inr, of ?K env] assms(2) by (auto intro: goes_return)
  then have "goes ?K ((if ID tc = activeID then 0 else 92) + 0)
      (\<lambda>r. \<exists>a. r = Return a \<and> pr_tc a = ?tc)
      (\<lambda>os. probeConfig (env\<lparr>env_os := os\<rparr>) cfg activeID tc) (probeConfig_g env cfg activeID tc)"
    unfolding probeConfig_def probeConfig_g_def Let_def Inr sum.case
    by (rule goes_bind_on) (auto simp: goes_after_up [OF assms(1)])
  then show ?thesis by simp
qed

section \<open>All probes together\<close>

lemma probes_g_nth:
  "length ts = length tcs \<Longrightarrow> i < length tcs
     \<Longrightarrow> probes_g env cfg activeID tcs ts ! i = probeConfig_g env cfg activeID (tcs ! i) (ts ! i)"
  by (simp add: probes_g_def)

definition others :: "string \<Rightarrow> TunnelConfig list \<Rightarrow> TunnelConfig list" where
  "others activeID tcs = filter (\<lambda>tc. ID tc \<noteq> activeID) tcs"

definition probed :: "string \<Rightarrow> TunnelConfig \<Rightarrow> parallelProbeResult outcome \<Rightarrow> bool" where
  "probed activeID tc r \<longleftrightarrow> (\<exists>a. r = Return a \<and> pr_tc a = probe_interface activeID tc)"

definition call_bound :: "string \<Rightarrow> TunnelConfig \<Rightarrow> nat" where
  "call_bound activeID tc = (if ID tc = activeID then 0 else 92)"

lemma sum_call_bound: "sum_list (map (call_bound activeID) tcs) = 92 * length (others activeID tcs)"
  by (induction tcs) (simp_all add: others_def call_bound_def)

lemma probes_inv:
  assumes "nets_ok env" and "list_all candidate_ok tcs" and "length ts = length tcs"
  shows "par_inv (- {activeID}) (map (probed activeID) tcs) (map (call_bound activeID) tcs) (length h)
    m (probes_g env cfg activeID tcs ts, h, m)"
proof -
  have "ok (- {activeID}) (probed activeID (tcs ! i)) (call_bound activeID (tcs ! i))
      (probes_g env cfg activeID tcs ts ! i)" if i: "i < length tcs" for i
  proof -
    from assms(2) i have c: "candidate_ok (tcs ! i)" by (simp add: list_all_length)
    show ?thesis
      unfolding probes_g_nth [OF assms(3) i] probed_def call_bound_def
      by (rule ok_mono [OF goes_ok [OF goes_probeConfig [OF assms(1) c]]]) auto
  qed
  then show ?thesis
    using assms(3)
    by (auto simp: par_inv_def probes_g_def intro!: exI [of _ "map (call_bound activeID) tcs"])
qed

lemma probes_reach:
  assumes "nets_ok env" and "list_all candidate_ok tcs" and "length ts = length tcs"
    and "interleaved os (probes_g env cfg activeID tcs ts, calls w, procMap w) (ps, h, m)"
  shows "length ps = length tcs" and "length h \<le> length (calls w) + 92 * length (others activeID tcs)"
    and "map_of m activeID = map_of (procMap w) activeID"
    and "i < length tcs \<Longrightarrow> ok (- {activeID}) (probed activeID (tcs ! i)) (call_bound activeID (tcs ! i)) (ps ! i)"
proof -
  from par_inv_reach [OF assms(4) probes_inv [OF assms(1-3)]]
  obtain ns where ns: "length h + sum_list ns \<le> length (calls w) + 92 * length (others activeID tcs)"
      "\<And>i. i < length tcs \<Longrightarrow> ns ! i \<le> call_bound activeID (tcs ! i)"
      "\<And>i. i < length tcs \<Longrightarrow> ok (- {activeID}) (probed activeID (tcs ! i)) (ns ! i) (ps ! i)"
      and l: "length ps = length tcs" "map_of m activeID = map_of (procMap w) activeID"
    by (auto simp: par_inv_def sum_call_bound)
  show "length h \<le> length (calls w) + 92 * length (others activeID tcs)" using ns(1) by simp
  show "ok (- {activeID}) (probed activeID (tcs ! i)) (call_bound activeID (tcs ! i)) (ps ! i)"
    if "i < length tcs"
    using ns(3) [OF that] ns(2) [OF that] by (rule ok_mono) simp_all
  show "length ps = length tcs" "map_of m activeID = map_of (procMap w) activeID" by (fact l)+
qed

lemma probes_sequential:
  assumes "nets_ok env" and "list_all candidate_ok tcs"
  shows "\<exists>rs ts. result (parallelProbe env cfg activeID tcs) w = Return rs \<and> length ts = length tcs
    \<and> interleaved (env_os env) (pre @ probes_g env cfg activeID tcs ts, calls w, procMap w)
        (pre @ map (\<lambda>r. Ret (Return r)) rs,
         calls (final (parallelProbe env cfg activeID tcs) w),
         procMap (final (parallelProbe env cfg activeID tcs) w))"
  using assms(2)
proof (induction tcs arbitrary: w pre)
  case Nil
  then show ?case by (simp add: probes_g_def)
next
  case (Cons tc tcs)
  let ?w = "final (probeConfig env cfg activeID tc) w" and ?p = "probeConfig_g env cfg activeID tc (clock w)"
  from Cons.prems have g: "goes (if ID tc = activeID then {} else {ID tc}) (if ID tc = activeID then 0 else 92)
      (\<lambda>r. \<exists>a. r = Return a \<and> pr_tc a = probe_interface activeID tc)
      (\<lambda>os. probeConfig (env\<lparr>env_os := os\<rparr>) cfg activeID tc) (probeConfig_g env cfg activeID tc)"
    by (intro goes_probeConfig [OF assms(1)]) simp
  have run: "exec ?p (env_os env) w = run_state (probeConfig env cfg activeID tc) w"
    using goes_run [OF g, of "env_os env" w] by simp
  obtain r where r: "result (probeConfig env cfg activeID tc) w = Return r"
    using exec_result [OF goes_ok [OF g]] run by metis
  from Cons obtain rs ts where rs: "result (parallelProbe env cfg activeID tcs) ?w = Return rs"
      "length ts = length tcs"
      "interleaved (env_os env) ((pre @ [Ret (Return r)]) @ probes_g env cfg activeID tcs ts, calls ?w, procMap ?w)
        ((pre @ [Ret (Return r)]) @ map (\<lambda>r. Ret (Return r)) rs,
         calls (final (parallelProbe env cfg activeID tcs) ?w),
         procMap (final (parallelProbe env cfg activeID tcs) ?w))"
    by (metis list.pred_inject(2))
  have "interleaved (env_os env) (pre @ ?p # probes_g env cfg activeID tcs ts, calls w, procMap w)
      (pre @ Ret (Return r) # probes_g env cfg activeID tcs ts, calls ?w, procMap ?w)"
    using exec_interleaved [of "length pre" "pre @ ?p # probes_g env cfg activeID tcs ts" ?p "env_os env" w]
    by (simp add: run r)
  with rs show ?case
    by (intro exI [of _ "r # rs"] exI [of _ "clock w # ts"])
      (auto simp: r probes_g_def intro: rtranclp_trans)
qed

section \<open>Properties\<close>

text \<open>
  C9: probing ends with every result in its place. However the goroutines are interleaved and
  whatever the system answers them together, no run of them goes on for ever, none waits for
  another or panics, each candidate but the active one costs at most 92 calls, and when all have
  ended, the results are those of the candidates in their order, under their probe interfaces.
\<close>

theorem parallel_probe_ends:
  assumes "nets_ok env" and "list_all candidate_ok tcs" and "length ts = length tcs"
    and "interleaved os (probes_g env cfg activeID tcs ts, calls w, procMap w) (ps, h, m)"
  shows "length h \<le> length (calls w) + 92 * length (others activeID tcs)
    \<and> (\<nexists>f. f 0 = (ps, h, m) \<and> (\<forall>n. go_step os (f n) (f (Suc n))))
    \<and> ((\<exists>s. go_step os (ps, h, m) s)
       \<or> (\<exists>rs. ps = map (\<lambda>r. Ret (Return r)) rs \<and> map pr_tc rs = map (probe_interface activeID) tcs))"
proof -
  note reach = probes_reach [OF assms]
  have "\<exists>rs. ps = map (\<lambda>r. Ret (Return r)) rs \<and> map pr_tc rs = map (probe_interface activeID) tcs"
    if stuck: "\<nexists>s. go_step os (ps, h, m) s"
  proof -
    have "\<exists>r. ps ! i = Ret (Return r) \<and> pr_tc r = probe_interface activeID (tcs ! i)" if i: "i < length ps" for i
    proof -
      from go_step_progress [OF i] stuck obtain x where x: "ps ! i = Ret x" by blast
      with reach(4) [of i] i reach(1) have "probed activeID (tcs ! i) x" by (auto elim: ok_RetE)
      with x show ?thesis by (auto simp: probed_def)
    qed
    then obtain r where "\<And>i. i < length ps \<Longrightarrow> ps ! i = Ret (Return (r i)) \<and> pr_tc (r i) = probe_interface activeID (tcs ! i)"
      by metis
    with reach(1) show ?thesis
      by (intro exI [of _ "map r [0..<length ps]"]) (auto intro!: nth_equalityI)
  qed
  with reach(2) no_endless_run [of os] show ?thesis by auto
qed

definition two_candidates :: "TunnelConfig list" where
  "two_candidates = [nl_vless, nl_vless\<lparr>ID := ''de''\<rparr>]"

lemma two_candidates_ok: "list_all candidate_ok two_candidates"
  by (simp add: two_candidates_def candidate_ok_iff nl_vless_def)

lemma parallel_probe_ends_witness:
  "\<exists>rs h m. interleaved (env_os demo_env)
      (probes_g demo_env demo_cfg ''old'' two_candidates [0, 5], calls idle_world, procMap idle_world)
      (map (\<lambda>r. Ret (Return r)) rs, h, m)
    \<and> length h \<le> length (calls idle_world) + 92 * length (others ''old'' two_candidates)
    \<and> map pr_tc rs = map (probe_interface ''old'') two_candidates"
proof -
  obtain ps h m where s: "interleaved (env_os demo_env)
      (probes_g demo_env demo_cfg ''old'' two_candidates [0, 5], calls idle_world, procMap idle_world) (ps, h, m)"
      "\<forall>t. \<not> go_step (env_os demo_env) (ps, h, m) t"
    using interleaving_ends by (metis prod_cases3)
  have l: "length [0, 5 :: gotime] = length two_candidates" by (simp add: two_candidates_def)
  from parallel_probe_ends [OF demo_env_ok(1) two_candidates_ok l s(1)] s show ?thesis by blast
qed



text \<open>
  C11: the active tunnel survives the probing of the others. In every interleaving of the probes,
  whatever the candidates are and also when some carry the active id, the sing-box process kept
  for the active id stays what it was, as it does when the probes' tunnels are taken down; and
  the goroutine that probes the active configuration makes no call to the system.
\<close>

theorem parallel_probe_keeps_active:
  assumes "nets_ok env" and "list_all candidate_ok tcs" and "length ts = length tcs"
    and "interleaved os (probes_g env cfg activeID tcs ts, calls w, procMap w) (ps, h, m)"
  shows "map_of m activeID = map_of (procMap w) activeID
    \<and> map_of (procMap (final (tear_down env cfg activeID rs) w')) activeID = map_of (procMap w') activeID
    \<and> (\<forall>i<length tcs. ID (tcs ! i) = activeID \<longrightarrow> (\<forall>c k. ps ! i \<noteq> Call c k))"
proof -
  have "ps ! i \<noteq> Call c k" if "i < length tcs" "ID (tcs ! i) = activeID" for i c k
    using probes_reach(4) [OF assms that(1)] that(2) by (auto simp: call_bound_def elim: ok_CallE)
  with probes_reach(3) [OF assms] show ?thesis by (simp add: tear_down_active)
qed

lemma parallel_probe_keeps_active_witness:
  "\<exists>ps h m. interleaved (env_os demo_env)
      (probes_g demo_env demo_cfg ''de'' two_candidates [0, 5], calls idle_world, procMap idle_world) (ps, h, m)
    \<and> (\<forall>t. \<not> go_step (env_os demo_env) (ps, h, m) t)
    \<and> map_of m ''de'' = map_of (procMap idle_world) ''de''"
proof -
  obtain ps h m where s: "interleaved (env_os demo_env)
      (probes_g demo_env demo_cfg ''de'' two_candidates [0, 5], calls idle_world, procMap idle_world) (ps, h, m)"
      "\<forall>t. \<not> go_step (env_os demo_env) (ps, h, m) t"
    using interleaving_ends by (metis prod_cases3)
  have l: "length [0, 5 :: gotime] = length two_candidates" by (simp add: two_candidates_def)
  from parallel_probe_keeps_active [OF demo_env_ok(1) two_candidates_ok l s(1)] s show ?thesis by blast
qed

section \<open>A probe that is cut short\<close>

text \<open>
  The probes share a context with a deadline. \<open>exec.CommandContext\<close> does not start a command
  whose context is over: from a wait that was cut short on, every command of the probe fails.
\<close>

definition cut_after :: "tunnel_os \<Rightarrow> conf_file oslog \<Rightarrow> bool" where
  "cut_after os h \<longleftrightarrow> (\<forall>cs e name args. (After second, Failed e) \<in> set cs
     \<longrightarrow> reply_err (answer os (h @ cs) (Run name args)) \<noteq> None)"

lemma Down_log:
  assumes "candidate_ok tc" and "ForConfig tc cfg = Inr mgr"
  shows "\<exists>cs. calls (final (Down os mgr tc) w) = calls w @ cs
    \<and> (\<forall>k<length cs. snd (cs ! k) = answer os (calls w @ take k cs) (fst (cs ! k)))"
  using exec_log [of "Down_g mgr tc (clock w)" os w]
    goes_run [OF goes_Down [OF insertI1 assms], of os w] by simp

lemma Up_log: "\<exists>cs. calls (final (Up os mgr tc) w) = calls w @ cs"
  using exec_log [of "Up_g mgr tc (clock w)" os w] goes_run [OF goes_Up [OF insertI1], of os mgr tc w]
  by auto


definition late_os :: tunnel_os where
  "late_os = \<lparr>answer = (\<lambda>h c. case c of
       After d \<Rightarrow> Failed ''context deadline exceeded''
     | Run name args \<Rightarrow>
         if list_ex (\<lambda>(c, r). c = After second) h then Failed ''context deadline exceeded'' else Done
     | _ \<Rightarrow> Done), elapsed = (\<lambda>h c. 0)\<rparr>"

definition late_candidate :: TunnelConfig where
  "late_candidate = zero_tc\<lparr>ID := ''wg'', Protocol := ProtocolWireGuard, InterfaceName := ''wg0'',
     WireGuard := Some zero_wg\<rparr>"

lemma late_candidate_up:
  "result (Up late_os (WGManager demo_cfg) late_candidate) idle_world = None"
  by (simp add: late_candidate_def wg_Up_def wg_writeConf_def write_file_def quick_up_def interfaceExists_def
      waitForInterface_def poll.simps late_os_def zero_wg_def Let_def second_def millisecond_def
      idle_world_def)


end
