(* ===== verification/Sockets.thy ===== *)
theory Sockets
  imports Probe_Engine Dpi_Detector
begin

text \<open>
  How the probes and the detector reach the network: the dialers and HTTP clients of
  \<open>probe/probe.go\<close> and \<open>dpi/detector.go\<close>, and the two \<open>socket_linux.go\<close>, which set the mark
  that makes the kernel route a connection through a tunnel. \<open>kernel\<close> is what lies below: the
  system calls on a socket, what a connection reaches in view of the options set on it, the
  system resolver, and the parsing of URLs. \<open>net_of\<close> and \<open>detect_of\<close> are the networks of
  \<open>Probe_Engine\<close> and \<open>Dpi_Detector\<close> that the code builds on it.
\<close>

section \<open>Sockets\<close>

text \<open>A socket before it connects: the options set on it, as level, name and value.\<close>

type_synonym socket = "(int \<times> int \<times> int) list"

record http_request =
  rq_Method :: string
  rq_URL :: string
  rq_Host :: string
  rq_Header :: "(string \<times> string) list"

record http_response =
  rs_StatusCode :: int
  rs_Answer :: "goerror + (int \<times> string) list"

text \<open>
  \<open>k_Control\<close> is the error of \<open>RawConn.Control\<close> itself; \<open>rs_Answer\<close> is the body of a response as
  \<open>json.Decode\<close> reads a \<open>dohJSONResponse\<close> from it; \<open>k_exchange\<close> gets the options of the
  connection, whether the certificate check is off and whether a redirect is an answer.
\<close>

record kernel =
  k_Control :: "goerror option"
  k_setsockopt :: "socket \<Rightarrow> int \<Rightarrow> int \<Rightarrow> int \<Rightarrow> goerror option"
  k_connect :: "socket \<Rightarrow> string \<Rightarrow> goerror option"
  k_elapsed :: "socket \<Rightarrow> string \<Rightarrow> duration"
  k_exchange :: "socket \<Rightarrow> bool \<Rightarrow> bool \<Rightarrow> http_request \<Rightarrow> goerror + http_response"
  k_ParseIP :: "string \<Rightarrow> string option"
  k_LookupHost :: "string \<Rightarrow> goerror + string list"
  k_url_addr :: "string \<Rightarrow> string"
  k_doh_url :: "string \<Rightarrow> string \<Rightarrow> goerror + string"
  k_Elapsed :: "ProbeTarget \<Rightarrow> duration"
  k_Now :: gotime

definition SOL_SOCKET :: int where
  "SOL_SOCKET = 1"

definition SO_MARK :: int where
  "SO_MARK = 36"

text \<open>\<open>SetsockoptInt\<close> takes the mark as an \<open>int\<close> and hands the kernel its low 32 bits.\<close>

definition controlWithFWMark ::
    "32 word \<Rightarrow> string \<Rightarrow> string \<Rightarrow> kernel \<Rightarrow> socket \<Rightarrow> goerror option \<times> socket" where
  "controlWithFWMark fwmark network address k s = (case k_Control k of
       Some err \<Rightarrow> (Some err, s)
     | None \<Rightarrow> (case k_setsockopt k s SOL_SOCKET SO_MARK (uint fwmark) of
         Some setsockoptErr \<Rightarrow> (Some setsockoptErr, s)
       | None \<Rightarrow> (None, s @ [(SOL_SOCKET, SO_MARK, uint fwmark)])))"

record Dialer =
  dl_Timeout :: duration
  dl_KeepAlive :: duration
  dl_Control :: "(string \<Rightarrow> string \<Rightarrow> kernel \<Rightarrow> socket \<Rightarrow> goerror option \<times> socket) option"

definition markedDialer :: "32 word \<Rightarrow> Dialer" where
  "markedDialer fwmark =
     (let d = \<lparr>dl_Timeout = 10 * second, dl_KeepAlive = - 1, dl_Control = None\<rparr>
      in if fwmark \<noteq> 0 then d\<lparr>dl_Control := Some (controlWithFWMark fwmark)\<rparr> else d)"

text \<open>The copies of the two in package \<open>dpi\<close>.\<close>

definition dpi_controlWithFWMark ::
    "32 word \<Rightarrow> string \<Rightarrow> string \<Rightarrow> kernel \<Rightarrow> socket \<Rightarrow> goerror option \<times> socket" where
  "dpi_controlWithFWMark fwmark network address k s = (case k_Control k of
       Some err \<Rightarrow> (Some err, s)
     | None \<Rightarrow> (case k_setsockopt k s SOL_SOCKET SO_MARK (uint fwmark) of
         Some setsockoptErr \<Rightarrow> (Some setsockoptErr, s)
       | None \<Rightarrow> (None, s @ [(SOL_SOCKET, SO_MARK, uint fwmark)])))"

definition dpi_markedDialer :: "32 word \<Rightarrow> Dialer" where
  "dpi_markedDialer fwmark =
     (let d = \<lparr>dl_Timeout = 10 * second, dl_KeepAlive = - 1, dl_Control = None\<rparr>
      in if fwmark \<noteq> 0 then d\<lparr>dl_Control := Some (dpi_controlWithFWMark fwmark)\<rparr> else d)"

lemma dialer_copies_agree [simp]: "dpi_markedDialer = markedDialer"
proof -
  have "dpi_controlWithFWMark = controlWithFWMark"
    by (simp add: fun_eq_iff dpi_controlWithFWMark_def controlWithFWMark_def)
  then show ?thesis by (intro ext) (simp only: dpi_markedDialer_def markedDialer_def)
qed

text \<open>
  \<open>net.Dialer.DialContext\<close>: a new socket, the control function before the connection, whose error
  ends the dial.
\<close>

definition DialContext :: "Dialer \<Rightarrow> kernel \<Rightarrow> string \<Rightarrow> string \<Rightarrow> (goerror + socket) \<times> duration" where
  "DialContext d k network addr =
     (let (err, s) = (case dl_Control d of None \<Rightarrow> (None, [])
                      | Some control \<Rightarrow> control network addr k [])
      in (case err of
            Some e \<Rightarrow> Inl (OpError e (''dial '' @ network @ '' '' @ addr @ '': '' @ ErrorText e))
          | None \<Rightarrow> (case k_connect k s addr of Some e \<Rightarrow> Inl e | None \<Rightarrow> Inr s),
          k_elapsed k s addr))"

section \<open>HTTP clients\<close>

record Transport =
  tp_Dialer :: Dialer
  tp_DisableKeepAlives :: bool
  tp_InsecureSkipVerify :: bool

definition transportWithSkipVerify :: "Transport \<Rightarrow> Transport" where
  "transportWithSkipVerify t = t\<lparr>tp_InsecureSkipVerify := True\<rparr>"

text \<open>A timeout of 0 is no timeout; \<open>hc_UseLastResponse\<close> is the \<open>CheckRedirect\<close> that stops.\<close>

record http_client =
  hc_Transport :: Transport
  hc_UseLastResponse :: bool
  hc_Timeout :: duration

definition plainHTTPClient :: "32 word \<Rightarrow> http_client" where
  "plainHTTPClient fwmark =
     \<lparr>hc_Transport = \<lparr>tp_Dialer = dpi_markedDialer fwmark, tp_DisableKeepAlives = True,
        tp_InsecureSkipVerify = False\<rparr>,
      hc_UseLastResponse = True, hc_Timeout = 8 * second\<rparr>"

definition tlsHTTPClient :: "32 word \<Rightarrow> bool \<Rightarrow> http_client" where
  "tlsHTTPClient fwmark skipVerify =
     \<lparr>hc_Transport = \<lparr>tp_Dialer = dpi_markedDialer fwmark, tp_DisableKeepAlives = True,
        tp_InsecureSkipVerify = skipVerify\<rparr>,
      hc_UseLastResponse = True, hc_Timeout = 10 * second\<rparr>"

text \<open>The client of \<open>probeHTTP\<close> and the one of \<open>lookupHostDoH\<close>.\<close>

definition probe_client :: "32 word \<Rightarrow> bool \<Rightarrow> http_client" where
  "probe_client fwmark https =
     (let transport = \<lparr>tp_Dialer = markedDialer fwmark, tp_DisableKeepAlives = True,
            tp_InsecureSkipVerify = False\<rparr>
      in \<lparr>hc_Transport = (if https then transportWithSkipVerify transport else transport),
          hc_UseLastResponse = True, hc_Timeout = 0\<rparr>)"

definition doh_client :: "32 word \<Rightarrow> http_client" where
  "doh_client fwmark =
     \<lparr>hc_Transport = \<lparr>tp_Dialer = markedDialer fwmark, tp_DisableKeepAlives = False,
        tp_InsecureSkipVerify = False\<rparr>,
      hc_UseLastResponse = False, hc_Timeout = 6 * second\<rparr>"

text \<open>\<open>http.Client.Do\<close>: one connection by the client's dialer, then the exchange on it.\<close>

definition client_Do :: "kernel \<Rightarrow> http_client \<Rightarrow> http_request \<Rightarrow> goerror + http_response" where
  "client_Do k c req =
     (case fst (DialContext (tp_Dialer (hc_Transport c)) k ''tcp'' (k_url_addr k (rq_URL req))) of
        Inl err \<Rightarrow> Inl (URLError err (rq_URL req @ '': '' @ ErrorText err))
      | Inr s \<Rightarrow> k_exchange k s (tp_InsecureSkipVerify (hc_Transport c)) (hc_UseLastResponse c) req)"

definition sum_err :: "goerror + 'a \<Rightarrow> goerror option" where
  "sum_err r = (case r of Inl e \<Rightarrow> Some e | Inr _ \<Rightarrow> None)"

section \<open>The networks of the probes and of the detector\<close>

definition browser_header :: "(string \<times> string) list" where
  "browser_header =
     [(''User-Agent'', ''Mozilla/5.0 (Windows NT 10.0; Win64; x64) AppleWebKit/537.36 (KHTML, like Gecko) Chrome/124.0.0.0 Safari/537.36''),
      (''Accept'', ''*/*''), (''Connection'', ''close'')]"

definition probe_head :: "kernel \<Rightarrow> 32 word \<Rightarrow> string \<Rightarrow> string \<Rightarrow> bool \<Rightarrow> goerror option" where
  "probe_head k fwmark url host https = sum_err (client_Do k (probe_client fwmark https)
     \<lparr>rq_Method = ''HEAD'', rq_URL = url, rq_Host = host, rq_Header = browser_header\<rparr>)"

definition doh_query :: "kernel \<Rightarrow> 32 word \<Rightarrow> string \<Rightarrow> string \<Rightarrow> goerror + (int \<times> string) list" where
  "doh_query k fwmark endpoint host = (case k_doh_url k endpoint host of
       Inl err \<Rightarrow> Inl err
     | Inr u \<Rightarrow> (case client_Do k (doh_client fwmark) \<lparr>rq_Method = ''GET'', rq_URL = u, rq_Host = [],
              rq_Header = [(''Accept'', ''application/dns-json'')]\<rparr> of
           Inl err \<Rightarrow> Inl err
         | Inr resp \<Rightarrow> rs_Answer resp))"

definition net_of :: "kernel \<Rightarrow> net_env" where
  "net_of k = \<lparr>ParseIP = k_ParseIP k, LookupHost = k_LookupHost k, DoHQuery = doh_query k,
     DialTCP = (\<lambda>fwmark addr. sum_err (fst (DialContext (markedDialer fwmark) k ''tcp'' addr))),
     HTTPHead = probe_head k, Elapsed = k_Elapsed k\<rparr>"

definition detect_head :: "string \<Rightarrow> http_request" where
  "detect_head url = \<lparr>rq_Method = ''HEAD'', rq_URL = url, rq_Host = [],
     rq_Header = [(''User-Agent'', ''Mozilla/5.0 (compatible)'')]\<rparr>"

definition detect_of :: "kernel \<Rightarrow> detect_env" where
  "detect_of k = \<lparr>dt_now = k_Now k,
     dt_dial = (\<lambda>fwmark addr. map_prod sum_err (\<lambda>d. d) (DialContext (dpi_markedDialer fwmark) k ''tcp'' addr)),
     dt_http = (\<lambda>fwmark url. sum_err (client_Do k (plainHTTPClient fwmark) (detect_head url))),
     dt_https = (\<lambda>fwmark url. map_sum (\<lambda>e. e) rs_StatusCode
        (client_Do k (tlsHTTPClient fwmark False) (detect_head url)))\<rparr>"

section \<open>Lemmas\<close>

lemma markedDialer_simps:
  "dl_Control (markedDialer fwmark) = (if fwmark = 0 then None else Some (controlWithFWMark fwmark))"
  by (simp add: markedDialer_def Let_def)

text \<open>
  Two kernels that agree on sockets with the mark, or on those without for mark 0, and on
  everything before a connection.
\<close>

definition marked_socket :: "32 word \<Rightarrow> socket" where
  "marked_socket fwmark = (if fwmark = 0 then [] else [(SOL_SOCKET, SO_MARK, uint fwmark)])"

definition agree_on_mark :: "32 word \<Rightarrow> kernel \<Rightarrow> kernel \<Rightarrow> bool" where
  "agree_on_mark fwmark k k' \<longleftrightarrow>
     k_Control k = k_Control k' \<and> k_setsockopt k = k_setsockopt k'
     \<and> (\<forall>addr. k_connect k (marked_socket fwmark) addr
             = k_connect k' (marked_socket fwmark) addr)
     \<and> (\<forall>skip last req. k_exchange k (marked_socket fwmark) skip last req
             = k_exchange k' (marked_socket fwmark) skip last req)
     \<and> k_ParseIP k = k_ParseIP k' \<and> k_LookupHost k = k_LookupHost k' \<and> k_url_addr k = k_url_addr k'
     \<and> k_doh_url k = k_doh_url k' \<and> k_Elapsed k = k_Elapsed k' \<and> k_elapsed k = k_elapsed k'
     \<and> k_Now k = k_Now k'"

lemma marked_dial:
  assumes "agree_on_mark fwmark k k'"
  shows "DialContext (markedDialer fwmark) k network addr = DialContext (markedDialer fwmark) k' network addr"
    and "fst (DialContext (markedDialer fwmark) k network addr) = Inr s \<Longrightarrow> s = marked_socket fwmark"
proof -
  note simps = DialContext_def markedDialer_simps controlWithFWMark_def agree_on_mark_def
    marked_socket_def Let_def
  show "DialContext (markedDialer fwmark) k network addr
      = DialContext (markedDialer fwmark) k' network addr"
    using assms by (cases "fwmark = 0") (auto simp: simps split: option.splits)
  show "s = marked_socket fwmark" if "fst (DialContext (markedDialer fwmark) k network addr) = Inr s"
    using that by (cases "fwmark = 0") (auto simp: simps split: option.splits)
qed

lemma marked_Do:
  assumes "agree_on_mark fwmark k k'" and "tp_Dialer (hc_Transport c) = markedDialer fwmark"
  shows "client_Do k c req = client_Do k' c req"
proof (cases "fst (DialContext (markedDialer fwmark) k ''tcp'' (k_url_addr k (rq_URL req)))")
  case (Inr s)
  with marked_dial(2) [OF assms(1)] have "s = marked_socket fwmark" by blast
  with Inr marked_dial(1) [OF assms(1)] assms show ?thesis
    by (simp add: client_Do_def agree_on_mark_def)
qed (use assms marked_dial(1) [OF assms(1)] in \<open>simp add: client_Do_def agree_on_mark_def\<close>)

lemma client_dialers:
  "tp_Dialer (hc_Transport (plainHTTPClient fwmark)) = markedDialer fwmark"
  "tp_Dialer (hc_Transport (tlsHTTPClient fwmark skip)) = markedDialer fwmark"
  "tp_Dialer (hc_Transport (probe_client fwmark https)) = markedDialer fwmark"
  "tp_Dialer (hc_Transport (doh_client fwmark)) = markedDialer fwmark"
  by (simp_all add: plainHTTPClient_def tlsHTTPClient_def probe_client_def doh_client_def Let_def
      transportWithSkipVerify_def)

text \<open>A round of probes asks the network with its own mark only.\<close>

lemma ProbeAll_cong:
  assumes "ParseIP n = ParseIP n'" and "LookupHost n = LookupHost n'" and "DoHQuery n fwmark = DoHQuery n' fwmark"
    and "DialTCP n fwmark = DialTCP n' fwmark" and "HTTPHead n fwmark = HTTPHead n' fwmark"
    and "Elapsed n = Elapsed n'"
  shows "ProbeAll perm order n cfg fwmark = ProbeAll perm order n' cfg fwmark"
proof -
  have "lookupHostDoH n host fwmark endpoint = lookupHostDoH n' host fwmark endpoint" for host endpoint
    using assms(1,3) by (simp add: lookupHostDoH_def cong: sum.case_cong)
  note doh = this
  have "lookupHost n host fwmark cfg = lookupHost n' host fwmark cfg" for host
    unfolding lookupHost_def doh assms ..
  note lookup = this
  have "runProbe n t fwmark cfg = runProbe n' t fwmark cfg" for t
    unfolding runProbe_def probeICMP_def probeTCP_def probeHTTP_def lookup assms ..
  then show ?thesis by (simp add: ProbeAll_def probe_targets_def)
qed

lemma Detect_cong:
  assumes "dt_now e = dt_now e'" and "dt_dial e fwmark = dt_dial e' fwmark"
    and "dt_http e fwmark = dt_http e' fwmark" and "dt_https e fwmark = dt_https e' fwmark"
  shows "Detect e targets fwmark = Detect e' targets fwmark"
proof -
  have "http_loop e host fwmark ps s = http_loop e' host fwmark ps s" for host ps s
    using assms(3) by (induction ps arbitrary: s) (auto simp: probeHTTPHead_def split: option.split)
  note loop = this
  show ?thesis
    unfolding Detect_def http_step_def https_step_def loop assms ..
qed

lemma net_of_agree:
  assumes "agree_on_mark fwmark k k'"
  shows "DialTCP (net_of k) fwmark = DialTCP (net_of k') fwmark"
    and "HTTPHead (net_of k) fwmark = HTTPHead (net_of k') fwmark"
    and "DoHQuery (net_of k) fwmark = DoHQuery (net_of k') fwmark"
    and "dt_dial (detect_of k) fwmark = dt_dial (detect_of k') fwmark"
    and "dt_http (detect_of k) fwmark = dt_http (detect_of k') fwmark"
    and "dt_https (detect_of k) fwmark = dt_https (detect_of k') fwmark"
proof -
  note d = marked_Do [OF assms] client_dialers
  show "DialTCP (net_of k) fwmark = DialTCP (net_of k') fwmark"
    "dt_dial (detect_of k) fwmark = dt_dial (detect_of k') fwmark"
    by (simp_all add: net_of_def detect_of_def marked_dial(1) [OF assms])
  show "HTTPHead (net_of k) fwmark = HTTPHead (net_of k') fwmark"
    by (simp add: net_of_def probe_head_def d fun_eq_iff)
  show "DoHQuery (net_of k) fwmark = DoHQuery (net_of k') fwmark"
    using assms by (intro ext) (simp add: net_of_def doh_query_def d agree_on_mark_def cong: sum.case_cong)
  show "dt_http (detect_of k) fwmark = dt_http (detect_of k') fwmark"
    "dt_https (detect_of k) fwmark = dt_https (detect_of k') fwmark"
    by (simp_all add: detect_of_def d fun_eq_iff)
qed

text \<open>A round in which no dial and no request succeeds.\<close>

lemma unmarked_probes_fail:
  assumes "resolver_ok net" and "\<And>addr. DialTCP net fwmark addr \<noteq> None"
    and "\<And>url host skip. HTTPHead net fwmark url host skip \<noteq> None"
  shows "\<exists>r. runProbe net t fwmark cfg = Return r \<and> \<not> r_Success r"
proof -
  define f where "f a = the (DialTCP net fwmark a)" for a
  define g where "g u h s = the (HTTPHead net fwmark u h s)" for u h s
  have d: "DialTCP net fwmark a = Some (f a)" "HTTPHead net fwmark u h s = Some (g u h s)" for a u h s
    using assms(2) [of a] assms(3) [of u h s] by (auto simp: f_def g_def)
  have "\<exists>e. probeICMP net host fwmark cfg = Return (Some e)" "\<exists>e. probeTCP net host port fwmark cfg = Return (Some e)"
    "\<exists>e. probeHTTP net scheme host port fwmark cfg = Return (Some e)" for host port scheme
    using lookupHost_nonempty [OF assms(1), of host fwmark cfg]
    by (auto simp: probeICMP_def probeTCP_def probeHTTP_def Let_def first_addr_Return d
        split: sum.splits option.splits)
  then have "\<exists>e. (case pt_Type t of
              ProbeICMP \<Rightarrow> probeICMP net (pt_Host t) fwmark cfg
            | ProbeTCP \<Rightarrow> probeTCP net (pt_Host t) (pt_Port t) fwmark cfg
            | ProbeHTTP \<Rightarrow> probeHTTP net ''http'' (pt_Host t) (pt_Port t) fwmark cfg
            | ProbeHTTPS \<Rightarrow> probeHTTP net ''https'' (pt_Host t) (pt_Port t) fwmark cfg
            | OtherProbe t \<Rightarrow> Return (Some (ErrText (''unknown probe type: '' @ t)))) = Return (Some e)"
    by (cases "pt_Type t") simp_all
  then show ?thesis by (auto simp: runProbe_def)
qed

lemma all_probes_fail:
  assumes "\<And>t. \<exists>r. runProbe net t fwmark cfg = Return r \<and> \<not> r_Success r"
  shows "\<exists>a. ProbeAll perm order net cfg fwmark = Return a \<and> \<not> a_Success a
    \<and> list_all (\<lambda>r. \<not> r_Success r) (Results a)"
proof -
  from assms obtain r where r: "\<And>t. runProbe net t fwmark cfg = Return (r t)" "\<And>t. \<not> r_Success (r t)"
    by metis
  have "outcomes (map (\<lambda>t. runProbe net t fwmark cfg) ts) = Return (map r ts)" for ts
    by (induction ts) (simp_all add: r)
  moreover have "filter r_Success (map r ts) = []" for ts by (induction ts) (simp_all add: r)
  ultimately show ?thesis
    by (auto simp: ProbeAll_def probe_targets_def aggregate_def Let_def list_all_iff r)
qed

section \<open>Properties\<close>

text \<open>
  C13: a round sees its own route only. With a mark, every connection of a round of probes, DoH
  queries included, and of the detector is made on a socket with exactly this mark: what else the
  machine can reach makes no difference to the outcome. Without one, as in the health checks, the
  verification of a switch and the diagnosis, what the marked sockets reach makes none: these ask
  the default route and see a tunnel only where the policy's own rules lead into it. The system
  resolver is the exception to both.
\<close>

theorem round_isolated:
  assumes "agree_on_mark fwmark k k'"
  shows "ProbeAll perm order (net_of k) cfg fwmark = ProbeAll perm order (net_of k') cfg fwmark
    \<and> Detect (detect_of k) targets fwmark = Detect (detect_of k') targets fwmark"
proof
  have "ParseIP (net_of k) = ParseIP (net_of k')" "LookupHost (net_of k) = LookupHost (net_of k')"
      "Elapsed (net_of k) = Elapsed (net_of k')" "dt_now (detect_of k) = dt_now (detect_of k')"
    using assms by (simp_all add: net_of_def detect_of_def agree_on_mark_def)
  note same = this net_of_agree [OF assms]
  from same show "ProbeAll perm order (net_of k) cfg fwmark = ProbeAll perm order (net_of k') cfg fwmark"
    by (intro ProbeAll_cong)
  from same show "Detect (detect_of k) targets fwmark = Detect (detect_of k') targets fwmark"
    by (intro Detect_cong)
qed

text \<open>A machine whose default route works, and one where nothing but mark 101 connects.\<close>

definition open_kernel :: kernel where
  "open_kernel = \<lparr>k_Control = None, k_setsockopt = (\<lambda>s l n v. None), k_connect = (\<lambda>s a. None),
     k_elapsed = (\<lambda>s a. 0), k_exchange = (\<lambda>s skip last req. Inr \<lparr>rs_StatusCode = 200, rs_Answer = Inr []\<rparr>),
     k_ParseIP = Some, k_LookupHost = (\<lambda>h. Inl (DNSError False ''no such host'')), k_url_addr = (\<lambda>u. u),
     k_doh_url = (\<lambda>e h. Inr e), k_Elapsed = (\<lambda>t. 0), k_Now = 0\<rparr>"

definition tunnel_kernel :: kernel where
  "tunnel_kernel = open_kernel\<lparr>k_connect := (\<lambda>s a. if s = [(SOL_SOCKET, SO_MARK, 101)] then None
     else Some (OpError (Errno ECONNREFUSED ''refused'') ''dial''))\<rparr>"

lemma round_isolated_witness:
  "ProbeAll [] [] (net_of open_kernel) DefaultDaemonConfig 101
     = ProbeAll [] [] (net_of tunnel_kernel) DefaultDaemonConfig 101
   \<and> open_kernel \<noteq> tunnel_kernel"
proof -
  have "agree_on_mark 101 open_kernel tunnel_kernel"
    by (simp add: agree_on_mark_def marked_socket_def tunnel_kernel_def open_kernel_def)
  moreover have "k_connect open_kernel [] [] \<noteq> k_connect tunnel_kernel [] []"
    by (simp add: tunnel_kernel_def open_kernel_def)
  ultimately show ?thesis
    using round_isolated [of 101 open_kernel tunnel_kernel "[]" "[]" DefaultDaemonConfig "[]"]
    by auto
qed

text \<open>
  C32: no mark, no probe. When the mark cannot be set on a socket, a round of marked probes, whatever
  its targets and given that the resolver answers with an address or an error, ends without a panic
  and every probe in it fails: none falls back to an unmarked connection.
\<close>

theorem unmarkable_round_fails:
  assumes "fwmark \<noteq> 0" and "\<And>s v. k_setsockopt k s SOL_SOCKET SO_MARK v \<noteq> None"
    and "resolver_ok (net_of k)"
  shows "\<exists>a. ProbeAll perm order (net_of k) cfg fwmark = Return a \<and> \<not> a_Success a
    \<and> list_all (\<lambda>r. \<not> r_Success r) (Results a)"
proof -
  have d: "\<exists>e. fst (DialContext (markedDialer fwmark) k network addr) = Inl e" for network addr
    using assms(1) assms(2) [of "[]" "uint fwmark"]
    by (auto simp: DialContext_def markedDialer_simps controlWithFWMark_def Let_def split: option.split)
  have fail: "DialTCP (net_of k) fwmark addr \<noteq> None" "HTTPHead (net_of k) fwmark url host skip \<noteq> None"
      for addr url host skip
    using d [of "''tcp''" addr] d [of "''tcp''" "k_url_addr k url"]
    by (auto simp: net_of_def probe_head_def client_Do_def client_dialers sum_err_def)
  from unmarked_probes_fail [OF assms(3) fail(1) fail(2)]
  show ?thesis by (rule all_probes_fail)
qed

definition unprivileged_kernel :: kernel where
  "unprivileged_kernel = open_kernel\<lparr>k_setsockopt := (\<lambda>s l n v.
     Some (SyscallError (Errno (OtherErrno 1) ''operation not permitted'') ''setsockopt''))\<rparr>"

lemma unmarkable_round_fails_witness:
  "\<exists>a. ProbeAll [] [] (net_of unprivileged_kernel) DefaultDaemonConfig 101 = Return a \<and> \<not> a_Success a"
  using unmarkable_round_fails [of 101 unprivileged_kernel "[]" "[]" DefaultDaemonConfig]
  by (auto simp: unprivileged_kernel_def open_kernel_def resolver_ok_def net_of_def)

end
