(* ===== verification/Tunnel_Health.thy ===== *)
theory Tunnel_Health
  imports Watchdog_Loop Sockets
begin

text \<open>
  What the health checks of \<open>watchdog.go\<close> can see. \<open>doProbe\<close> in \<open>daemon/internal/watchdog/watchdog.go\<close>
  probes without a mark; put together with the sockets of \<open>Sockets\<close>, a tick in HEALTHY or DEGRADED
  depends on unmarked sockets only. A tunnel that carries nothing any more is not noticed as long
  as the default route works.
\<close>

section \<open>The network of a tick, by kernels\<close>

text \<open>A kernel for each round, as \<open>env_net\<close> has a network for each.\<close>

type_synonym kernels = "conf_file oslog \<Rightarrow> string \<Rightarrow> nat list \<times> ProbeErrType list \<times> kernel"

definition on_kernels :: "kernels \<Rightarrow> wd_env \<Rightarrow> wd_env" where
  "on_kernels K env = env\<lparr>wd_sw := (wd_sw env)\<lparr>env_net :=
     (\<lambda>h who. case K h who of (perm, order, k) \<Rightarrow> (perm, order, net_of k))\<rparr>\<rparr>"

text \<open>The unmarked sockets of every round work as those of a kernel on which it succeeds.\<close>

definition default_route_works :: "DaemonConfig \<Rightarrow> kernels \<Rightarrow> bool" where
  "default_route_works cfg K \<longleftrightarrow> (\<forall>h who. case K h who of (perm, order, k) \<Rightarrow>
     \<exists>k' a. agree_on_mark 0 k k' \<and> ProbeAll perm order (net_of k') cfg 0 = Return a \<and> a_Success a)"

lemma unmarked_round_succeeds:
  assumes "default_route_works cfg K"
  shows "\<exists>a. result (probe_round (wd_sw (on_kernels K env)) cfg who 0) w = Return a \<and> a_Success a"
proof -
  obtain perm order k where K: "K (calls w) who = (perm, order, k)" by (cases "K (calls w) who")
  then obtain k' a where k: "agree_on_mark 0 k k'"
      "ProbeAll perm order (net_of k') cfg 0 = Return a" "a_Success a"
    using assms [unfolded default_route_works_def, THEN spec, THEN spec, of "calls w" who] by auto
  from k(1) have same: "ParseIP (net_of k) = ParseIP (net_of k')"
      "LookupHost (net_of k) = LookupHost (net_of k')" "Elapsed (net_of k) = Elapsed (net_of k')"
    by (simp_all add: net_of_def agree_on_mark_def)
  have "ProbeAll perm order (net_of k) cfg 0 = ProbeAll perm order (net_of k') cfg 0"
    by (rule ProbeAll_cong) (use same net_of_agree [OF k(1)] in simp_all)
  with k K show ?thesis by (auto simp: probe_round_def on_kernels_def)
qed

section \<open>Ticks in good health\<close>

definition undisturbed :: "Watchdog \<Rightarrow> Watchdog \<Rightarrow> bool" where
  "undisturbed w w' \<longleftrightarrow> current (w_machine w') = StateHealthy \<and> w_cfg w' = w_cfg w
     \<and> activeConfigID (w_machine w') = activeConfigID (w_machine w)
     \<and> calls (sw_world (w_sw w')) = calls (sw_world (w_sw w))
     \<and> procMap (sw_world (w_sw w')) = procMap (sw_world (w_sw w))"

lemma undisturbed_trans: "undisturbed u v \<Longrightarrow> undisturbed v w \<Longrightarrow> undisturbed u w"
  by (simp add: undisturbed_def)

lemma healthy_tick:
  assumes "current (w_machine w) = StateHealthy" and "default_route_works (w_cfg w) K"
  shows "\<exists>w'. tick (on_kernels K env) w = Return w' \<and> undisturbed w w'"
proof (cases "resting w")
  case True
  then show ?thesis using assms(1) by (simp add: tick_def doProbe_rests undisturbed_def)
next
  case False
  obtain a where "result (probe_round (wd_sw (on_kernels K env)) (w_cfg w) [] 0) (sw_world (w_sw w)) = Return a"
      "a_Success a"
    using unmarked_round_succeeds [OF assms(2)] by blast
  then show ?thesis
    using assms(1) False
    by (simp add: tick_def doProbe_def resting_def undisturbed_def RecordSuccess_def set_machine_def)
qed

lemma healthy_loop:
  assumes "current (w_machine w) = StateHealthy" and "0 < ProbeIntervalHealthy (w_cfg w)"
    and "list_all (\<lambda>(t, env, K). default_route_works (w_cfg w) K) xs"
  shows "\<exists>w'. loop_events (map (\<lambda>(t, env, K). Tick t (on_kernels K env)) xs) w = Return (w', Waiting)
    \<and> undisturbed w w'"
  using assms
proof (induction xs arbitrary: w)
  case Nil
  then show ?case by (simp add: undisturbed_def)
next
  case (Cons x xs)
  obtain t env K where x: "x = (t, env, K)" by (cases x)
  obtain w' where w': "tick (on_kernels K env) (pass_time t w) = Return w'" "undisturbed (pass_time t w) w'"
    using healthy_tick [of "pass_time t w" K env] Cons.prems x by auto
  then have u: "undisturbed w w'" by (simp add: undisturbed_def pass_time_def)
  then have "checked ''Ticker.Reset'' w' = Return w'"
    using Cons.prems(2) by (simp add: checked_def probeInterval_def undisturbed_def)
  moreover obtain w'' where "loop_events (map (\<lambda>(t, env, K). Tick t (on_kernels K env)) xs) w' = Return (w'', Waiting)"
      "undisturbed w' w''"
    using Cons.IH [of w'] Cons.prems u by (auto simp: undisturbed_def)
  ultimately show ?case using w'(1) undisturbed_trans [OF u] by (auto simp: x)
qed

section \<open>Properties\<close>

text \<open>
  C12: a dead tunnel goes unnoticed. Started healthy on a positive interval, the daemon stays
  healthy with the same active configuration and makes no call to the system at any sequence of
  ticks at which unmarked sockets answer as they do when a round of probes without a mark
  succeeds, whatever the marked ones reach: the health checks do not go through the active
  tunnel, unless the policy's own rules lead the targets into it.
\<close>

theorem dead_tunnel_unnoticed:
  assumes "current (w_machine w) = StateHealthy" and "0 < ProbeIntervalHealthy (w_cfg w)"
    and "list_all (\<lambda>(t, env, K). default_route_works (w_cfg w) K) xs"
  shows "\<exists>w'. Run_watchdog (map (\<lambda>(t, env, K). Tick t (on_kernels K env)) xs) w = Return (w', Waiting)
    \<and> current (w_machine w') = StateHealthy
    \<and> activeConfigID (w_machine w') = activeConfigID (w_machine w)
    \<and> calls (sw_world (w_sw w')) = calls (sw_world (w_sw w))"
proof -
  have "checked ''NewTicker'' w = Return w"
    using assms(1,2) by (simp add: checked_def probeInterval_def)
  with healthy_loop [OF assms] show ?thesis by (auto simp: Run_watchdog_def undisturbed_def)
qed

text \<open>A machine on which no marked socket connects: its tunnels are dead, its default route works.\<close>

definition dead_tunnels :: kernel where
  "dead_tunnels = open_kernel\<lparr>k_connect := (\<lambda>s a. if s = [] then None
     else Some (OpError (Errno ECONNREFUSED ''refused'') ''dial''))\<rparr>"

lemma one_probe:
  "ProbeAll [] order net demo_cfg fwmark
     = obind (runProbe net (zero_pt\<lparr>pt_Host := ''1.1.1.1'', pt_Type := ProbeICMP\<rparr>) fwmark demo_cfg)
         (\<lambda>r. Return (aggregate order [r]))" (is "_ = obind ?r _")
proof -
  have "selectTargets [] demo_cfg = [zero_pt\<lparr>pt_Host := ''1.1.1.1'', pt_Type := ProbeICMP\<rparr>]"
    by (simp add: selectTargets_def demo_cfg_def)
  then show ?thesis by (cases ?r) (simp_all add: ProbeAll_def probe_targets_def)
qed

lemma dead_tunnels_rounds:
  "\<exists>a. ProbeAll [] all_err_types (net_of dead_tunnels) demo_cfg 0 = Return a \<and> a_Success a"
  "\<exists>a. ProbeAll [] all_err_types (net_of dead_tunnels) demo_cfg 101 = Return a \<and> \<not> a_Success a"
proof -
  note defs = one_probe runProbe_def probeICMP_def lookupHost_def first_addr_def aggregate_def Let_def
    net_of_def dead_tunnels_def open_kernel_def DialContext_def markedDialer_simps controlWithFWMark_def
    sum_err_def
  have f: "fl (1 / 2) < fl 1" "\<not> fl (1 / 2) < fl 0" "fl 1 = 1" "fl 0 = 0"
    using fl_quotient_half [of 1 1] fl_quotient_half [of 1 0] fl_of_int [of 1] fl_of_int [of 0] by simp_all
  show "\<exists>a. ProbeAll [] all_err_types (net_of dead_tunnels) demo_cfg 0 = Return a \<and> a_Success a"
    using f by (simp add: defs)
  show "\<exists>a. ProbeAll [] all_err_types (net_of dead_tunnels) demo_cfg 101 = Return a \<and> \<not> a_Success a"
    using f by (simp add: defs)
qed

lemma dead_tunnel_unnoticed_witness:
  "\<exists>w'. Run_watchdog (map (\<lambda>t. Tick t (on_kernels (\<lambda>h who. ([], all_err_types, dead_tunnels)) demo_wd))
        [30, 60]) (demo_watchdog NoFile) = Return (w', Waiting)
    \<and> current (w_machine w') = StateHealthy
    \<and> (\<exists>a. ProbeAll [] all_err_types (net_of dead_tunnels) demo_cfg 101 = Return a \<and> \<not> a_Success a)"
proof -
  let ?K = "\<lambda>h who. ([], all_err_types, dead_tunnels)"
  have "agree_on_mark 0 dead_tunnels dead_tunnels" by (simp add: agree_on_mark_def)
  then have "default_route_works demo_cfg ?K"
    using dead_tunnels_rounds(1) unfolding default_route_works_def by auto
  then show ?thesis
    using dead_tunnel_unnoticed [of "demo_watchdog NoFile" "map (\<lambda>t. (t, demo_wd, ?K)) [30, 60]"]
      dead_tunnels_rounds(2)
    by (auto simp: demo_cfg_def DefaultDaemonConfig_def unit_defs)
qed

end
