(* ===== verification/Dpi_Clones.thy ===== *)
theory Dpi_Clones
  imports Dpi_Variants
begin

text \<open>
  The pointers of \<open>daemon/internal/dpi/variants.go\<close>. A \<open>TunnelConfig\<close> points to its settings, a
  WireGuard part to the array of its allowed IPs, and the generators write through the pointers
  of the copies that \<open>cloneWG\<close>, \<open>cloneAWG\<close> and \<open>cloneVLESS\<close> make. \<open>Dpi_Variants\<close> treats a copy as a
  value; here the store is explicit, the copies are as deep as the code makes them, and the
  generators on the store are shown to agree with those on values and to leave every other
  tunnel alone.
\<close>

section \<open>The store\<close>

text \<open>A struct holds its plain fields in \<open>s_fields\<close>, whose settings are those behind the pointers.\<close>

record TunnelStruct =
  s_fields :: TunnelConfig
  s_wg :: "nat option"
  s_awg :: "nat option"
  s_vless :: "nat option"
  s_dpi :: "nat option"

datatype obj =
    TunnelObj TunnelStruct
  | WGObj WireGuardConfig nat
  | AWGObj AmneziaWGConfig nat
  | VLESSObj VLESSConfig
  | DPIObj DPISettings
  | Array "string list"

record store =
  mem :: "nat \<Rightarrow> obj option"
  top :: nat

definition alloc :: "obj \<Rightarrow> store \<Rightarrow> nat \<times> store" where
  "alloc x h = (top h, \<lparr>mem = (mem h)(top h \<mapsto> x), top = Suc (top h)\<rparr>)"

definition read_array :: "store \<Rightarrow> nat \<Rightarrow> string list" where
  "read_array h a = (case mem h a of Some (Array xs) \<Rightarrow> xs | _ \<Rightarrow> [])"

definition read_wg :: "store \<Rightarrow> nat \<Rightarrow> WireGuardConfig option" where
  "read_wg h a = (case mem h a of
       Some (WGObj w i) \<Rightarrow> Some (w\<lparr>AllowedIPs := read_array h i\<rparr>) | _ \<Rightarrow> None)"

definition read_awg :: "store \<Rightarrow> nat \<Rightarrow> AmneziaWGConfig option" where
  "read_awg h a = (case mem h a of
       Some (AWGObj w i) \<Rightarrow> Some (w\<lparr>AllowedIPs := read_array h i\<rparr>) | _ \<Rightarrow> None)"

definition read_vless :: "store \<Rightarrow> nat \<Rightarrow> VLESSConfig option" where
  "read_vless h a = (case mem h a of Some (VLESSObj vl) \<Rightarrow> Some vl | _ \<Rightarrow> None)"

definition read_dpi :: "store \<Rightarrow> nat \<Rightarrow> DPISettings option" where
  "read_dpi h a = (case mem h a of Some (DPIObj d) \<Rightarrow> Some d | _ \<Rightarrow> None)"

definition read_tunnel :: "store \<Rightarrow> nat \<Rightarrow> TunnelConfig option" where
  "read_tunnel h p = (case mem h p of
       Some (TunnelObj t) \<Rightarrow> Some ((s_fields t)
         \<lparr>WireGuard := Option.bind (s_wg t) (read_wg h),
          AmneziaWG := Option.bind (s_awg t) (read_awg h),
          VLESS := Option.bind (s_vless t) (read_vless h),
          DPI := Option.bind (s_dpi t) (read_dpi h)\<rparr>)
     | _ \<Rightarrow> None)"

section \<open>Copies and writes\<close>

definition cloneWG :: "nat \<Rightarrow> store \<Rightarrow> nat \<times> store" where
  "cloneWG p h = (case mem h p of
       Some (TunnelObj t) \<Rightarrow> (case s_wg t of
           None \<Rightarrow> alloc (TunnelObj t) h
         | Some a \<Rightarrow> (case mem h a of
             Some (WGObj wg i) \<Rightarrow>
               let (ips, h1) = alloc (Array (read_array h i)) h;
                   (w, h2) = alloc (WGObj wg ips) h1
               in alloc (TunnelObj (t\<lparr>s_wg := Some w\<rparr>)) h2
           | _ \<Rightarrow> (p, h)))
     | _ \<Rightarrow> (p, h))"

definition cloneAWG :: "nat \<Rightarrow> store \<Rightarrow> nat \<times> store" where
  "cloneAWG p h = (case mem h p of
       Some (TunnelObj t) \<Rightarrow> (case s_awg t of
           None \<Rightarrow> alloc (TunnelObj t) h
         | Some a \<Rightarrow> (case mem h a of
             Some (AWGObj awg i) \<Rightarrow>
               let (ips, h1) = alloc (Array (read_array h i)) h;
                   (w, h2) = alloc (AWGObj awg ips) h1
               in alloc (TunnelObj (t\<lparr>s_awg := Some w\<rparr>)) h2
           | _ \<Rightarrow> (p, h)))
     | _ \<Rightarrow> (p, h))"

definition cloneVLESS :: "nat \<Rightarrow> store \<Rightarrow> nat \<times> store" where
  "cloneVLESS p h = (case mem h p of
       Some (TunnelObj t) \<Rightarrow> (case s_vless t of
           None \<Rightarrow> alloc (TunnelObj t) h
         | Some a \<Rightarrow> (case mem h a of
             Some (VLESSObj vl) \<Rightarrow>
               let (w, h1) = alloc (VLESSObj vl) h
               in alloc (TunnelObj (t\<lparr>s_vless := Some w\<rparr>)) h1
           | _ \<Rightarrow> (p, h)))
     | _ \<Rightarrow> (p, h))"

text \<open>
  What the generators write, by the field: to the struct of the copy, or through its pointer to
  its settings. \<open>SetProfile\<close> writes a profile and then headers drawn from a position on.
\<close>

datatype edit =
    SetMTU int
  | SetEndpoint string
  | SetProfile awgProfile nat
  | SetFingerprint string
  | SetTransport string
  | SetTransportPath string
  | SetECH
  | SetPort int

fun edit_struct :: "edit \<Rightarrow> TunnelConfig \<Rightarrow> TunnelConfig" where
  "edit_struct (SetMTU m) s = s\<lparr>MTU := m\<rparr>"
| "edit_struct _ s = s"

fun edit_wg :: "edit \<Rightarrow> WireGuardConfig \<Rightarrow> WireGuardConfig" where
  "edit_wg (SetEndpoint e) w = w\<lparr>Endpoint := e\<rparr>"
| "edit_wg _ w = w"

fun edit_awg :: "(nat \<Rightarrow> int) \<Rightarrow> edit \<Rightarrow> AmneziaWGConfig \<Rightarrow> AmneziaWGConfig" where
  "edit_awg draws (SetEndpoint e) w = w\<lparr>Endpoint := e\<rparr>"
| "edit_awg draws (SetProfile prof n) w = randomizeAWGHeaders draws n (apply_profile prof w)"
| "edit_awg draws _ w = w"

fun edit_vless :: "edit \<Rightarrow> VLESSConfig \<Rightarrow> VLESSConfig" where
  "edit_vless (SetFingerprint fp) vl = vl\<lparr>Fingerprint := fp\<rparr>"
| "edit_vless (SetTransport tr) vl = vl\<lparr>Transport := tr,
     TransportPath := (if TransportPath vl = [] then ''/'' else TransportPath vl)\<rparr>"
| "edit_vless (SetTransportPath p) vl = vl\<lparr>TransportPath := p\<rparr>"
| "edit_vless SetECH vl = vl\<lparr>ECH := True\<rparr>"
| "edit_vless (SetPort p) vl = vl\<lparr>Port := p\<rparr>"
| "edit_vless _ vl = vl"

definition put_obj :: "nat \<Rightarrow> obj \<Rightarrow> store \<Rightarrow> store" where
  "put_obj a x h = h\<lparr>mem := (mem h)(a \<mapsto> x)\<rparr>"

definition write_struct :: "(TunnelConfig \<Rightarrow> TunnelConfig) \<Rightarrow> nat \<Rightarrow> store \<Rightarrow> store" where
  "write_struct f v h = (case mem h v of
       Some (TunnelObj t) \<Rightarrow> put_obj v (TunnelObj (t\<lparr>s_fields := f (s_fields t)\<rparr>)) h | _ \<Rightarrow> h)"

definition write_part :: "(nat \<Rightarrow> int) \<Rightarrow> edit \<Rightarrow> nat option \<Rightarrow> store \<Rightarrow> store" where
  "write_part draws e q h = (case q of None \<Rightarrow> h | Some a \<Rightarrow> (case mem h a of
       Some (WGObj w i) \<Rightarrow> put_obj a (WGObj (edit_wg e w) i) h
     | Some (AWGObj w i) \<Rightarrow> put_obj a (AWGObj (edit_awg draws e w) i) h
     | Some (VLESSObj vl) \<Rightarrow> put_obj a (VLESSObj (edit_vless e vl)) h
     | _ \<Rightarrow> h))"

text \<open>The copy and the part that a protocol's generators write to.\<close>

datatype kind = KindWG | KindAWG | KindVLESS

fun clone :: "kind \<Rightarrow> nat \<Rightarrow> store \<Rightarrow> nat \<times> store" where
  "clone KindWG = cloneWG"
| "clone KindAWG = cloneAWG"
| "clone KindVLESS = cloneVLESS"

fun part_ptr :: "kind \<Rightarrow> TunnelStruct \<Rightarrow> nat option" where
  "part_ptr KindWG t = s_wg t"
| "part_ptr KindAWG t = s_awg t"
| "part_ptr KindVLESS t = s_vless t"

definition ptr_of :: "kind \<Rightarrow> store \<Rightarrow> nat \<Rightarrow> nat option" where
  "ptr_of k h v = (case mem h v of Some (TunnelObj t) \<Rightarrow> part_ptr k t | _ \<Rightarrow> None)"

section \<open>The generators on the store\<close>

text \<open>One round of a generator's loop: the copy, its marks, its edit.\<close>

definition new_variant ::
    "(nat \<Rightarrow> int) \<Rightarrow> kind \<Rightarrow> nat \<Rightarrow> string \<times> edit \<Rightarrow> store \<Rightarrow> nat \<times> store" where
  "new_variant draws k p se h =
     (case read_tunnel h p of
        None \<Rightarrow> (p, h)
      | Some tc \<Rightarrow>
          let (v, h) = clone k p h;
              h = write_struct (\<lambda>s. mark_variant tc (fst se) (edit_struct (snd se) s)) v h;
              h = write_part draws (snd se) (ptr_of k h v) h
          in (v, h))"

fun new_variants ::
    "(nat \<Rightarrow> int) \<Rightarrow> kind \<Rightarrow> nat \<Rightarrow> (string \<times> edit) list \<Rightarrow> store \<Rightarrow> nat list \<times> store" where
  "new_variants draws k p [] h = ([], h)"
| "new_variants draws k p (se # ses) h =
     (let (v, h) = new_variant draws k p se h;
          (vs, h) = new_variants draws k p ses h
      in (v # vs, h))"

text \<open>
  What each generator makes of the tunnel it is given: the id's suffix and the write of every
  round.
\<close>

type_synonym generator = "TunnelConfig \<Rightarrow> (string \<times> edit) list"

definition mtu_edits :: generator where
  "mtu_edits tc = map (\<lambda>m. (''mtu'' @ Itoa m, SetMTU m)) (filter (\<lambda>m. m \<noteq> MTU tc) mtuVariants)"

definition endpoint_edits :: "string \<Rightarrow> (string \<times> edit) list" where
  "endpoint_edits e =
     (if e = [] then []
      else let (host, currentPort, ok) = splitEndpointHostPort e
           in if \<not> ok then []
              else map (\<lambda>p. (''ep'' @ Itoa p, SetEndpoint (joinEndpointHostPort host p)))
                     (filter (\<lambda>p. p \<noteq> currentPort) endpointPortVariants))"

definition wg_endpoint_edits :: generator where
  "wg_endpoint_edits tc = (case WireGuard tc of None \<Rightarrow> [] | Some w \<Rightarrow> endpoint_edits (Endpoint w))"

definition awg_endpoint_edits :: generator where
  "awg_endpoint_edits tc = (case AmneziaWG tc of None \<Rightarrow> [] | Some w \<Rightarrow> endpoint_edits (Endpoint w))"

fun profile_loop :: "AmneziaWGConfig \<Rightarrow> awgProfile list \<Rightarrow> nat \<Rightarrow> (string \<times> edit) list" where
  "profile_loop cur [] n = []"
| "profile_loop cur (prof # profs) n =
     (if same_profile cur prof then profile_loop cur profs n
      else (''awg:'' @ prof_name prof, SetProfile prof n) # profile_loop cur profs (n + 4))"

definition profile_edits :: "BlockType \<Rightarrow> generator" where
  "profile_edits hint tc = (case AmneziaWG tc of None \<Rightarrow> [] | Some cur \<Rightarrow>
     profile_loop cur (if hint = BlockProtocol
       then [awgProfiles ! 2, awgProfiles ! 1, awgProfiles ! 0] else awgProfiles) 0)"

definition on_vless :: "(VLESSConfig \<Rightarrow> (string \<times> edit) list) \<Rightarrow> generator" where
  "on_vless g tc = (case VLESS tc of None \<Rightarrow> [] | Some vl \<Rightarrow> g vl)"

definition fingerprint_edits :: "VLESSConfig \<Rightarrow> (string \<times> edit) list" where
  "fingerprint_edits vl = map (\<lambda>fp. (''fp:'' @ fp, SetFingerprint fp))
     (filter (\<lambda>fp. fp \<noteq> Fingerprint vl) vlessFingerprints)"

definition transport_edits :: "VLESSConfig \<Rightarrow> (string \<times> edit) list" where
  "transport_edits vl = map (\<lambda>tr. (''tr:'' @ tr, SetTransport tr))
     (filter (\<lambda>tr. tr \<noteq> Transport vl) vlessTransports)"

definition path_edits :: "VLESSConfig \<Rightarrow> (string \<times> edit) list" where
  "path_edits vl =
     (if Transport vl \<notin> {''ws'', ''httpupgrade'', ''grpc''} then []
      else map (\<lambda>p. (''path:'' @ slugPathVariant p, SetTransportPath p))
             (filter (\<lambda>p. p \<noteq> TransportPath vl)
               (map (normalizeTransportPath (Transport vl)) vlessPathVariants)))"

definition ech_edits :: "VLESSConfig \<Rightarrow> (string \<times> edit) list" where
  "ech_edits vl = (if Security vl = ''none'' \<or> ECH vl then [] else [(''ech:on'', SetECH)])"

definition port_edits :: "VLESSConfig \<Rightarrow> (string \<times> edit) list" where
  "port_edits vl =
     (if Port vl \<le> 0 then []
      else map (\<lambda>p. (''port'' @ Itoa p, SetPort p))
             (filter (\<lambda>p. p \<noteq> Port vl) endpointPortVariants))"

lemmas edit_defs = mtu_edits_def endpoint_edits_def wg_endpoint_edits_def awg_endpoint_edits_def
  profile_edits_def on_vless_def fingerprint_edits_def transport_edits_def path_edits_def
  ech_edits_def port_edits_def

fun generators :: "kind \<Rightarrow> BlockType \<Rightarrow> TunnelConfig \<Rightarrow> generator list" where
  "generators KindWG hint tc =
     mtu_edits # (if hint = BlockProtocol \<or> hint = BlockTCP \<or> hint = BlockNone
                  then [wg_endpoint_edits] else [])"
| "generators KindAWG hint tc =
     (if AmneziaWG tc = None then []
      else [profile_edits hint, mtu_edits]
           @ (if hint = BlockProtocol \<or> hint = BlockTCP \<or> hint = BlockNone
              then [awg_endpoint_edits] else []))"
| "generators KindVLESS hint tc =
     (if VLESS tc = None then []
      else (if hint = BlockHTTP
            then [on_vless transport_edits, on_vless fingerprint_edits]
            else [on_vless fingerprint_edits, on_vless transport_edits, on_vless ech_edits])
           @ (if hint = BlockHTTP \<or> hint = BlockTLS \<or> hint = BlockNone
              then [on_vless path_edits] else [])
           @ (if hint = BlockProtocol \<or> hint = BlockTCP \<or> hint = BlockNone
              then [on_vless port_edits] else []))"

text \<open>Every generator reads the tunnel anew through its pointer.\<close>

fun run_generators ::
    "(nat \<Rightarrow> int) \<Rightarrow> kind \<Rightarrow> nat \<Rightarrow> generator list \<Rightarrow> store \<Rightarrow> nat list \<times> store" where
  "run_generators draws k p [] h = ([], h)"
| "run_generators draws k p (g # gs) h =
     (let (vs, h) = new_variants draws k p (case read_tunnel h p of None \<Rightarrow> [] | Some tc \<Rightarrow> g tc) h;
          (ws, h) = run_generators draws k p gs h
      in (vs @ ws, h))"

fun kind_of :: "Protocol \<Rightarrow> kind option" where
  "kind_of ProtocolWireGuard = Some KindWG"
| "kind_of ProtocolAmneziaWG = Some KindAWG"
| "kind_of ProtocolVLESS = Some KindVLESS"
| "kind_of (OtherProtocol s) = None"

definition store_GenerateVariants ::
    "(nat \<Rightarrow> int) \<Rightarrow> nat \<Rightarrow> BlockType \<Rightarrow> int \<Rightarrow> store \<Rightarrow> nat list \<times> store" where
  "store_GenerateVariants draws p hint maxVariants h =
     (let maxVariants = (if maxVariants \<le> 0 then 8 else maxVariants);
          (variants, h) = (case read_tunnel h p of
             None \<Rightarrow> ([], h)
           | Some tc \<Rightarrow> (case kind_of (Protocol tc) of
                 None \<Rightarrow> ([], h)
               | Some k \<Rightarrow> run_generators draws k p (generators k hint tc) h))
      in (take (nat maxVariants) variants, h))"

section \<open>Lemmas on stores\<close>

text \<open>Every pointer leads to an object of its type, and nothing lies above the last allocation.\<close>

fun sound_obj :: "store \<Rightarrow> obj \<Rightarrow> bool" where
  "sound_obj h (TunnelObj t) \<longleftrightarrow>
     (\<forall>a. s_wg t = Some a \<longrightarrow> (\<exists>w i. mem h a = Some (WGObj w i)))
     \<and> (\<forall>a. s_awg t = Some a \<longrightarrow> (\<exists>w i. mem h a = Some (AWGObj w i)))
     \<and> (\<forall>a. s_vless t = Some a \<longrightarrow> (\<exists>vl. mem h a = Some (VLESSObj vl)))
     \<and> (\<forall>a. s_dpi t = Some a \<longrightarrow> (\<exists>d. mem h a = Some (DPIObj d)))"
| "sound_obj h (WGObj w i) \<longleftrightarrow> (\<exists>xs. mem h i = Some (Array xs))"
| "sound_obj h (AWGObj w i) \<longleftrightarrow> (\<exists>xs. mem h i = Some (Array xs))"
| "sound_obj h x \<longleftrightarrow> True"

definition sound :: "store \<Rightarrow> bool" where
  "sound h \<longleftrightarrow> (\<forall>a x. mem h a = Some x \<longrightarrow> a < top h \<and> sound_obj h x)"

lemma sound_obj_grows: "\<lbrakk>sound_obj h x; mem h \<subseteq>\<^sub>m mem h'\<rbrakk> \<Longrightarrow> sound_obj h' x"
  by (cases x) (auto simp: map_le_def, (metis domI)+)

lemma fresh [simp]: "sound h \<Longrightarrow> top h \<le> a \<Longrightarrow> mem h a = None"
  unfolding sound_def by (metis not_le option.exhaust)

text \<open>An allocation keeps what is there, and a sound store sound.\<close>

lemma alloc_grows: "sound h \<Longrightarrow> alloc x h = (a, h') \<Longrightarrow> mem h \<subseteq>\<^sub>m mem h'"
  by (auto simp: alloc_def map_le_def)

lemma alloc_sound:
  assumes "sound h" and "sound_obj h x" and "alloc x h = (a, h')"
  shows "sound h' \<and> mem h' a = Some x \<and> top h \<le> a"
proof -
  have "mem h \<subseteq>\<^sub>m mem h'" by (rule alloc_grows [OF assms(1,3)])
  then have "sound_obj h' y" if "sound_obj h y" for y using that by (rule sound_obj_grows [rotated])
  moreover have h': "mem h' = (mem h)(top h \<mapsto> x)" "top h' = Suc (top h)" "a = top h"
    using assms(3) by (auto simp: alloc_def)
  ultimately show ?thesis
    using assms(1,2) unfolding sound_def by (auto simp: less_Suc_eq)
qed

lemma kept: "\<lbrakk>mem h a = Some x; mem h \<subseteq>\<^sub>m mem h'\<rbrakk> \<Longrightarrow> mem h' a = Some x"
  by (metis domI map_le_def)

text \<open>A later sound store, with all that was there.\<close>

definition extends :: "store \<Rightarrow> store \<Rightarrow> bool" where
  "extends h h' \<longleftrightarrow> sound h' \<and> mem h \<subseteq>\<^sub>m mem h' \<and> top h \<le> top h'"

lemma extends_grows: "extends h h' \<Longrightarrow> mem h \<subseteq>\<^sub>m mem h'"
  by (simp add: extends_def)

lemma extends_refl: "sound h \<Longrightarrow> extends h h"
  by (simp add: extends_def)

lemma extends_trans: "\<lbrakk>extends h ha; extends ha hb\<rbrakk> \<Longrightarrow> extends h hb"
  unfolding extends_def using map_le_trans by fastforce

lemma alloc_extends:
  assumes "sound h" and "sound_obj h x" and "alloc x h = (a, h')"
  shows "extends h h' \<and> mem h' a = Some x \<and> top h \<le> a"
  using alloc_sound [OF assms] alloc_grows [OF assms(1,3)] assms(3)
  by (auto simp: extends_def alloc_def)

lemma two_allocs:
  assumes "sound h" and "sound_obj h x" and "alloc x h = (a, ha)"
    and "mem ha a = Some x \<Longrightarrow> sound_obj ha y" and "alloc y ha = (b, hb)"
  shows "extends h hb \<and> mem hb a = Some x \<and> mem hb b = Some y"
proof -
  note x = alloc_extends [OF assms(1-3)]
  then have "sound ha" "sound_obj ha y" using assms(4) by (auto simp: extends_def)
  note y = alloc_extends [OF this assms(5)]
  then show ?thesis using x extends_trans kept extends_grows by blast
qed

text \<open>What is read in a sound store is read in every store that keeps its objects.\<close>

lemma read_kept:
  assumes sound: "sound h" and sub: "mem h \<subseteq>\<^sub>m mem h'" and "mem h a \<noteq> None"
  shows "read_array h' a = read_array h a" and "read_wg h' a = read_wg h a"
    and "read_awg h' a = read_awg h a" and "read_vless h' a = read_vless h a"
    and "read_dpi h' a = read_dpi h a"
proof -
  from assms(3) obtain x where hx: "mem h a = Some x" by blast
  have x: "mem h' a = Some x" by (rule kept [OF hx sub])
  have array: "read_array h' i = read_array h i" if "mem h i = Some (Array xs)" for i xs
    using that kept [OF that sub] by (simp add: read_array_def)
  have s: "sound_obj h x" using sound hx unfolding sound_def by blast
  show "read_array h' a = read_array h a" "read_vless h' a = read_vless h a"
      "read_dpi h' a = read_dpi h a"
    by (simp_all add: read_array_def read_vless_def read_dpi_def x hx)
  show "read_wg h' a = read_wg h a"
  proof (cases x)
    case (WGObj w i)
    then obtain xs where "mem h i = Some (Array xs)" using s by auto
    from array [OF this] show ?thesis by (simp add: read_wg_def x hx WGObj)
  qed (simp_all add: read_wg_def x hx)
  show "read_awg h' a = read_awg h a"
  proof (cases x)
    case (AWGObj w i)
    then obtain xs where "mem h i = Some (Array xs)" using s by auto
    from array [OF this] show ?thesis by (simp add: read_awg_def x hx AWGObj)
  qed (simp_all add: read_awg_def x hx)
qed

lemma parts_kept:
  assumes "sound h" and "mem h \<subseteq>\<^sub>m mem h'" and "sound_obj h (TunnelObj t)"
  shows "Option.bind (s_wg t) (read_wg h') = Option.bind (s_wg t) (read_wg h)"
    and "Option.bind (s_awg t) (read_awg h') = Option.bind (s_awg t) (read_awg h)"
    and "Option.bind (s_vless t) (read_vless h') = Option.bind (s_vless t) (read_vless h)"
    and "Option.bind (s_dpi t) (read_dpi h') = Option.bind (s_dpi t) (read_dpi h)"
  using assms(3) by (auto split: bind_splits simp: read_kept [OF assms(1,2)])

lemma read_tunnel_struct:
  assumes "read_tunnel h p = Some tc"
  obtains t where "mem h p = Some (TunnelObj t)"
  using assms by (auto simp: read_tunnel_def split: option.splits obj.splits)

lemma read_tunnel_kept:
  assumes "sound h" and "mem h \<subseteq>\<^sub>m mem h'" and "read_tunnel h p = Some tc"
  shows "read_tunnel h' p = Some tc"
proof -
  obtain t where t: "mem h p = Some (TunnelObj t)" by (rule read_tunnel_struct [OF assms(3)])
  then have "sound_obj h (TunnelObj t)" using assms(1) unfolding sound_def by blast
  then show ?thesis using assms(3) kept [OF t assms(2)]
    by (simp add: read_tunnel_def t parts_kept [OF assms(1,2)])
qed

section \<open>What the generators build\<close>

text \<open>The value a round makes: the fields of the copy and its part, edited and marked.\<close>

fun edit_part :: "(nat \<Rightarrow> int) \<Rightarrow> kind \<Rightarrow> edit \<Rightarrow> TunnelConfig \<Rightarrow> TunnelConfig" where
  "edit_part draws KindWG e tc = tc\<lparr>WireGuard := map_option (edit_wg e) (WireGuard tc)\<rparr>"
| "edit_part draws KindAWG e tc = tc\<lparr>AmneziaWG := map_option (edit_awg draws e) (AmneziaWG tc)\<rparr>"
| "edit_part draws KindVLESS e tc = tc\<lparr>VLESS := map_option (edit_vless e) (VLESS tc)\<rparr>"

definition variant_value ::
    "(nat \<Rightarrow> int) \<Rightarrow> kind \<Rightarrow> TunnelConfig \<Rightarrow> string \<times> edit \<Rightarrow> TunnelConfig" where
  "variant_value draws k tc se =
     mark_variant tc (fst se) (edit_struct (snd se) (edit_part draws k (snd se) tc))"

text \<open>
  A round is a sequence of allocations: its writes only reach the objects it has just allocated.
\<close>

abbreviation (input) marked ::
    "TunnelConfig \<Rightarrow> string \<times> edit \<Rightarrow> TunnelStruct \<Rightarrow> TunnelConfig" where
  "marked tc se t \<equiv> mark_variant tc (fst se) (edit_struct (snd se) (s_fields t))"

lemma new_variant_nil:
  assumes "read_tunnel h p = Some tc" and "mem h p = Some (TunnelObj t)" and "part_ptr k t = None"
  shows "new_variant draws k p se h = alloc (TunnelObj (t\<lparr>s_fields := marked tc se t\<rparr>)) h"
  using assms by (cases k) (simp_all add: new_variant_def cloneWG_def cloneAWG_def cloneVLESS_def
      alloc_def write_struct_def write_part_def ptr_of_def put_obj_def)

lemma new_variant_wg:
  assumes "read_tunnel h p = Some tc" and "mem h p = Some (TunnelObj t)" and "s_wg t = Some a"
    and "mem h a = Some (WGObj w i)"
  shows "new_variant draws KindWG p se h =
    (let (ips, h1) = alloc (Array (read_array h i)) h;
         (q, h2) = alloc (WGObj (edit_wg (snd se) w) ips) h1
     in alloc (TunnelObj (t\<lparr>s_wg := Some q, s_fields := marked tc se t\<rparr>)) h2)"
  using assms by (simp add: new_variant_def cloneWG_def Let_def alloc_def write_struct_def
      write_part_def ptr_of_def put_obj_def fun_upd_twist)

lemma new_variant_awg:
  assumes "read_tunnel h p = Some tc" and "mem h p = Some (TunnelObj t)" and "s_awg t = Some a"
    and "mem h a = Some (AWGObj w i)"
  shows "new_variant draws KindAWG p se h =
    (let (ips, h1) = alloc (Array (read_array h i)) h;
         (q, h2) = alloc (AWGObj (edit_awg draws (snd se) w) ips) h1
     in alloc (TunnelObj (t\<lparr>s_awg := Some q, s_fields := marked tc se t\<rparr>)) h2)"
  using assms by (simp add: new_variant_def cloneAWG_def Let_def alloc_def write_struct_def
      write_part_def ptr_of_def put_obj_def fun_upd_twist)

lemma new_variant_vless:
  assumes "read_tunnel h p = Some tc" and "mem h p = Some (TunnelObj t)" and "s_vless t = Some a"
    and "mem h a = Some (VLESSObj vl)"
  shows "new_variant draws KindVLESS p se h =
    (let (q, h1) = alloc (VLESSObj (edit_vless (snd se) vl)) h
     in alloc (TunnelObj (t\<lparr>s_vless := Some q, s_fields := marked tc se t\<rparr>)) h1)"
  using assms by (simp add: new_variant_def cloneVLESS_def Let_def alloc_def write_struct_def
      write_part_def ptr_of_def put_obj_def fun_upd_twist)

lemma edit_keeps_ips [simp]:
  "edit_wg e (w\<lparr>AllowedIPs := xs\<rparr>) = (edit_wg e w)\<lparr>AllowedIPs := xs\<rparr>"
  "edit_awg draws e (aw\<lparr>AllowedIPs := xs\<rparr>) = (edit_awg draws e aw)\<lparr>AllowedIPs := xs\<rparr>"
  by (cases e; simp add: randomizeAWGHeaders_def apply_profile_def)+

lemma edit_keeps_parts [simp]:
  "edit_struct e (s\<lparr>WireGuard := x\<rparr>) = (edit_struct e s)\<lparr>WireGuard := x\<rparr>"
  "edit_struct e (s\<lparr>AmneziaWG := y\<rparr>) = (edit_struct e s)\<lparr>AmneziaWG := y\<rparr>"
  "edit_struct e (s\<lparr>VLESS := z\<rparr>) = (edit_struct e s)\<lparr>VLESS := z\<rparr>"
  "edit_struct e (s\<lparr>DPI := d\<rparr>) = (edit_struct e s)\<lparr>DPI := d\<rparr>"
  by (cases e; simp)+

text \<open>A round leaves a sound store that keeps all it had, and a new tunnel of the round's value.\<close>

definition made :: "store \<Rightarrow> store \<Rightarrow> nat \<Rightarrow> TunnelConfig \<Rightarrow> bool" where
  "made h h' v tc \<longleftrightarrow> extends h h' \<and> top h \<le> v \<and> read_tunnel h' v = Some tc"

lemma made_nil:
  assumes sound: "sound h" and tc: "read_tunnel h p = Some tc"
    and t: "mem h p = Some (TunnelObj t)" and nil: "part_ptr k t = None"
    and new: "new_variant draws k p se h = (v, h')"
  shows "made h h' v (variant_value draws k tc se)"
proof -
  let ?t = "t\<lparr>s_fields := marked tc se t\<rparr>"
  have s: "sound_obj h (TunnelObj t)" using sound t unfolding sound_def by blast
  have a: "alloc (TunnelObj ?t) h = (v, h')"
    using new by (simp add: new_variant_nil [OF tc t nil])
  have x: "extends h h'" "mem h' v = Some (TunnelObj ?t)" "top h \<le> v"
    using alloc_extends [OF sound _ a] s by simp_all
  note parts_kept [OF sound extends_grows [OF x(1)] s]
  then have "read_tunnel h' v = Some (variant_value draws k tc se)" using tc nil
    by (cases k) (auto simp: read_tunnel_def t x(2) variant_value_def mark_variant_def)
  then show ?thesis using x by (simp add: made_def)
qed

text \<open>The shared part of the other cases: the new struct over a store with the new part in it.\<close>

lemma struct_made:
  assumes sound: "sound h" and s: "sound_obj h (TunnelObj t)" and ext: "extends h hb"
    and t': "sound_obj hb (TunnelObj t')" and a: "alloc (TunnelObj t') hb = (v, h')"
  shows "extends h h'" and "mem hb \<subseteq>\<^sub>m mem h'" and "mem h' v = Some (TunnelObj t')"
    and "top h \<le> v"
proof -
  have s2: "sound hb" using ext by (simp add: extends_def)
  note x = alloc_extends [OF s2 t' a]
  show "extends h h'" using extends_trans [OF ext] x by blast
  show "mem hb \<subseteq>\<^sub>m mem h'" "mem h' v = Some (TunnelObj t')" "top h \<le> v"
    using x ext by (auto simp: extends_def)
qed

lemma made_wg:
  assumes sound: "sound h" and tc: "read_tunnel h p = Some tc"
    and t: "mem h p = Some (TunnelObj t)" and ptr: "s_wg t = Some q"
    and new: "new_variant draws KindWG p se h = (v, h')"
  shows "made h h' v (variant_value draws KindWG tc se)"
proof -
  have s: "sound_obj h (TunnelObj t)" using sound t unfolding sound_def by blast
  then obtain w i where w: "mem h q = Some (WGObj w i)" using ptr by auto
  obtain ips ha where a1: "alloc (Array (read_array h i)) h = (ips, ha)" by fastforce
  obtain q' hb where a2: "alloc (WGObj (edit_wg (snd se) w) ips) ha = (q', hb)" by fastforce
  let ?t = "t\<lparr>s_wg := Some q', s_fields := marked tc se t\<rparr>"
  have a3: "alloc (TunnelObj ?t) hb = (v, h')"
    using new by (simp add: new_variant_wg [OF tc t ptr w] a1 a2)
  have e: "extends h hb" "mem hb ips = Some (Array (read_array h i))"
      "mem hb q' = Some (WGObj (edit_wg (snd se) w) ips)"
    using two_allocs [OF sound _ a1 _ a2] by simp_all
  have "sound_obj hb (TunnelObj ?t)" using sound_obj_grows [OF s extends_grows [OF e(1)]] e(3) by simp
  note x = struct_made [OF sound s e(1) this a3]
  have "read_wg h' q' = Some (edit_wg (snd se) (w\<lparr>AllowedIPs := read_array h i\<rparr>))"
    using kept [OF e(3) x(2)] kept [OF e(2) x(2)] by (simp add: read_wg_def read_array_def)
  then show ?thesis using x tc
    by (auto simp: made_def read_tunnel_def t ptr w parts_kept [OF sound extends_grows [OF x(1)] s]
        variant_value_def mark_variant_def read_wg_def)
qed

lemma made_awg:
  assumes sound: "sound h" and tc: "read_tunnel h p = Some tc"
    and t: "mem h p = Some (TunnelObj t)" and ptr: "s_awg t = Some q"
    and new: "new_variant draws KindAWG p se h = (v, h')"
  shows "made h h' v (variant_value draws KindAWG tc se)"
proof -
  have s: "sound_obj h (TunnelObj t)" using sound t unfolding sound_def by blast
  then obtain w i where w: "mem h q = Some (AWGObj w i)" using ptr by auto
  obtain ips ha where a1: "alloc (Array (read_array h i)) h = (ips, ha)" by fastforce
  obtain q' hb where a2: "alloc (AWGObj (edit_awg draws (snd se) w) ips) ha = (q', hb)" by fastforce
  let ?t = "t\<lparr>s_awg := Some q', s_fields := marked tc se t\<rparr>"
  have a3: "alloc (TunnelObj ?t) hb = (v, h')"
    using new by (simp add: new_variant_awg [OF tc t ptr w] a1 a2)
  have e: "extends h hb" "mem hb ips = Some (Array (read_array h i))"
      "mem hb q' = Some (AWGObj (edit_awg draws (snd se) w) ips)"
    using two_allocs [OF sound _ a1 _ a2] by simp_all
  have "sound_obj hb (TunnelObj ?t)" using sound_obj_grows [OF s extends_grows [OF e(1)]] e(3) by simp
  note x = struct_made [OF sound s e(1) this a3]
  have "read_awg h' q' = Some (edit_awg draws (snd se) (w\<lparr>AllowedIPs := read_array h i\<rparr>))"
    using kept [OF e(3) x(2)] kept [OF e(2) x(2)] by (simp add: read_awg_def read_array_def)
  then show ?thesis using x tc
    by (auto simp: made_def read_tunnel_def t ptr w parts_kept [OF sound extends_grows [OF x(1)] s]
        variant_value_def mark_variant_def read_awg_def)
qed

lemma made_vless:
  assumes sound: "sound h" and tc: "read_tunnel h p = Some tc"
    and t: "mem h p = Some (TunnelObj t)" and ptr: "s_vless t = Some q"
    and new: "new_variant draws KindVLESS p se h = (v, h')"
  shows "made h h' v (variant_value draws KindVLESS tc se)"
proof -
  have s: "sound_obj h (TunnelObj t)" using sound t unfolding sound_def by blast
  then obtain vl where vl: "mem h q = Some (VLESSObj vl)" using ptr by auto
  obtain q' hb where a1: "alloc (VLESSObj (edit_vless (snd se) vl)) h = (q', hb)" by fastforce
  let ?t = "t\<lparr>s_vless := Some q', s_fields := marked tc se t\<rparr>"
  have a2: "alloc (TunnelObj ?t) hb = (v, h')"
    using new by (simp add: new_variant_vless [OF tc t ptr vl] a1)
  have e: "extends h hb" "mem hb q' = Some (VLESSObj (edit_vless (snd se) vl))"
    using alloc_extends [OF sound _ a1] by simp_all
  have "sound_obj hb (TunnelObj ?t)" using sound_obj_grows [OF s extends_grows [OF e(1)]] e(2) by simp
  note x = struct_made [OF sound s e(1) this a2]
  have "read_vless h' q' = Some (edit_vless (snd se) vl)"
    using kept [OF e(2) x(2)] by (simp add: read_vless_def)
  then show ?thesis using x tc
    by (auto simp: made_def read_tunnel_def t ptr vl parts_kept [OF sound extends_grows [OF x(1)] s]
        variant_value_def mark_variant_def read_vless_def)
qed

lemma new_variant_made:
  assumes sound: "sound h" and tc: "read_tunnel h p = Some tc"
    and new: "new_variant draws k p se h = (v, h')"
  shows "made h h' v (variant_value draws k tc se)"
proof -
  obtain t where t: "mem h p = Some (TunnelObj t)" by (rule read_tunnel_struct [OF tc])
  show ?thesis
  proof (cases "part_ptr k t")
    case None
    then show ?thesis by (rule made_nil [OF sound tc t _ new])
  next
    case (Some q)
    then show ?thesis using made_wg [OF sound tc t] made_awg [OF sound tc t]
        made_vless [OF sound tc t] new by (cases k) auto
  qed
qed

text \<open>The rounds of a generator, then of all of them.\<close>

lemma reads_kept:
  assumes "sound h" and "extends h h'" and "map (read_tunnel h) vs = map Some xs"
  shows "map (read_tunnel h') vs = map Some xs"
  using assms(3)
proof (induction vs arbitrary: xs)
  case (Cons v vs)
  then show ?case by (cases xs) (auto intro: read_tunnel_kept [OF assms(1) extends_grows [OF assms(2)]])
qed simp

lemma new_variants_made:
  assumes "sound h" and "read_tunnel h p = Some tc" and "new_variants draws k p ses h = (vs, h')"
  shows "extends h h' \<and> map (read_tunnel h') vs = map Some (map (variant_value draws k tc) ses)
    \<and> (\<forall>v \<in> set vs. top h \<le> v)"
  using assms
proof (induction ses arbitrary: h vs h')
  case Nil
  then show ?case by (simp add: extends_refl)
next
  case (Cons se ses)
  obtain v g where n: "new_variant draws k p se h = (v, g)" by fastforce
  obtain ws where ns: "new_variants draws k p ses g = (ws, h')" and vs: "vs = v # ws"
    using Cons.prems(3) n by (auto split: prod.splits)
  have m: "made h g v (variant_value draws k tc se)"
    by (rule new_variant_made [OF Cons.prems(1,2) n])
  then have e: "extends h g" and s: "sound g" by (simp_all add: made_def extends_def)
  have "read_tunnel g p = Some tc"
    by (rule read_tunnel_kept [OF Cons.prems(1) extends_grows [OF e] Cons.prems(2)])
  note ih = Cons.IH [OF s this ns]
  have "read_tunnel h' v = Some (variant_value draws k tc se)"
    using m ih read_tunnel_kept [OF s extends_grows] by (simp add: made_def)
  moreover have "extends h h'" using extends_trans [OF e] ih by blast
  moreover have "top h \<le> top g" using e by (simp add: extends_def)
  ultimately show ?case using ih m by (auto simp: vs made_def)
qed

lemma run_generators_made:
  assumes "sound h" and "read_tunnel h p = Some tc" and "run_generators draws k p gs h = (vs, h')"
  shows "extends h h'
    \<and> map (read_tunnel h') vs = map Some (concat (map (\<lambda>g. map (variant_value draws k tc) (g tc)) gs))
    \<and> (\<forall>v \<in> set vs. top h \<le> v)"
  using assms
proof (induction gs arbitrary: h vs h')
  case Nil
  then show ?case by (simp add: extends_refl)
next
  case (Cons gen gs)
  obtain us g where n: "new_variants draws k p (gen tc) h = (us, g)" by fastforce
  obtain ws where ns: "run_generators draws k p gs g = (ws, h')" and vs: "vs = us @ ws"
    using Cons.prems(2,3) n by (auto split: prod.splits)
  note m = new_variants_made [OF Cons.prems(1,2) n]
  then have e: "extends h g" and s: "sound g" by (simp_all add: extends_def)
  have "read_tunnel g p = Some tc"
    by (rule read_tunnel_kept [OF Cons.prems(1) extends_grows [OF e] Cons.prems(2)])
  note ih = Cons.IH [OF s this ns]
  have "map (read_tunnel h') us = map Some (map (variant_value draws k tc) (gen tc))"
    using m ih reads_kept [OF s] by blast
  moreover have "extends h h'" using extends_trans [OF e] ih by blast
  moreover have "top h \<le> top g" using e by (simp add: extends_def)
  ultimately show ?case using ih m by (auto simp: vs)
qed

section \<open>Agreement with the values\<close>

lemma tc_same [simp]:
  fixes tc :: TunnelConfig
  shows "tc\<lparr>WireGuard := WireGuard tc\<rparr> = tc" and "tc\<lparr>AmneziaWG := AmneziaWG tc\<rparr> = tc"
    and "tc\<lparr>VLESS := VLESS tc\<rparr> = tc"
  by simp_all

lemma mtu_keeps_parts: "edit_part draws k (SetMTU m) tc = tc"
proof -
  have "edit_wg (SetMTU m) = (\<lambda>w. w)" "edit_awg draws (SetMTU m) = (\<lambda>w. w)"
      "edit_vless (SetMTU m) = (\<lambda>vl. vl)" by auto
  then show ?thesis by (cases k) (simp_all add: option.map_ident)
qed

lemma mtu_values: "map (variant_value draws k tc) (mtu_edits tc) = mtu_variants tc"
  by (simp add: mtu_edits_def mtu_variants_def variant_value_def mtu_keeps_parts)

lemma wg_endpoint_values:
  "map (variant_value draws KindWG tc) (wg_endpoint_edits tc) = wgEndpointPortVariants tc"
  by (auto simp: edit_defs wgEndpointPortVariants_def variant_value_def split: option.splits prod.splits)

lemma awg_endpoint_values:
  "map (variant_value draws KindAWG tc) (awg_endpoint_edits tc) = awgEndpointPortVariants tc"
  by (auto simp: edit_defs awgEndpointPortVariants_def variant_value_def split: option.splits prod.splits)

lemma profile_values:
  "AmneziaWG tc = Some cur \<Longrightarrow>
   map (variant_value draws KindAWG tc) (profile_loop cur profs n) = awg_profile_loop draws tc cur profs n"
  by (induction profs arbitrary: n) (simp_all add: variant_value_def)

lemma vless_values:
  assumes "VLESS tc = Some vl"
  shows "map (variant_value draws KindVLESS tc) (fingerprint_edits vl) = vlessFingerprintVariants tc vl"
    and "map (variant_value draws KindVLESS tc) (transport_edits vl) = vlessTransportVariants tc vl"
    and "map (variant_value draws KindVLESS tc) (path_edits vl) = vlessPathVariantsForTransport tc vl"
    and "map (variant_value draws KindVLESS tc) (ech_edits vl) = vlessECHVariants tc vl"
    and "map (variant_value draws KindVLESS tc) (port_edits vl) = vlessPortVariants tc vl"
  using assms by (simp_all add: edit_defs variant_value_def vlessFingerprintVariants_def
      vlessTransportVariants_def vlessPathVariantsForTransport_def vlessECHVariants_def
      vlessPortVariants_def)

fun value_generators ::
    "(nat \<Rightarrow> int) \<Rightarrow> kind \<Rightarrow> TunnelConfig \<Rightarrow> BlockType \<Rightarrow> TunnelConfig list" where
  "value_generators draws KindWG tc hint = wgVariants tc hint"
| "value_generators draws KindAWG tc hint = awgVariants draws tc hint"
| "value_generators draws KindVLESS tc hint = vlessVariants tc hint"

lemma generator_values:
  "concat (map (\<lambda>g. map (variant_value draws k tc) (g tc)) (generators k hint tc))
     = value_generators draws k tc hint"
proof (cases k)
  case KindWG
  then show ?thesis by (simp add: wgVariants_def mtu_values wg_endpoint_values)
next
  case KindAWG
  then show ?thesis by (cases "AmneziaWG tc")
      (simp_all add: awgVariants_def mtu_values awg_endpoint_values profile_edits_def profile_values)
next
  case KindVLESS
  then show ?thesis by (cases "VLESS tc") (simp_all add: vlessVariants_def on_vless_def vless_values)
qed

lemma value_GenerateVariants:
  "GenerateVariants draws tc hint maxVariants =
     take (nat (if maxVariants \<le> 0 then 8 else maxVariants))
       (case kind_of (Protocol tc) of None \<Rightarrow> [] | Some k \<Rightarrow> value_generators draws k tc hint)"
  by (cases "Protocol tc") (simp_all add: GenerateVariants_def)

text \<open>
  C14: The copies are deep enough. On a store of tunnels, where the generators copy the struct,
  the settings and the array that \<open>cloneWG\<close>, \<open>cloneAWG\<close> and \<open>cloneVLESS\<close> copy and then write
  through the copy's pointers, the tunnels that \<open>GenerateVariants\<close> returns read as the ones of
  the model on values, each lies on memory that no tunnel had before, and every tunnel the
  daemon had, the base included, reads as it did: no variant's MTU, endpoint, header, transport
  or port leaks into the configuration it was made from.
\<close>

theorem generate_variants_store:
  assumes "sound h" and "read_tunnel h p = Some tc"
    and "store_GenerateVariants draws p hint maxVariants h = (vs, h')"
  shows "map (read_tunnel h') vs = map Some (GenerateVariants draws tc hint maxVariants)
    \<and> (\<forall>v \<in> set vs. mem h v = None)
    \<and> (\<forall>q t. read_tunnel h q = Some t \<longrightarrow> read_tunnel h' q = Some t)"
proof (cases "kind_of (Protocol tc)")
  case None
  then show ?thesis using assms
    by (auto simp: store_GenerateVariants_def value_GenerateVariants)
next
  case (Some k)
  obtain ws g where run: "run_generators draws k p (generators k hint tc) h = (ws, g)" by fastforce
  note m = run_generators_made [OF assms(1,2) run, unfolded generator_values]
  have vs: "h' = g" "vs = take (nat (if maxVariants \<le> 0 then 8 else maxVariants)) ws"
    using assms(3) by (simp_all add: store_GenerateVariants_def assms(2) Some run)
  have "map (read_tunnel g) vs = map Some (GenerateVariants draws tc hint maxVariants)"
    using m by (simp add: vs(2) value_GenerateVariants Some take_map [symmetric])
  then show ?thesis using m fresh [OF assms(1)] read_tunnel_kept [OF assms(1) extends_grows]
    by (auto simp: vs dest: in_set_takeD)
qed

text \<open>A WireGuard tunnel in the store, with its settings and allowed IPs behind pointers.\<close>

definition sample_wg_settings :: WireGuardConfig where
  "sample_wg_settings = zero_wg\<lparr>Endpoint := ''vpn.example:51820''\<rparr>"

definition sample_store :: store where
  "sample_store = \<lparr>mem = [0 \<mapsto> Array [''0.0.0.0/0''], 1 \<mapsto> WGObj sample_wg_settings 0,
     2 \<mapsto> TunnelObj \<lparr>s_fields = zero_tc\<lparr>ID := ''a'', Protocol := ProtocolWireGuard\<rparr>, s_wg = Some 1, s_awg = None,
       s_vless = None, s_dpi = None\<rparr>], top = 3\<rparr>"

definition sample_base :: TunnelConfig where
  "sample_base = zero_tc\<lparr>ID := ''a'', Protocol := ProtocolWireGuard,
     WireGuard := Some (sample_wg_settings\<lparr>AllowedIPs := [''0.0.0.0/0'']\<rparr>)\<rparr>"

lemma sample_store_sound: "sound sample_store"
  by (auto simp: sound_def sample_store_def split: if_splits)

lemma sample_store_reads: "read_tunnel sample_store 2 = Some sample_base"
  by (simp add: read_tunnel_def read_wg_def read_array_def sample_store_def sample_base_def zero_tc_def
      sample_wg_settings_def zero_wg_def)

lemma generate_variants_store_witness:
  "\<exists>vs h'. store_GenerateVariants (\<lambda>n. 7) 2 BlockNone 8 sample_store = (vs, h')
    \<and> map (\<lambda>v. map_option ID (read_tunnel h' v)) vs
        = map Some [''a:dpi:mtu1200'', ''a:dpi:mtu1280'', ''a:dpi:mtu1360'',
            ''a:dpi:ep443'', ''a:dpi:ep80'', ''a:dpi:ep53'']
    \<and> read_tunnel h' 2 = Some sample_base"
proof -
  obtain vs h' where r: "store_GenerateVariants (\<lambda>n. 7) 2 BlockNone 8 sample_store = (vs, h')"
    by fastforce
  note p = generate_variants_store [OF sample_store_sound sample_store_reads r]
  let ?G = "GenerateVariants (\<lambda>n. 7) sample_base BlockNone 8"
  have "map (\<lambda>v. map_option ID (read_tunnel h' v)) vs = map (map_option ID) (map (read_tunnel h') vs)"
    by simp
  also have "\<dots> = map (map_option ID) (map Some ?G)"
    by (simp only: p [THEN conjunct1])
  also have "\<dots> = map Some (map ID ?G)" by simp
  also have "map ID ?G = [''a:dpi:mtu1200'', ''a:dpi:mtu1280'', ''a:dpi:mtu1360'',
      ''a:dpi:ep443'', ''a:dpi:ep80'', ''a:dpi:ep53'']" by code_simp
  finally show ?thesis using r p sample_store_reads by blast
qed

end
